(* ===== verification/Prelude.thy ===== *)
theory Prelude
  imports Main "HOL-Library.Word" "HOL-Library.List_Lexorder"
begin

text \<open>
  The vocabulary the components share: Go's basic types (bytes, fixed-width integers, byte
  strings), the conversions between \<open>string\<close> and \<open>[]byte\<close>, the big-endian integer
  codecs of \<open>encoding/binary\<close> and the list lemmas the component proofs rest on.
\<close>

unbundle bit_operations_syntax

type_synonym byte = "8 word"
type_synonym bytes = "byte list"
type_synonym uint32 = "32 word"
type_synonym uint64 = "64 word"
type_synonym int64 = "64 word"

named_theorems codec_simps \<open>length and inversion rules of the byte codecs\<close>
named_theorems go_defs \<open>definitions of small helpers that automation may unfold\<close>

section \<open>Sums as results\<close>

text \<open>A Go call returning \<open>(T, error)\<close> yields \<open>Inl err\<close> or \<open>Inr value\<close>.\<close>

fun res_bind :: "'e + 'a \<Rightarrow> ('a \<Rightarrow> 'e + 'b) \<Rightarrow> 'e + 'b" where
  "res_bind (Inl e) f = Inl e"
| "res_bind (Inr x) f = f x"

lemma res_bind_eq_Inr: "res_bind m f = Inr y \<longleftrightarrow> (\<exists>x. m = Inr x \<and> f x = Inr y)"
  by (cases m) auto

lemma res_bind_eq_Inl: "res_bind m f = Inl e \<longleftrightarrow> m = Inl e \<or> (\<exists>x. m = Inr x \<and> f x = Inl e)"
  by (cases m) auto

lemma res_bind_assoc: "res_bind (res_bind m f) g = res_bind m (\<lambda>x. res_bind (f x) g)"
  by (cases m) auto

lemma case_option_eq_Inr:
  "(case x of None \<Rightarrow> Inl e | Some a \<Rightarrow> f a) = Inr y \<longleftrightarrow> (\<exists>a. x = Some a \<and> f a = Inr y)"
  by (cases x) auto

lemma if_Inl_eq_Inr: "(if b then Inl e else m) = Inr y \<longleftrightarrow> \<not> b \<and> m = Inr y"
  by auto

lemmas res_eq_Inr = res_bind_eq_Inr case_option_eq_Inr if_Inl_eq_Inr

section \<open>Ranges of the machine integers\<close>

lemma unat_byte_less: "unat (x :: byte) < 256"
  using unsigned_less [of x] by simp

lemma unat_u32_less: "unat (x :: uint32) < 4294967296"
  using unsigned_less [of x] by simp

lemma unat_u64_less: "unat (x :: uint64) < 18446744073709551616"
  using unsigned_less [of x] by simp

section \<open>Strings and byte slices\<close>

text \<open>\<open>[]byte(s)\<close> and \<open>string(b)\<close>: a Go string is a byte sequence, a HOL \<open>char\<close> is a byte.\<close>

definition bytes_of_string :: "string \<Rightarrow> bytes" where
  "bytes_of_string s = map of_char s"

definition string_of_bytes :: "bytes \<Rightarrow> string" where
  "string_of_bytes b = map (\<lambda>x. char_of (unat x)) b"

lemma length_bytes_of_string [simp]: "length (bytes_of_string s) = length s"
  by (simp add: bytes_of_string_def)

lemma length_string_of_bytes [simp]: "length (string_of_bytes b) = length b"
  by (simp add: string_of_bytes_def)

lemma unat_of_char: "unat (of_char c :: byte) = of_char c"
proof -
  have "(of_char c :: byte) = of_nat (of_char c)"
    by (metis of_nat_of_char)
  moreover have "(of_char c :: nat) < 256"
    by simp
  ultimately show ?thesis
    by (simp add: unat_of_nat)
qed

lemma string_of_bytes_of_string [simp]: "string_of_bytes (bytes_of_string s) = s"
  by (simp add: string_of_bytes_def bytes_of_string_def unat_of_char map_idI)

lemma bytes_of_string_of_bytes [simp]: "bytes_of_string (string_of_bytes b) = b"
proof -
  have "(of_char (char_of (unat x) :: char) :: byte) = x" for x :: byte
  proof -
    have "unat (of_char (char_of (unat x) :: char) :: byte) = unat x"
      using unat_byte_less [of x] by (simp add: unat_of_char)
    then show ?thesis by (rule word_unat_eq_iff [THEN iffD2])
  qed
  then show ?thesis
    by (simp add: string_of_bytes_def bytes_of_string_def map_idI)
qed

lemma inj_bytes_of_string: "inj bytes_of_string"
  by (rule inj_on_inverseI [where g = string_of_bytes]) simp

lemma bytes_of_string_eq_iff [simp]: "bytes_of_string s = bytes_of_string t \<longleftrightarrow> s = t"
  using inj_bytes_of_string by (auto dest: injD)

lemma bytes_of_string_eq_Nil [simp]: "bytes_of_string s = [] \<longleftrightarrow> s = []"
  by (simp add: bytes_of_string_def)

section \<open>Big-endian integers (encoding/binary)\<close>

text \<open>
  The encoders write the base-256 digits of the value, most significant first; the decoders
  read them back. \<open>be_val\<close> gives a byte string its numeric value, so that the byte order of
  two equally long keys can be compared with the order of the numbers they encode.
\<close>

fun be_bytes :: "nat \<Rightarrow> nat \<Rightarrow> bytes" where
  "be_bytes 0 n = []"
| "be_bytes (Suc k) n = be_bytes k (n div 256) @ [of_nat n]"

definition be_val :: "bytes \<Rightarrow> nat" where
  "be_val b = foldl (\<lambda>a x. a * 256 + unat x) 0 b"

definition put_u32 :: "uint32 \<Rightarrow> bytes" where
  "put_u32 v = be_bytes 4 (unat v)"

definition get_u32 :: "bytes \<Rightarrow> uint32" where
  "get_u32 b = of_nat (be_val (take 4 b))"

definition put_u64 :: "uint64 \<Rightarrow> bytes" where
  "put_u64 v = be_bytes 8 (unat v)"

definition get_u64 :: "bytes \<Rightarrow> uint64" where
  "get_u64 b = of_nat (be_val (take 8 b))"

lemma length_be_bytes [simp, codec_simps]: "length (be_bytes k n) = k"
  by (induction k n rule: be_bytes.induct) auto

lemma be_val_Nil [simp]: "be_val [] = 0"
  by (simp add: be_val_def)

lemma be_val_snoc [simp]: "be_val (b @ [x]) = be_val b * 256 + unat x"
  by (simp add: be_val_def)

lemma unat_of_nat_byte: "unat (of_nat n :: byte) = n mod 256"
  by (simp add: unat_of_nat)

lemma be_val_be_bytes: "be_val (be_bytes k n) = n mod 256 ^ k"
proof (induction k n rule: be_bytes.induct)
  case (1 n)
  then show ?case by simp
next
  case (2 k n)
  have "n mod (256 * 256 ^ k) = 256 * (n div 256 mod 256 ^ k) + n mod 256"
    by (rule mod_mult2_eq)
  with 2 show ?case by (simp add: unat_of_nat_byte)
qed

lemma be_val_less: "be_val b < 256 ^ length b"
proof (induction b rule: rev_induct)
  case Nil
  then show ?case by simp
next
  case (snoc x b)
  have "unat x < 256" by (rule unat_byte_less)
  with snoc show ?case by simp
qed

lemma be_val_append: "be_val (a @ b) = be_val a * 256 ^ length b + be_val b"
  by (induction b rule: rev_induct) (simp_all add: append_assoc [symmetric] algebra_simps del: append_assoc)

lemma length_put_u32 [simp, codec_simps]: "length (put_u32 v) = 4"
  by (simp add: put_u32_def)

lemma length_put_u64 [simp, codec_simps]: "length (put_u64 v) = 8"
  by (simp add: put_u64_def)

lemma be_val_put_u32: "be_val (put_u32 v) = unat v"
  using unat_u32_less [of v] by (simp add: put_u32_def be_val_be_bytes)

lemma be_val_put_u64: "be_val (put_u64 v) = unat v"
  using unat_u64_less [of v] by (simp add: put_u64_def be_val_be_bytes)

lemma get_put_u32 [simp, codec_simps]: "get_u32 (put_u32 v) = v"
  by (simp add: get_u32_def be_val_put_u32)

lemma get_put_u64 [simp, codec_simps]: "get_u64 (put_u64 v) = v"
  by (simp add: get_u64_def be_val_put_u64)

lemma get_u32_append [simp, codec_simps]: "get_u32 (put_u32 v @ b) = v"
  by (simp add: get_u32_def be_val_put_u32)

lemma get_u32_take [simp]: "get_u32 (take 4 b) = get_u32 b"
  by (simp add: get_u32_def)

lemma be_bytes_0: "be_bytes k 0 = replicate k 0"
  by (induction k) (simp_all add: replicate_append_same)

lemma put_u32_0: "put_u32 0 = replicate 4 0"
  by (simp add: put_u32_def be_bytes_0)

text \<open>For byte strings of one length, the byte order is the order of the numbers.\<close>

lemma be_val_Cons: "be_val (x # b) = unat x * 256 ^ length b + be_val b"
  using be_val_append [of "[x]" b] be_val_snoc [of "[]" x] by simp

lemma be_val_less_iff:
  "length a = length b \<Longrightarrow> a < b \<longleftrightarrow> be_val a < be_val b"
proof (induction a b rule: list_induct2)
  case Nil
  then show ?case by simp
next
  case (Cons x xs y ys)
  let ?B = "256 ^ length ys :: nat"
  have bx: "be_val xs < ?B" and yb: "be_val ys < ?B"
    using be_val_less [of xs] be_val_less [of ys] Cons.hyps by simp_all
  have lt: "unat x * ?B + be_val xs < unat y * ?B + be_val ys" if "unat x < unat y"
  proof -
    from that have "(unat x + 1) * ?B \<le> unat y * ?B" by (intro mult_le_mono1) simp
    with bx show ?thesis by simp
  qed
  have gt: "unat y * ?B + be_val ys < unat x * ?B + be_val xs" if "unat y < unat x"
  proof -
    from that have "(unat y + 1) * ?B \<le> unat x * ?B" by (intro mult_le_mono1) simp
    with yb show ?thesis by simp
  qed
  consider "unat x < unat y" | "unat y < unat x" | "unat x = unat y" by arith
  then show ?case
  proof cases
    case 1
    with lt Cons.hyps show ?thesis by (simp add: be_val_Cons word_less_nat_alt)
  next
    case 2
    with gt Cons.hyps show ?thesis
      by (auto simp add: be_val_Cons word_less_nat_alt dest: less_asym)
  next
    case 3
    then have "x = y" by (rule word_unat_eq_iff [THEN iffD2])
    with Cons show ?thesis by (simp add: be_val_Cons)
  qed
qed

lemma put_u64_less_iff: "put_u64 v < put_u64 w \<longleftrightarrow> v < w"
  by (simp add: be_val_less_iff be_val_put_u64 word_less_nat_alt)

end
