(* ===== verification/Go_IO.thy ===== *)
theory Go_IO
  imports Prelude
begin

text \<open>
  The \<open>io\<close> interfaces the pipeline and the decryptor are written against. A reader is the
  byte sequence it still delivers together with the error it reports after the last byte; how
  the bytes are cut into single \<open>Read\<close> calls is invisible to \<open>io.ReadFull\<close> and
  \<open>io.Copy\<close>, the only calls the code makes. A writer records what it accepted and how much
  room it has left; when the room is used up it either reports an error (a full disk, a closed
  pipe) or blocks for ever (the write end of an \<open>io.Pipe\<close> whose reading goroutine is gone
  without closing the read end).
\<close>

section \<open>Readers\<close>

datatype io_err = EOF | ErrUnexpectedEOF | OtherErr nat

record reader =
  rd_data :: bytes
  rd_end :: io_err

definition reader_of :: "bytes \<Rightarrow> reader" where
  "reader_of b = \<lparr>rd_data = b, rd_end = EOF\<rparr>"

lemma reader_of_simps [simp]: "rd_data (reader_of b) = b" "rd_end (reader_of b) = EOF"
  by (simp_all add: reader_of_def)

text \<open>
  \<open>io.ReadFull(r, buf)\<close> with \<open>len(buf) = n\<close>: the bytes read, the error, and the reader
  afterwards. A clean end before the first byte is \<open>io.EOF\<close>, one after some bytes is
  \<open>io.ErrUnexpectedEOF\<close>, and any other error is passed on.
\<close>

definition ReadFull :: "reader \<Rightarrow> nat \<Rightarrow> bytes \<times> io_err option \<times> reader" where
  "ReadFull r n =
     (let b = take n (rd_data r); r' = r\<lparr>rd_data := drop n (rd_data r)\<rparr>
      in if n \<le> length (rd_data r) then (b, None, r')
         else if rd_end r = EOF
              then (b, Some (if b = [] then EOF else ErrUnexpectedEOF), r')
              else (b, Some (rd_end r), r'))"

lemma ReadFull_full:
  "n \<le> length (rd_data r) \<Longrightarrow>
     ReadFull r n = (take n (rd_data r), None, r\<lparr>rd_data := drop n (rd_data r)\<rparr>)"
  by (simp add: ReadFull_def)

lemma ReadFull_append [simp]:
  "length p = n \<Longrightarrow> ReadFull \<lparr>rd_data = p @ q, rd_end = e\<rparr> n = (p, None, \<lparr>rd_data = q, rd_end = e\<rparr>)"
  by (simp add: ReadFull_def)

lemma ReadFull_short:
  "length d < n \<Longrightarrow> ReadFull \<lparr>rd_data = d, rd_end = EOF\<rparr> n =
     (d, Some (if d = [] then EOF else ErrUnexpectedEOF), \<lparr>rd_data = [], rd_end = EOF\<rparr>)"
  by (auto simp add: ReadFull_def Let_def)

lemma ReadFull_bytes: "ReadFull r n = (b, e, r') \<Longrightarrow> rd_data r = b @ rd_data r' \<and> rd_end r' = rd_end r"
  by (auto simp: ReadFull_def Let_def split: if_splits)

lemma ReadFull_None_iff: "ReadFull r n = (b, None, r') \<longleftrightarrow>
    n \<le> length (rd_data r) \<and> b = take n (rd_data r) \<and> r' = r\<lparr>rd_data := drop n (rd_data r)\<rparr>"
  by (auto simp: ReadFull_def Let_def split: if_splits)

text \<open>In the shape a termination proof meets them:\<close>

lemma ReadFull_shrinks:
  "(b, None, r') = ReadFull r n \<Longrightarrow> 0 < n \<Longrightarrow> length (rd_data r') < length (rd_data r)"
  by (drule sym) (auto simp: ReadFull_None_iff)

lemma ReadFull_le:
  "(b, e, r') = ReadFull r n \<Longrightarrow> length (rd_data r') \<le> length (rd_data r)"
  by (drule sym) (auto dest: ReadFull_bytes)

lemma ReadFull_shrinks2:
  "(b, None, r') = ReadFull r n \<Longrightarrow> 0 < n \<Longrightarrow> (b', e', r'') = ReadFull r' m \<Longrightarrow>
     length (rd_data r'') < length (rd_data r)"
  by (frule (1) ReadFull_shrinks) (drule (1) ReadFull_le [THEN le_less_trans])

lemma ReadFull_Some_exhausted:
  "ReadFull r n = (b, Some e, r') \<Longrightarrow> length (rd_data r) < n \<and> b = rd_data r \<and> rd_data r' = []"
  by (auto simp: ReadFull_def Let_def split: if_splits)

lemma ReadFull_reader_of:
  "ReadFull (reader_of b) n =
     (if n \<le> length b then (take n b, None, reader_of (drop n b))
      else (b, Some (if b = [] then EOF else ErrUnexpectedEOF), reader_of []))"
  by (auto simp: ReadFull_def reader_of_def Let_def)

section \<open>Writers\<close>

datatype full_behaviour = FullErr | FullBlock

datatype wr_err = WriteFailed | WriteBlocks

record writer =
  wr_data :: bytes
  wr_room :: "nat option"
  wr_full :: full_behaviour

definition plain_writer :: "bytes \<Rightarrow> writer" where
  "plain_writer b = \<lparr>wr_data = b, wr_room = None, wr_full = FullErr\<rparr>"

text \<open>
  \<open>w.Write(p)\<close>: all of \<open>p\<close> is taken, or the prefix there is room for together with an
  error (the contract of \<open>io.Writer\<close> forbids a short write without one).
\<close>

definition Write :: "writer \<Rightarrow> bytes \<Rightarrow> writer \<times> wr_err option" where
  "Write w p =
     (case wr_room w of
        None \<Rightarrow> (w\<lparr>wr_data := wr_data w @ p\<rparr>, None)
      | Some k \<Rightarrow>
          if length p \<le> k
          then (w\<lparr>wr_data := wr_data w @ p, wr_room := Some (k - length p)\<rparr>, None)
          else (w\<lparr>wr_data := wr_data w @ take k p, wr_room := Some 0\<rparr>,
                Some (case wr_full w of FullErr \<Rightarrow> WriteFailed | FullBlock \<Rightarrow> WriteBlocks)))"

definition wr_append :: "writer \<Rightarrow> bytes \<Rightarrow> writer" where
  "wr_append w p = w\<lparr>wr_data := wr_data w @ p\<rparr>"

lemma wr_append_simps [simp]:
  "wr_data (wr_append w p) = wr_data w @ p" "wr_room (wr_append w p) = wr_room w"
  "wr_append (wr_append w p) q = wr_append w (p @ q)" "wr_append w [] = w"
  by (simp_all add: wr_append_def)

lemma Write_plain [simp]: "wr_room w = None \<Longrightarrow> Write w p = (wr_append w p, None)"
  by (simp add: Write_def wr_append_def)

lemma wr_append_plain_writer [simp]: "wr_append (plain_writer a) b = plain_writer (a @ b)"
  by (simp add: wr_append_def plain_writer_def)

lemma Write_grows: "Write w p = (w', e) \<Longrightarrow> \<exists>q. wr_data w' = wr_data w @ q \<and> (e = None \<longrightarrow> q = p)"
  by (auto simp: Write_def split: option.splits if_splits)

lemma Write_prefix:
  "Write w p = (w', e) \<Longrightarrow> \<exists>k. wr_data w' = wr_data w @ take k p"
  by (auto simp: Write_def split: option.splits if_splits intro: exI [of _ "length p"])

text \<open>Every \<open>Write\<close> appends a prefix, the whole argument exactly when it reports no error.\<close>

lemma Write_outcome:
  assumes "Write w p = (w', e)"
  obtains k where "wr_data w' = wr_data w @ take k p"
    "e = None \<longleftrightarrow> k = length p" "k \<le> length p"
proof (cases e)
  case None
  with assms show ?thesis
    by (intro that [of "length p"]) (auto simp: Write_def split: option.splits if_splits)
next
  case (Some x)
  with assms obtain k where "wr_room w = Some k" "k < length p" "wr_data w' = wr_data w @ take k p"
    by (auto simp: Write_def split: option.splits if_splits)
  with Some show ?thesis by (intro that [of k]) auto
qed

lemma plain_writer_simps [simp]:
  "wr_data (plain_writer b) = b" "wr_room (plain_writer b) = None"
  by (simp_all add: plain_writer_def)

end
