(* ===== verification/Aead.thy ===== *)
theory Aead
  imports Go_IO
begin

text \<open>
  The authenticated cipher of the standard library. The code under verification sees a
  \<open>cipher.AEAD\<close> only through its interface, which is the record \<open>aead\<close>; the locale
  \<open>aead_laws\<close> states what a caller may rely on, and the theory ends with its
  interpretation on AES-256-GCM (\<open>crypto/aes\<close> with \<open>cipher.NewGCM\<close>, no additional data),
  written out after FIPS 197 and NIST SP 800-38D so that no law is taken on trust.
\<close>

section \<open>The cipher.AEAD interface\<close>

record aead =
  NonceSize :: nat
  Overhead :: nat
  Seal :: "bytes \<Rightarrow> bytes \<Rightarrow> bytes"
  Open :: "bytes \<Rightarrow> bytes \<Rightarrow> bytes option"

text \<open>
  \<open>Seal A nonce plaintext\<close> is ciphertext with the tag at its end; \<open>Open A nonce ciphertext\<close>
  is the plaintext, or \<open>None\<close> when the authentication fails.
\<close>

locale aead_laws =
  fixes A :: aead
  assumes nonce_size: "NonceSize A = 12"
    and overhead: "Overhead A = 16"
    and seal_length: "length (Seal A n p) = length p + 16"
    and open_seal: "Open A n (Seal A n p) = Some p"
    and open_length: "Open A n c = Some p \<Longrightarrow> length c = length p + 16"
begin

lemma open_short:
  assumes "length c < 16"
  shows "Open A n c = None"
proof (rule ccontr)
  assume "Open A n c \<noteq> None"
  then obtain p where "Open A n c = Some p" by blast
  from open_length [OF this] assms show False by simp
qed

lemma seal_inj: "Seal A n p = Seal A n q \<Longrightarrow> p = q"
  by (metis open_seal option.inject)

lemma seal_not_Nil: "Seal A n p \<noteq> []"
  by (metis seal_length length_0_conv add_is_0 zero_neq_numeral)

end

section \<open>AES-256 block encryption\<close>

definition xor_bytes :: "bytes \<Rightarrow> bytes \<Rightarrow> bytes" where
  "xor_bytes a b = map2 (XOR) a b"

definition xtime :: "byte \<Rightarrow> byte" where
  "xtime x = (if bit x 7 then push_bit 1 x XOR 0x1b else push_bit 1 x)"

fun gmul :: "nat \<Rightarrow> byte \<Rightarrow> byte \<Rightarrow> byte" where
  "gmul 0 a b = 0"
| "gmul (Suc k) a b = (if bit a 0 then b else 0) XOR gmul k (drop_bit 1 a) (xtime b)"

definition gf_inverse :: "byte \<Rightarrow> byte" where
  "gf_inverse x = foldl (\<lambda>acc _. gmul 8 acc x) 1 [0..<254]"

definition rotl8 :: "nat \<Rightarrow> byte \<Rightarrow> byte" where
  "rotl8 k x = push_bit k x OR drop_bit (8 - k) x"

definition sbox :: "byte \<Rightarrow> byte" where
  "sbox x = (let b = gf_inverse x
     in b XOR rotl8 1 b XOR rotl8 2 b XOR rotl8 3 b XOR rotl8 4 b XOR 0x63)"

definition rcon :: "nat \<Rightarrow> byte" where
  "rcon i = (xtime ^^ (i - 1)) 1"

definition next_key_word :: "bytes list \<Rightarrow> nat \<Rightarrow> bytes" where
  "next_key_word ws i =
     (let t = ws ! (i - 1);
          t' = (if i mod 8 = 0
                then xor_bytes (map sbox (rotate1 t)) [rcon (i div 8), 0, 0, 0]
                else if i mod 8 = 4 then map sbox t else t)
      in xor_bytes (ws ! (i - 8)) t')"

definition key_words :: "bytes \<Rightarrow> bytes list" where
  "key_words key =
     foldl (\<lambda>ws i. ws @ [next_key_word ws i])
       (map (\<lambda>i. take 4 (drop (4 * i) key)) [0..<8]) [8..<60]"

definition shift_rows :: "bytes \<Rightarrow> bytes" where
  "shift_rows s = map (\<lambda>i. s ! ((i + 4 * (i mod 4)) mod 16)) [0..<16]"

definition mix_column :: "bytes \<Rightarrow> bytes" where
  "mix_column c = map (\<lambda>i.
     gmul 8 2 (c ! i) XOR gmul 8 3 (c ! ((i + 1) mod 4))
       XOR c ! ((i + 2) mod 4) XOR c ! ((i + 3) mod 4)) [0..<4]"

definition mix_columns :: "bytes \<Rightarrow> bytes" where
  "mix_columns s = concat (map (\<lambda>j. mix_column (take 4 (drop (4 * j) s))) [0..<4])"

definition round_key :: "bytes list \<Rightarrow> nat \<Rightarrow> bytes" where
  "round_key ws r = concat (take 4 (drop (4 * r) ws))"

definition aes_block :: "bytes list \<Rightarrow> bytes \<Rightarrow> bytes" where
  "aes_block ws b =
     (let s = foldl (\<lambda>s r. xor_bytes (mix_columns (shift_rows (map sbox s))) (round_key ws r))
                (xor_bytes b (round_key ws 0)) [1..<14]
      in xor_bytes (shift_rows (map sbox s)) (round_key ws 14))"

type_synonym block = "128 word"

definition block_of :: "bytes \<Rightarrow> block" where
  "block_of b = of_nat (be_val b)"

definition bytes_of_block :: "block \<Rightarrow> bytes" where
  "bytes_of_block x = be_bytes 16 (unat x)"

definition aes256 :: "bytes \<Rightarrow> block \<Rightarrow> block" where
  "aes256 key x = block_of (aes_block (key_words key) (bytes_of_block x))"

lemma length_bytes_of_block [simp]: "length (bytes_of_block x) = 16"
  by (simp add: bytes_of_block_def)

section \<open>Galois/counter mode over a block cipher\<close>

fun ghash_mul :: "nat \<Rightarrow> block \<Rightarrow> block \<Rightarrow> block \<Rightarrow> block" where
  "ghash_mul 0 x v z = z"
| "ghash_mul (Suc k) x v z =
     ghash_mul k (push_bit 1 x)
       (if bit v 0 then drop_bit 1 v XOR push_bit 120 0xe1 else drop_bit 1 v)
       (if bit x 127 then z XOR v else z)"

definition pad16 :: "bytes \<Rightarrow> bytes" where
  "pad16 b = b @ replicate ((16 - length b mod 16) mod 16) 0"

definition blocks16 :: "bytes \<Rightarrow> bytes list" where
  "blocks16 b = map (\<lambda>i. take 16 (drop (16 * i) b)) [0..<length b div 16]"

definition ghash :: "block \<Rightarrow> bytes \<Rightarrow> block" where
  "ghash h b = foldl (\<lambda>y x. ghash_mul 128 (y XOR block_of x) h 0) 0 (blocks16 b)"

definition counter_block :: "bytes \<Rightarrow> nat \<Rightarrow> block" where
  "counter_block nonce i = block_of (nonce @ put_u32 (of_nat i))"

definition key_stream :: "(block \<Rightarrow> block) \<Rightarrow> bytes \<Rightarrow> nat \<Rightarrow> bytes" where
  "key_stream E nonce n =
     take n (concat (map (\<lambda>i. bytes_of_block (E (counter_block nonce (i + 2)))) [0..<(n + 15) div 16]))"

definition gcm_tag :: "(block \<Rightarrow> block) \<Rightarrow> bytes \<Rightarrow> bytes \<Rightarrow> bytes" where
  "gcm_tag E nonce c =
     bytes_of_block (ghash (E 0) (pad16 c @ put_u64 0 @ put_u64 (of_nat (8 * length c)))
       XOR E (counter_block nonce 1))"

definition gcm_seal :: "(block \<Rightarrow> block) \<Rightarrow> bytes \<Rightarrow> bytes \<Rightarrow> bytes" where
  "gcm_seal E nonce p =
     (let c = xor_bytes p (key_stream E nonce (length p)) in c @ gcm_tag E nonce c)"

definition gcm_open :: "(block \<Rightarrow> block) \<Rightarrow> bytes \<Rightarrow> bytes \<Rightarrow> bytes option" where
  "gcm_open E nonce sealed =
     (if length sealed < 16 then None
      else let c = take (length sealed - 16) sealed; tag = drop (length sealed - 16) sealed
           in if tag = gcm_tag E nonce c
              then Some (xor_bytes c (key_stream E nonce (length c)))
              else None)"

definition gcm_aead :: "(block \<Rightarrow> block) \<Rightarrow> aead" where
  "gcm_aead E = \<lparr>NonceSize = 12, Overhead = 16, Seal = gcm_seal E, Open = gcm_open E\<rparr>"

text \<open>
  \<open>aes.NewCipher\<close> accepts keys of 16, 24 and 32 bytes; every key of this program has 32, so
  only AES-256 is written out, and other lengths are an error here.
\<close>

definition aes_new_gcm :: "bytes \<Rightarrow> aead option" where
  "aes_new_gcm key = (if length key = 32 then Some (gcm_aead (aes256 key)) else None)"

section \<open>The laws hold for GCM\<close>

lemma length_xor_bytes [simp]: "length (xor_bytes a b) = min (length a) (length b)"
  by (simp add: xor_bytes_def)

lemma xor_bytes_cancel: "length a \<le> length k \<Longrightarrow> xor_bytes (xor_bytes a k) k = a"
  by (rule nth_equalityI) (auto simp: xor_bytes_def xor.assoc)

lemma length_concat_const: "(\<And>x. x \<in> set xs \<Longrightarrow> length x = n) \<Longrightarrow> length (concat xs) = n * length xs"
  by (induction xs) auto

lemma length_key_stream [simp]: "length (key_stream E nonce n) = n"
proof -
  have "length (concat (map (\<lambda>i. bytes_of_block (E (counter_block nonce (i + 2)))) [0..<(n + 15) div 16]))
          = 16 * ((n + 15) div 16)"
    by (subst length_concat_const [where n = 16]) auto
  moreover have "n \<le> 16 * ((n + 15) div 16)" by presburger
  ultimately show ?thesis by (simp add: key_stream_def)
qed

lemma length_gcm_tag [simp]: "length (gcm_tag E nonce c) = 16"
  by (simp add: gcm_tag_def)

lemma length_gcm_seal: "length (gcm_seal E nonce p) = length p + 16"
  by (simp add: gcm_seal_def Let_def)

lemma gcm_open_seal: "gcm_open E nonce (gcm_seal E nonce p) = Some p"
  by (simp add: gcm_open_def gcm_seal_def Let_def xor_bytes_cancel)

lemma gcm_open_length: "gcm_open E nonce c = Some p \<Longrightarrow> length c = length p + 16"
  by (auto simp: gcm_open_def Let_def split: if_splits)

interpretation gcm: aead_laws "gcm_aead E" for E
  by unfold_locales
     (simp_all add: gcm_aead_def length_gcm_seal gcm_open_seal gcm_open_length)

lemma aes_new_gcm_laws: "aes_new_gcm key = Some A \<Longrightarrow> aead_laws A"
  using gcm.aead_laws_axioms [of "aes256 key"] by (auto simp: aes_new_gcm_def split: if_splits)

end
