(* ===== verification/Frame_Format.thy ===== *)
theory Frame_Format
  imports Aead
begin

text \<open>
  The abstract specification of the encrypted stream (\<open>apps/agent/internal/pipeline/encrypt.go\<close>,
  header comment): a sequence of frames, each a big-endian length, a 12-byte nonce and an
  AES-GCM ciphertext with its tag, closed by a frame of length zero. \<open>decode_stream\<close> says what
  a reader of this format does on any byte string; the agent's \<open>Decrypt\<close> and the command-line
  tool's \<open>decryptStream\<close> are refinements of it that differ in the largest frame they accept.
\<close>

section \<open>Constants of the format\<close>

definition ChunkPlainSize :: nat where "ChunkPlainSize = 1048576"
definition dekSize :: nat where "dekSize = 32"
definition nonceSize :: nat where "nonceSize = 12"
definition gcmTagSize :: nat where "gcmTagSize = 16"
definition chunkHeaderSize :: nat where "chunkHeaderSize = 4"

lemmas format_constants = dekSize_def nonceSize_def gcmTagSize_def chunkHeaderSize_def

lemma ChunkPlainSize_pos [simp]: "0 < ChunkPlainSize" "ChunkPlainSize \<noteq> 0"
  by (simp_all add: ChunkPlainSize_def)

section \<open>Writing frames\<close>

text \<open>The nonce source: the 96-bit value of the i-th \<open>rand.Read\<close>, \<open>None\<close> where it fails.\<close>

type_synonym rng = "nat \<Rightarrow> 96 word option"

definition nonce_bytes :: "96 word \<Rightarrow> bytes" where
  "nonce_bytes w = be_bytes 12 (unat w)"

lemma length_nonce_bytes [simp, codec_simps]: "length (nonce_bytes w) = 12"
  by (simp add: nonce_bytes_def)

definition frame :: "aead \<Rightarrow> 96 word \<Rightarrow> bytes \<Rightarrow> bytes" where
  "frame A w p =
     put_u32 (of_nat (length (nonce_bytes w) + length (Seal A (nonce_bytes w) p)))
       @ nonce_bytes w @ Seal A (nonce_bytes w) p"

fun frames :: "aead \<Rightarrow> (96 word \<times> bytes) list \<Rightarrow> bytes" where
  "frames A [] = []"
| "frames A ((w, p) # xs) = frame A w p @ frames A xs"

definition eof_marker :: bytes where
  "eof_marker = put_u32 0"

definition encoded_stream :: "aead \<Rightarrow> (96 word \<times> bytes) list \<Rightarrow> bytes" where
  "encoded_stream A xs = frames A xs @ eof_marker"

lemma length_eof_marker [simp]: "length eof_marker = 4"
  by (simp add: eof_marker_def)

lemma frames_append [simp]: "frames A (xs @ ys) = frames A xs @ frames A ys"
  by (induction A xs rule: frames.induct) auto

text \<open>Cutting the plaintext into chunks of a fixed size; only the last one may be shorter.\<close>

function chunks :: "nat \<Rightarrow> bytes \<Rightarrow> bytes list" where
  "chunks k b = (if b = [] \<or> k = 0 then [] else take k b # chunks k (drop k b))"
  by pat_completeness auto
termination
  by (relation "measure (\<lambda>(k, b). length b)") auto

declare chunks.simps [simp del]

lemma chunks_Nil [simp]: "chunks k [] = []"
  by (simp add: chunks.simps)

lemma concat_chunks [simp]: "0 < k \<Longrightarrow> concat (chunks k b) = b"
  by (induction k b rule: chunks.induct) (subst chunks.simps, auto)

lemma chunks_bounds: "p \<in> set (chunks k b) \<Longrightarrow> p \<noteq> [] \<and> length p \<le> k"
proof (induction k b rule: chunks.induct)
  case (1 k b)
  show ?case
  proof (cases "b = [] \<or> k = 0")
    case True
    with "1.prems" show ?thesis by (auto simp: chunks.simps [of k b])
  next
    case False
    with "1.prems" consider "p = take k b" | "p \<in> set (chunks k (drop k b))"
      by (auto simp: chunks.simps [of k b])
    then show ?thesis
      using False "1.IH" by cases auto
  qed
qed

lemma length_chunks: "0 < k \<Longrightarrow> length (chunks k b) = (length b + k - 1) div k"
proof (induction k b rule: chunks.induct)
  case (1 k b)
  show ?case
  proof (cases "b = []")
    case True
    with 1 show ?thesis by simp
  next
    case False
    then have l: "0 < length b" by simp
    from False 1 have *: "length (chunks k b) = Suc ((length b - k + k - 1) div k)"
      by (simp add: chunks.simps [of k b])
    show ?thesis
    proof (cases "k \<le> length b")
      case True
      have "(length b + k - 1) div k = (length b - k + k - 1 + k) div k"
        using True "1.prems" by (simp add: algebra_simps)
      also have "\<dots> = Suc ((length b - k + k - 1) div k)"
        using "1.prems" by (subst div_add_self2) auto
      finally show ?thesis using * by simp
    next
      case small: False
      with l have "(length b + k - 1) div k = Suc ((length b - 1) div k)"
        using "1.prems" by (metis add.commute add_diff_assoc2 Suc_leI div_add_self1 not_gr0 One_nat_def Suc_eq_plus1)
      with small l * "1.prems" show ?thesis by simp
    qed
  qed
qed

section \<open>Reading frames\<close>

datatype frame_err =
    NoMarker \<comment> \<open>the input ends where a length should start\<close>
  | PartialHeader
  | TooSmall uint32
  | TooLarge uint32
  | PartialBody
  | AuthFailed

function decode_stream :: "aead \<Rightarrow> nat \<Rightarrow> bytes \<Rightarrow> bytes \<times> frame_err option \<times> bytes" where
  "decode_stream A mx b =
     (if length b < 4 then ([], Some (if b = [] then NoMarker else PartialHeader), [])
      else
        let size = get_u32 b; rest = drop 4 b
        in if size = 0 then ([], None, rest)
           else if unat size < 28 then ([], Some (TooSmall size), rest)
           else if mx < unat size then ([], Some (TooLarge size), rest)
           else if length rest < unat size then ([], Some PartialBody, [])
           else case Open A (take 12 (take (unat size) rest)) (drop 12 (take (unat size) rest)) of
               None \<Rightarrow> ([], Some AuthFailed, drop (unat size) rest)
             | Some p \<Rightarrow>
                 (case decode_stream A mx (drop (unat size) rest) of
                    (q, e, r) \<Rightarrow> (p @ q, e, r)))"
  by pat_completeness auto
termination
  by (relation "measure (\<lambda>(A, mx, b). length b)") (auto simp: Let_def)

declare decode_stream.simps [simp del]

text \<open>The situations a frame decoder can be in; every proof about one is split along these.\<close>

lemma frame_cases [case_names short marker small large incomplete auth ok]:
  fixes A :: aead and b :: bytes and mx :: nat
  defines "sz \<equiv> get_u32 b" and "rest \<equiv> drop 4 b"
  obtains "length b < 4"
    | "4 \<le> length b" "sz = 0"
    | "4 \<le> length b" "sz \<noteq> 0" "unat sz < 28"
    | "4 \<le> length b" "sz \<noteq> 0" "28 \<le> unat sz" "mx < unat sz"
    | "4 \<le> length b" "sz \<noteq> 0" "28 \<le> unat sz" "unat sz \<le> mx" "length rest < unat sz"
    | "4 \<le> length b" "sz \<noteq> 0" "28 \<le> unat sz" "unat sz \<le> mx" "unat sz \<le> length rest"
        "Open A (take 12 (take (unat sz) rest)) (drop 12 (take (unat sz) rest)) = None"
    | p where "4 \<le> length b" "sz \<noteq> 0" "28 \<le> unat sz" "unat sz \<le> mx" "unat sz \<le> length rest"
        "Open A (take 12 (take (unat sz) rest)) (drop 12 (take (unat sz) rest)) = Some p"
  by (metis not_less option.exhaust)

lemma decode_stream_eof [simp]: "decode_stream A mx (eof_marker @ b) = ([], None, b)"
  by (subst decode_stream.simps) (simp add: eof_marker_def)

lemma decode_stream_short:
  "length b < 4 \<Longrightarrow> decode_stream A mx b = ([], Some (if b = [] then NoMarker else PartialHeader), [])"
  by (subst decode_stream.simps) simp

lemma decode_stream_complete:
  "28 \<le> unat sz \<Longrightarrow> unat sz \<le> mx \<Longrightarrow> unat sz = length body \<Longrightarrow>
     decode_stream A mx (put_u32 sz @ body @ b) =
       (case Open A (take 12 body) (drop 12 body) of
          None \<Rightarrow> ([], Some AuthFailed, b)
        | Some p \<Rightarrow> (case decode_stream A mx b of (q, e, r) \<Rightarrow> (p @ q, e, r)))"
  by (subst decode_stream.simps) (auto simp: Let_def split: option.splits)

lemma decode_stream_incomplete:
  "28 \<le> unat sz \<Longrightarrow> unat sz \<le> mx \<Longrightarrow> length body < unat sz \<Longrightarrow>
     decode_stream A mx (put_u32 sz @ body) = ([], Some PartialBody, [])"
  by (subst decode_stream.simps) (auto simp: Let_def)

text \<open>Raising the frame limit changes nothing for a stream that was accepted under it.\<close>

lemma decode_stream_mono:
  "decode_stream A mx b = (p, None, r) \<Longrightarrow> mx \<le> mx' \<Longrightarrow> decode_stream A mx' b = (p, None, r)"
proof (induction A mx b arbitrary: p rule: decode_stream.induct)
  case (1 A mx b)
  note eval = decode_stream.simps [of A mx b] decode_stream.simps [of A mx' b] Let_def
  show ?case
  proof (cases rule: frame_cases [where A = A and b = b and mx = mx])
    case (ok q)
    let ?rest = "drop (unat (get_u32 b) + 4) b"
    from ok "1.prems"(1) obtain q' where "decode_stream A mx ?rest = (q', None, r)" "p = q @ q'"
      by (auto simp: eval split: prod.splits)
    with ok "1.IH" [of "get_u32 b" "drop 4 b" q q'] "1.prems"(2) show ?thesis
      by (simp add: eval)
  qed (use "1.prems" in \<open>simp_all add: eval\<close>)
qed

context aead_laws
begin

lemma length_frame: "length (frame A w p) = length p + 32"
  by (simp add: frame_def seal_length)

lemma frame_not_Nil [simp]: "frame A w p \<noteq> []"
  using length_frame [of w p] by auto

text \<open>The length field of a frame does not wrap, and is never the end marker.\<close>

lemma frame_shape:
  assumes "length p + 28 < 2 ^ 32"
  obtains sz body where "frame A w p = put_u32 sz @ body" "unat sz = length p + 28"
    "length body = unat sz" "take 12 body = nonce_bytes w" "drop 12 body = Seal A (nonce_bytes w) p"
proof (rule that)
  show "frame A w p = put_u32 (of_nat (length p + 28)) @ nonce_bytes w @ Seal A (nonce_bytes w) p"
    by (simp add: frame_def seal_length add.commute)
  show "unat (of_nat (length p + 28) :: uint32) = length p + 28"
    using assms by (simp add: unat_of_nat del: of_nat_add)
  then show "length (nonce_bytes w @ Seal A (nonce_bytes w) p) = unat (of_nat (length p + 28) :: uint32)"
    by (simp add: seal_length del: of_nat_add)
qed simp_all

lemma decode_frame:
  assumes "length p + 28 \<le> mx" "mx < 2 ^ 32"
  shows "decode_stream A mx (frame A w p @ b) =
    (case decode_stream A mx b of (q, e, r) \<Rightarrow> (p @ q, e, r))"
proof -
  from assms have "length p + 28 < 2 ^ 32" by simp
  then obtain sz body where "frame A w p = put_u32 sz @ body" "unat sz = length p + 28"
    "length body = unat sz" "take 12 body = nonce_bytes w" "drop 12 body = Seal A (nonce_bytes w) p"
    by (rule frame_shape [of p w])
  with assms show ?thesis
    by (simp add: decode_stream_complete open_seal)
qed

lemma decode_frames:
  assumes "\<forall>(w, p) \<in> set xs. length p + 28 \<le> mx" "mx < 2 ^ 32"
  shows "decode_stream A mx (frames A xs @ b) =
    (case decode_stream A mx b of (q, e, r) \<Rightarrow> (concat (map snd xs) @ q, e, r))"
  using assms
proof (induction xs)
  case Nil
  then show ?case by (simp split: prod.split)
next
  case (Cons x xs)
  then show ?case
    by (cases x) (simp add: decode_frame split: prod.split)
qed

lemma decode_encoded:
  "\<forall>(w, p) \<in> set xs. length p + 28 \<le> mx \<Longrightarrow> mx < 2 ^ 32 \<Longrightarrow>
     decode_stream A mx (encoded_stream A xs @ b) = (concat (map snd xs), None, b)"
  by (simp add: encoded_stream_def decode_frames)

text \<open>A proper prefix of a frame is recognised as incomplete.\<close>

lemma decode_partial_frame:
  assumes "length p + 28 \<le> mx" "mx < 2 ^ 32" and k: "k < length (frame A w p)"
  shows "\<exists>e \<in> {NoMarker, PartialHeader, PartialBody}.
           decode_stream A mx (take k (frame A w p)) = ([], Some e, [])"
proof (cases "k < 4")
  case True
  then have "length (take k (frame A w p)) < 4" by simp
  then show ?thesis by (simp add: decode_stream_short)
next
  case False
  from assms have "length p + 28 < 2 ^ 32" by simp
  then obtain sz body where fr: "frame A w p = put_u32 sz @ body" and sz: "unat sz = length p + 28"
    and body: "length body = unat sz"
    by (rule frame_shape [of p w])
  have tk: "take k (frame A w p) = put_u32 sz @ take (k - 4) body"
    using False by (simp add: fr)
  have "length (take (k - 4) body) < unat sz"
    using k body False by (simp add: fr)
  with sz assms have "decode_stream A mx (take k (frame A w p)) = ([], Some PartialBody, [])"
    unfolding tk by (intro decode_stream_incomplete) auto
  then show ?thesis by simp
qed

lemma decode_truncated:
  assumes "\<forall>(w, p) \<in> set xs. length p + 28 \<le> mx" "mx < 2 ^ 32"
    and "k < length (encoded_stream A xs)"
  shows "\<exists>q. \<exists>e \<in> {NoMarker, PartialHeader, PartialBody}.
           decode_stream A mx (take k (encoded_stream A xs)) = (q, Some e, [])
             \<and> (\<exists>q'. concat (map snd xs) = q @ q')"
  using assms
proof (induction xs arbitrary: k)
  case Nil
  then show ?case
    by (simp add: encoded_stream_def decode_stream_short)
next
  case (Cons x xs)
  obtain w p where x: "x = (w, p)" by (cases x)
  let ?f = "frame A w p"
  from Cons.prems x have p: "length p + 28 \<le> mx" by simp
  show ?case
  proof (cases "k < length ?f")
    case True
    with decode_partial_frame [OF p assms(2) True] show ?thesis
      by (auto simp: x encoded_stream_def)
  next
    case False
    define k' where "k' = k - length ?f"
    have "k' < length (encoded_stream A xs)"
      using Cons.prems(3) False by (simp add: x encoded_stream_def k'_def)
    with Cons obtain q e where IH: "e \<in> {NoMarker, PartialHeader, PartialBody}"
      "decode_stream A mx (take k' (encoded_stream A xs)) = (q, Some e, [])"
      "\<exists>q'. concat (map snd xs) = q @ q'"
      by force
    have "take k (encoded_stream A (x # xs)) = ?f @ take k' (encoded_stream A xs)"
      using False by (simp add: x encoded_stream_def k'_def)
    with IH p assms(2) show ?thesis
      by (auto simp: x decode_frame)
  qed
qed

end

end
