(* ===== verification/Encrypt.thy ===== *)
theory Encrypt
  imports Frame_Format
begin

text \<open>
  \<open>apps/agent/internal/pipeline/encrypt.go\<close>: the \<open>Encryptor\<close>, its constructor, \<open>Stream\<close>
  (encrypt a reader into framed ciphertext) and \<open>Decrypt\<close> (the inverse used by the agent's
  tests). A nil \<open>*Encryptor\<close> or a nil \<open>aead\<close> field is \<open>None\<close>. Each loop of the code is one
  recursive function over the remaining input, with the three writes of a frame in order.
\<close>

section \<open>The encryptor\<close>

record Encryptor =
  dek :: bytes
  enc_aead :: "aead option"

datatype enc_err =
    DekLength nat
  | AesNewCipher
  | GcmNonceMismatch nat
  | NilEncryptor
  | ReadNonce
  | WriteHeader wr_err
  | WriteNonce wr_err
  | WriteCiphertext wr_err
  | ReadPlaintext io_err
  | WriteEofMarker wr_err
  | NoEofMarker
  | ReadChunkHeader io_err
  | ChunkBelowMinimum uint32
  | ReadChunkBody io_err
  | GcmOpen
  | WritePlaintext wr_err

definition NewEncryptor :: "bytes \<Rightarrow> enc_err + Encryptor" where
  "NewEncryptor key =
     (if length key \<noteq> dekSize then Inl (DekLength (length key))
      else case aes_new_gcm key of
          None \<Rightarrow> Inl AesNewCipher
        | Some A \<Rightarrow>
            if NonceSize A \<noteq> nonceSize then Inl (GcmNonceMismatch (NonceSize A))
            else Inr \<lparr>dek = key, enc_aead = Some A\<rparr>)"

section \<open>Stream\<close>

text \<open>One iteration's output: a fresh nonce, then header, nonce and ciphertext.\<close>

definition write_frame :: "aead \<Rightarrow> rng \<Rightarrow> nat \<Rightarrow> bytes \<Rightarrow> writer \<Rightarrow> enc_err option \<times> writer" where
  "write_frame A rng i buf w =
     (case rng i of
        None \<Rightarrow> (Some ReadNonce, w)
      | Some x \<Rightarrow>
          let nonce = nonce_bytes x;
              ct = Seal A nonce buf;
              header = put_u32 (of_nat (length nonce + length ct))
          in case Write w header of
               (w1, Some e) \<Rightarrow> (Some (WriteHeader e), w1)
             | (w1, None) \<Rightarrow>
                 (case Write w1 nonce of
                    (w2, Some e) \<Rightarrow> (Some (WriteNonce e), w2)
                  | (w2, None) \<Rightarrow>
                      (case Write w2 ct of
                         (w3, Some e) \<Rightarrow> (Some (WriteCiphertext e), w3)
                       | (w3, None) \<Rightarrow> (None, w3))))"

text \<open>After the end of the input: the zero-length frame.\<close>

definition write_eof :: "int64 \<Rightarrow> writer \<Rightarrow> int64 \<times> enc_err option \<times> writer" where
  "write_eof tot w =
     (case Write w (put_u32 0) of
        (w', Some e) \<Rightarrow> (tot, Some (WriteEofMarker e), w')
      | (w', None) \<Rightarrow> (tot, None, w'))"

function stream_loop ::
  "aead \<Rightarrow> rng \<Rightarrow> nat \<Rightarrow> int64 \<Rightarrow> reader \<Rightarrow> writer \<Rightarrow> int64 \<times> enc_err option \<times> writer" where
  "stream_loop A rng i tot r w =
     (case ReadFull r ChunkPlainSize of
        (buf, readErr, r') \<Rightarrow>
          (case (if 0 < length buf then write_frame A rng i buf w else (None, w)) of
             (Some e, w') \<Rightarrow> (tot, Some e, w')
           | (None, w') \<Rightarrow>
               let tot' = tot + of_nat (length buf)
               in if readErr = Some EOF \<or> readErr = Some ErrUnexpectedEOF then write_eof tot' w'
                  else case readErr of
                      Some e \<Rightarrow> (tot', Some (ReadPlaintext e), w')
                    | None \<Rightarrow> stream_loop A rng (i + 1) tot' r' w'))"
  by pat_completeness auto
termination
  by (relation "measure (\<lambda>(A, rng, i, tot, r, w). length (rd_data r))")
     (auto dest: ReadFull_shrinks)

declare stream_loop.simps [simp del]

definition Encryptor_Stream ::
  "Encryptor option \<Rightarrow> rng \<Rightarrow> reader \<Rightarrow> writer \<Rightarrow> int64 \<times> enc_err option \<times> writer" where
  "Encryptor_Stream e rng r w =
     (case e of
        None \<Rightarrow> (0, Some NilEncryptor, w)
      | Some enc \<Rightarrow>
          (case enc_aead enc of
             None \<Rightarrow> (0, Some NilEncryptor, w)
           | Some A \<Rightarrow> stream_loop A rng 0 0 r w))"

section \<open>Decrypt\<close>

function decrypt_loop ::
  "aead \<Rightarrow> int64 \<Rightarrow> reader \<Rightarrow> writer \<Rightarrow> int64 \<times> enc_err option \<times> reader \<times> writer" where
  "decrypt_loop A tot r w =
     (case ReadFull r chunkHeaderSize of
        (header, Some e, r1) \<Rightarrow>
          if e = EOF then (tot, Some NoEofMarker, r1, w)
          else (tot, Some (ReadChunkHeader e), r1, w)
      | (header, None, r1) \<Rightarrow>
          let size = get_u32 header
          in if size = 0 then (tot, None, r1, w)
             else if size < of_nat (nonceSize + gcmTagSize)
             then (tot, Some (ChunkBelowMinimum size), r1, w)
             else (case ReadFull r1 (unat size) of
                 (fr, Some e, r2) \<Rightarrow> (tot, Some (ReadChunkBody e), r2, w)
               | (fr, None, r2) \<Rightarrow>
                   (case Open A (take nonceSize fr) (drop nonceSize fr) of
                      None \<Rightarrow> (tot, Some GcmOpen, r2, w)
                    | Some pt \<Rightarrow>
                        (case Write w pt of
                           (w', Some e) \<Rightarrow> (tot, Some (WritePlaintext e), r2, w')
                         | (w', None) \<Rightarrow>
                             decrypt_loop A (tot + of_nat (length pt)) r2 w'))))"
  by pat_completeness auto
termination
  by (relation "measure (\<lambda>(A, tot, r, w). length (rd_data r))")
     (auto simp: chunkHeaderSize_def intro: ReadFull_shrinks2)

declare decrypt_loop.simps [simp del]

definition Encryptor_Decrypt ::
  "Encryptor option \<Rightarrow> reader \<Rightarrow> writer \<Rightarrow> int64 \<times> enc_err option \<times> reader \<times> writer" where
  "Encryptor_Decrypt e r w =
     (case e of
        None \<Rightarrow> (0, Some NilEncryptor, r, w)
      | Some enc \<Rightarrow>
          (case enc_aead enc of
             None \<Rightarrow> (0, Some NilEncryptor, r, w)
           | Some A \<Rightarrow> decrypt_loop A 0 r w))"

section \<open>What the constructor guarantees\<close>

lemma NewEncryptor_ok:
  "length key = 32 \<Longrightarrow> NewEncryptor key = Inr \<lparr>dek = key, enc_aead = Some (gcm_aead (aes256 key))\<rparr>"
  by (simp add: NewEncryptor_def aes_new_gcm_def format_constants gcm.nonce_size)

lemma NewEncryptor_Inr_iff:
  "NewEncryptor key = Inr e \<longleftrightarrow>
     length key = 32 \<and> e = \<lparr>dek = key, enc_aead = Some (gcm_aead (aes256 key))\<rparr>"
  by (cases "length key = 32") (auto simp: NewEncryptor_ok, auto simp: NewEncryptor_def dekSize_def)

section \<open>Writing into any writer\<close>

lemma write_frame_outcome:
  assumes "write_frame A rng i buf w = (e, w')"
  obtains "rng i = None" "w' = w" "e = Some ReadNonce"
  | x k where "rng i = Some x" "wr_data w' = wr_data w @ take k (frame A x buf)"
      "e = None \<longleftrightarrow> k = length (frame A x buf)" "k \<le> length (frame A x buf)"
proof (cases "rng i")
  case None
  with assms that(1) show ?thesis by (simp add: write_frame_def)
next
  case (Some x)
  let ?n = "nonce_bytes x"
  let ?c = "Seal A ?n buf"
  let ?h = "put_u32 (of_nat (length ?n + length ?c))"
  have fr: "frame A x buf = ?h @ ?n @ ?c" by (simp add: frame_def)
  note W = assms [unfolded write_frame_def Some option.case Let_def]
  obtain w1 e1 where 1: "Write w ?h = (w1, e1)" by fastforce
  obtain k1 where k1: "wr_data w1 = wr_data w @ take k1 ?h" "e1 = None \<longleftrightarrow> k1 = length ?h" "k1 \<le> length ?h"
    using Write_outcome [OF 1] by blast
  show ?thesis
  proof (cases e1)
    case (Some a)
    with W 1 k1 show ?thesis
      by (intro that(2) [of x k1, OF \<open>rng i = Some x\<close>]) (auto simp: fr)
  next
    case None
    obtain w2 e2 where 2: "Write w1 ?n = (w2, e2)" by fastforce
    obtain k2 where k2: "wr_data w2 = wr_data w1 @ take k2 ?n" "e2 = None \<longleftrightarrow> k2 = length ?n" "k2 \<le> length ?n"
      using Write_outcome [OF 2] by blast
    show ?thesis
    proof (cases e2)
      case (Some a)
      with W 1 2 None k1 k2 show ?thesis
        by (intro that(2) [of x "4 + k2", OF \<open>rng i = Some x\<close>]) (auto simp: fr)
    next
      case none2: None
      obtain w3 e3 where 3: "Write w2 ?c = (w3, e3)" by fastforce
      obtain k3 where k3: "wr_data w3 = wr_data w2 @ take k3 ?c" "e3 = None \<longleftrightarrow> k3 = length ?c" "k3 \<le> length ?c"
        using Write_outcome [OF 3] by blast
      from W 1 2 3 None none2 have "w' = w3" "e = None \<longleftrightarrow> e3 = None"
        by (auto split: option.splits)
      with k1 k2 k3 None none2 show ?thesis
        by (intro that(2) [of x "16 + k3", OF \<open>rng i = Some x\<close>]) (auto simp: fr)
    qed
  qed
qed

text \<open>
  Whatever the reader, the nonce source and the writer do, the output is a prefix of a
  well-formed stream over an initial part of the input: all of it exactly when \<open>Stream\<close>
  reports no error.
\<close>

lemma write_eof_outcome:
  assumes "write_eof tot w = (t, e, w')"
  obtains k where "t = tot" "wr_data w' = wr_data w @ take k eof_marker" "e = None \<longleftrightarrow> k = 4" "k \<le> 4"
proof -
  obtain w1 e1 where W: "Write w (put_u32 0) = (w1, e1)" by fastforce
  obtain k where "wr_data w1 = wr_data w @ take k (put_u32 0)" "e1 = None \<longleftrightarrow> k = length (put_u32 0)"
    "k \<le> length (put_u32 0)"
    using Write_outcome [OF W] by blast
  with assms W that [of k] show ?thesis
    by (auto simp: write_eof_def eof_marker_def split: option.splits)
qed

definition stream_prefix :: "aead \<Rightarrow> bytes \<Rightarrow> bytes \<Rightarrow> bool \<Rightarrow> bool" where
  "stream_prefix A input out complete \<longleftrightarrow>
     (\<exists>xs k rest. input = concat (map snd xs) @ rest \<and> out = take k (encoded_stream A xs)
        \<and> (\<forall>(w, p) \<in> set xs. length p \<le> ChunkPlainSize)
        \<and> (complete \<longleftrightarrow> k = length (encoded_stream A xs)) \<and> k \<le> length (encoded_stream A xs)
        \<and> (complete \<longrightarrow> rest = []))"

lemma stream_prefix_frame:
  assumes "stream_prefix A input out c" "length p \<le> ChunkPlainSize"
  shows "stream_prefix A (p @ input) (frame A x p @ out) c"
proof -
  from assms(1) obtain xs k rest where
    "input = concat (map snd xs) @ rest" "out = take k (encoded_stream A xs)"
    "\<forall>(w, p) \<in> set xs. length p \<le> ChunkPlainSize"
    "c \<longleftrightarrow> k = length (encoded_stream A xs)" "k \<le> length (encoded_stream A xs)"
    "c \<longrightarrow> rest = []"
    unfolding stream_prefix_def by blast
  with assms(2) show ?thesis
    unfolding stream_prefix_def
    by (intro exI [of _ "(x, p) # xs"] exI [of _ "length (frame A x p) + k"] exI [of _ rest])
       (auto simp: encoded_stream_def)
qed

lemma stream_prefix_eof:
  "k \<le> 4 \<Longrightarrow> (c \<longleftrightarrow> k = 4) \<Longrightarrow> stream_prefix A [] (take k eof_marker) c"
  unfolding stream_prefix_def
  by (intro exI [of _ "[]"] exI [of _ k]) (auto simp: encoded_stream_def)

lemma stream_prefix_cut:
  assumes "k < length (frame A x p) + 4" "length p \<le> ChunkPlainSize"
  shows "stream_prefix A (p @ rest) (take k (frame A x p)) False"
proof (cases "k \<le> length (frame A x p)")
  case True
  with assms show ?thesis
    unfolding stream_prefix_def
    by (intro exI [of _ "[(x, p)]"] exI [of _ k] exI [of _ rest]) (auto simp: encoded_stream_def)
next
  case False
  with assms show ?thesis
    unfolding stream_prefix_def
    by (intro exI [of _ "[(x, p)]"] exI [of _ "length (frame A x p)"] exI [of _ rest])
       (auto simp: encoded_stream_def)
qed

lemma stream_prefix_none: "stream_prefix A input [] False"
  unfolding stream_prefix_def
  by (intro exI [of _ "[]"] exI [of _ 0] exI [of _ input]) (auto simp: encoded_stream_def)

lemma stream_loop_outcome:
  "stream_loop A rng i tot r w = (t, e, w') \<Longrightarrow>
     \<exists>out. wr_data w' = wr_data w @ out \<and> stream_prefix A (rd_data r) out (e = None)
       \<and> (e = None \<longrightarrow> t = tot + of_nat (length (rd_data r)))"
proof (induction A rng i tot r w rule: stream_loop.induct)
  case (1 A rng i tot r w)
  obtain buf readErr r' where R: "ReadFull r ChunkPlainSize = (buf, readErr, r')"
    by (cases "ReadFull r ChunkPlainSize")
  have split: "rd_data r = buf @ rd_data r'"
    using ReadFull_bytes [OF R] by simp
  have buf: "length buf \<le> ChunkPlainSize"
    using R by (auto simp: ReadFull_def Let_def split: if_splits)
  obtain fe w1 where F: "(if 0 < length buf then write_frame A rng i buf w else (None, w)) = (fe, w1)"
    by fastforce
  note eq = "1.prems" [unfolded stream_loop.simps [of A rng i tot r w] R prod.case F]
  \<comment> \<open>the frame of this round, and what it leaves of the output\<close>
  have part: "\<exists>out. wr_data w1 = wr_data w @ out \<and>
     (if fe = None then out = [] \<and> buf = [] \<or> (\<exists>x. out = frame A x buf)
      else stream_prefix A (rd_data r) out False)"
  proof (cases "0 < length buf")
    case False
    with F show ?thesis by auto
  next
    case True
    with F have "write_frame A rng i buf w = (fe, w1)" by simp
    then show ?thesis
    proof (cases rule: write_frame_outcome)
      case 1
      then show ?thesis by (simp add: stream_prefix_none)
    next
      case (2 x k)
      then show ?thesis
        using stream_prefix_cut [OF _ buf, of k A x "rd_data r'"] by (auto simp: split)
    qed
  qed
  show ?case
  proof (cases fe)
    case (Some fe')
    with eq part show ?thesis by auto
  next
    case None
    with part obtain out where out: "wr_data w1 = wr_data w @ out"
      "out = [] \<and> buf = [] \<or> (\<exists>x. out = frame A x buf)" by auto
    have lift: "stream_prefix A (rd_data r) (out @ out') c" if "stream_prefix A (rd_data r') out' c" for out' c
      using out(2) stream_prefix_frame [OF that buf] that by (auto simp: split)
    consider "readErr = Some EOF \<or> readErr = Some ErrUnexpectedEOF"
      | e' where "readErr = Some e'" "\<not> (readErr = Some EOF \<or> readErr = Some ErrUnexpectedEOF)"
      | "readErr = None" by (cases readErr) auto
    then show ?thesis
    proof cases
      case 1
      then obtain re where re: "readErr = Some re" by auto
      from R re have r': "rd_data r' = []" by (auto dest: ReadFull_Some_exhausted)
      from eq None 1 have "write_eof (tot + of_nat (length buf)) w1 = (t, e, w')" by simp
      then obtain k where k: "t = tot + of_nat (length buf)" "wr_data w' = wr_data w1 @ take k eof_marker"
        "e = None \<longleftrightarrow> k = 4" "k \<le> 4" by (rule write_eof_outcome)
      have "stream_prefix A (rd_data r) (out @ take k eof_marker) (e = None)"
        by (rule lift) (simp add: r' stream_prefix_eof k)
      with k out split r' show ?thesis by simp
    next
      case 2
      with R have r': "rd_data r' = []" by (auto dest: ReadFull_Some_exhausted)
      from 2 eq None have "t = tot + of_nat (length buf)" "e = Some (ReadPlaintext e')" "w' = w1"
        by auto
      with out lift [of "[]" False] show ?thesis by (auto simp: stream_prefix_none)
    next
      case 3
      with eq None have rec: "stream_loop A rng (i + 1) (tot + of_nat (length buf)) r' w1 = (t, e, w')"
        by (simp add: Let_def)
      have "\<exists>out. wr_data w' = wr_data w1 @ out \<and> stream_prefix A (rd_data r') out (e = None)
              \<and> (e = None \<longrightarrow> t = tot + of_nat (length buf) + of_nat (length (rd_data r')))"
        by (rule "1.IH" [OF R [symmetric] refl F [symmetric] None refl _ 3 rec]) (simp_all add: 3)
      then obtain out' where "wr_data w' = wr_data w1 @ out'" "stream_prefix A (rd_data r') out' (e = None)"
        "e = None \<longrightarrow> t = tot + of_nat (length buf) + of_nat (length (rd_data r'))" by blast
      with out lift show ?thesis by (auto simp: split add.assoc)
    qed
  qed
qed

text \<open>\<open>Stream\<close> succeeds only on a reader that ended cleanly (or as if cut short by \<open>ReadFull\<close>).\<close>

lemma stream_loop_clean:
  "stream_loop A rng i tot r w = (t, None, w') \<Longrightarrow> rd_end r = EOF \<or> rd_end r = ErrUnexpectedEOF"
proof (induction A rng i tot r w rule: stream_loop.induct)
  case (1 A rng i tot r w)
  obtain buf readErr r' where R: "ReadFull r ChunkPlainSize = (buf, readErr, r')" by (cases "ReadFull r ChunkPlainSize")
  obtain fe w1 where F: "(if 0 < length buf then write_frame A rng i buf w else (None, w)) = (fe, w1)" by fastforce
  note eq = "1.prems" [unfolded stream_loop.simps [of A rng i tot r w] R prod.case F]
  show ?case
  proof (cases fe)
    case None
    show ?thesis
    proof (cases readErr)
      case (Some e)
      with eq None have "e = EOF \<or> e = ErrUnexpectedEOF" by (auto simp: Let_def split: if_splits)
      with R Some show ?thesis by (auto simp: ReadFull_def Let_def split: if_splits)
    next
      case rNone: None
      with eq None have rec: "stream_loop A rng (i + 1) (tot + of_nat (length buf)) r' w1 = (t, None, w')"
        by (simp add: Let_def)
      have "rd_end r' = EOF \<or> rd_end r' = ErrUnexpectedEOF"
        by (rule "1.IH" [OF R [symmetric] refl F [symmetric] None refl _ rNone rec]) (simp add: rNone)
      with ReadFull_bytes [OF R] show ?thesis by simp
    qed
  qed (use eq in simp)
qed

text \<open>With a nonce source and a writer that do not fail, the output is the whole stream.\<close>

fun nonced :: "(nat \<Rightarrow> 96 word) \<Rightarrow> nat \<Rightarrow> bytes list \<Rightarrow> (96 word \<times> bytes) list" where
  "nonced nz i [] = []"
| "nonced nz i (p # ps) = (nz i, p) # nonced nz (i + 1) ps"

lemma map_snd_nonced [simp]: "map snd (nonced nz i ps) = ps"
  by (induction ps arbitrary: i) auto

lemma nonced_bound:
  "\<forall>p \<in> set ps. length p \<le> k \<Longrightarrow> \<forall>(w, p) \<in> set (nonced nz i ps). length p \<le> k"
  by (induction ps arbitrary: i) auto

lemma write_frame_ok:
  "wr_room w = None \<Longrightarrow>
     write_frame A (\<lambda>j. Some (nz j)) i p w = (None, wr_append w (frame A (nz i) p))"
  by (simp add: write_frame_def frame_def Let_def)

lemma write_eof_ok:
  "wr_room w = None \<Longrightarrow> write_eof tot w = (tot, None, wr_append w eof_marker)"
  by (simp add: write_eof_def eof_marker_def)

lemma chunks_short:
  assumes "b \<noteq> []" "length b \<le> k"
  shows "chunks k b = [b]"
proof -
  from assms have "k \<noteq> 0" by (metis le_zero_eq length_0_conv)
  with assms show ?thesis by (simp add: chunks.simps [of k b])
qed

lemma stream_loop_ok:
  assumes "wr_room w = None"
  shows "stream_loop A (\<lambda>j. Some (nz j)) i tot (reader_of b) w =
    (tot + of_nat (length b), None,
     wr_append w (encoded_stream A (nonced nz i (chunks ChunkPlainSize b))))"
  using assms
proof (induction ChunkPlainSize b arbitrary: i tot w rule: chunks.induct)
  case (1 b)
  show ?case
  proof (cases "b = []")
    case True
    with "1.prems" show ?thesis
      by (subst stream_loop.simps) (simp add: ReadFull_reader_of write_eof_ok encoded_stream_def)
  next
    case False
    show ?thesis
    proof (cases "ChunkPlainSize \<le> length b")
      case True
      let ?w = "wr_append w (frame A (nz i) (take ChunkPlainSize b))"
      have "stream_loop A (\<lambda>j. Some (nz j)) i tot (reader_of b) w =
          stream_loop A (\<lambda>j. Some (nz j)) (i + 1) (tot + of_nat ChunkPlainSize)
            (reader_of (drop ChunkPlainSize b)) ?w"
        using True False "1.prems"
        by (subst stream_loop.simps) (simp add: ReadFull_reader_of write_frame_ok min_absorb2)
      also have "\<dots> = (tot + of_nat (length b), None,
          wr_append ?w
             (encoded_stream A (nonced nz (i + 1) (chunks ChunkPlainSize (drop ChunkPlainSize b)))))"
        using False True "1.hyps" [of ?w "i + 1" "tot + of_nat ChunkPlainSize"] "1.prems"
        by (simp add: of_nat_diff)
      finally show ?thesis
        using False True by (simp add: chunks.simps [of _ b] encoded_stream_def)
    next
      case small: False
      with False "1.prems" show ?thesis
        by (subst stream_loop.simps)
           (simp add: ReadFull_reader_of write_frame_ok write_eof_ok chunks_short encoded_stream_def)
    qed
  qed
qed

section \<open>Decrypt refines the specification of the format\<close>

fun enc_err_kind :: "enc_err \<Rightarrow> frame_err option" where
  "enc_err_kind NoEofMarker = Some NoMarker"
| "enc_err_kind (ReadChunkHeader _) = Some PartialHeader"
| "enc_err_kind (ChunkBelowMinimum s) = Some (TooSmall s)"
| "enc_err_kind (ReadChunkBody _) = Some PartialBody"
| "enc_err_kind GcmOpen = Some AuthFailed"
| "enc_err_kind _ = None"

lemma size_below_iff: "sz < (28 :: uint32) \<longleftrightarrow> unat sz < 28"
  by (simp add: word_less_nat_alt)

lemma size_in_limit: "\<not> 4294967295 < unat (sz :: uint32)"
  using unat_u32_less [of sz] by simp

text \<open>
  \<open>decrypts_as\<close>: what one run of a decoder of the code must do when the specification yields
  plaintext, verdict and unread rest.
\<close>

definition decrypts_as ::
  "(int64 \<times> enc_err option \<times> reader \<times> writer) \<Rightarrow> int64 \<Rightarrow> writer \<Rightarrow>
     (bytes \<times> frame_err option \<times> bytes) \<Rightarrow> bool" where
  "decrypts_as run tot w spec \<longleftrightarrow>
     (case (run, spec) of
        ((t, e, r', w'), (p, fe, rest)) \<Rightarrow>
          t = tot + of_nat (length p) \<and> r' = reader_of rest \<and> w' = wr_append w p
            \<and> (case fe of None \<Rightarrow> e = None | Some k \<Rightarrow> (\<exists>x. e = Some x \<and> enc_err_kind x = Some k)))"

lemma decrypts_as_prepend:
  assumes "decrypts_as run (tot + of_nat (length p)) (wr_append w p) spec"
  shows "decrypts_as run tot w (case spec of (q, e, r) \<Rightarrow> (p @ q, e, r))"
  using assms by (cases run; cases spec) (auto simp: decrypts_as_def add.assoc)

lemma decrypt_loop_refines:
  "wr_room w = None \<Longrightarrow>
     decrypts_as (decrypt_loop A tot (reader_of b) w) tot w (decode_stream A 4294967295 b)"
proof (induction A "4294967295 :: nat" b arbitrary: tot w rule: decode_stream.induct)
  case (1 A b)
  let ?sz = "get_u32 b"
  let ?rest = "drop 4 b"
  note loop = decrypt_loop.simps [of A tot "reader_of b" w]
  note spec = decode_stream.simps [of A 4294967295 b]
  note eval = loop spec ReadFull_reader_of chunkHeaderSize_def size_below_iff size_in_limit
    nonceSize_def gcmTagSize_def Let_def
  show ?case
  proof (cases rule: frame_cases [where A = A and b = b and mx = 4294967295])
    case (ok p)
    have "decrypts_as (decrypt_loop A (tot + of_nat (length p)) (reader_of (drop (unat ?sz) ?rest)) (wr_append w p))
            (tot + of_nat (length p)) (wr_append w p) (decode_stream A 4294967295 (drop (unat ?sz) ?rest))"
      using ok "1.prems" by (intro "1.hyps") (auto simp: size_in_limit)
    then have "decrypts_as (decrypt_loop A (tot + of_nat (length p)) (reader_of (drop (unat ?sz) ?rest)) (wr_append w p))
        tot w (case decode_stream A 4294967295 (drop (unat ?sz) ?rest) of (q, e, r) \<Rightarrow> (p @ q, e, r))"
      by (rule decrypts_as_prepend)
    with ok "1.prems" show ?thesis by (simp add: eval)
  qed (use "1.prems" in \<open>auto simp: eval decrypts_as_def\<close>)
qed

end
