(* ===== verification/Go_Strings.thy ===== *)
theory Go_Strings
  imports Prelude
begin

text \<open>
  The functions of Go's \<open>strings\<close>, \<open>strconv\<close>, \<open>encoding/hex\<close>, \<open>encoding/base64\<close>,
  \<open>net/url\<close> and \<open>path/filepath\<close> the program uses, on byte strings. Case folding and white space are those of ASCII; bytes from
  128 on (the pieces of UTF-8 sequences) are left alone, so a model of a string with non-ASCII
  letters keeps them as they are where Go would fold them.
\<close>

section \<open>strings\<close>

definition HasPrefix :: "string \<Rightarrow> string \<Rightarrow> bool" where
  "HasPrefix s p \<longleftrightarrow> take (length p) s = p"

definition HasSuffix :: "string \<Rightarrow> string \<Rightarrow> bool" where
  "HasSuffix s p \<longleftrightarrow> length p \<le> length s \<and> drop (length s - length p) s = p"

definition TrimPrefix :: "string \<Rightarrow> string \<Rightarrow> string" where
  "TrimPrefix s p = (if HasPrefix s p then drop (length p) s else s)"

text \<open>\<open>strings.Index\<close>; \<open>None\<close> is Go's \<open>-1\<close>.\<close>

fun Index :: "string \<Rightarrow> string \<Rightarrow> nat option" where
  "Index [] p = (if p = [] then Some 0 else None)"
| "Index (c # s) p = (if HasPrefix (c # s) p then Some 0 else map_option Suc (Index s p))"

definition Contains :: "string \<Rightarrow> string \<Rightarrow> bool" where
  "Contains s p \<longleftrightarrow> Index s p \<noteq> None"

fun IndexByte :: "string \<Rightarrow> char \<Rightarrow> nat option" where
  "IndexByte [] c = None"
| "IndexByte (x # s) c = (if x = c then Some 0 else map_option Suc (IndexByte s c))"

definition ContainsAny :: "string \<Rightarrow> string \<Rightarrow> bool" where
  "ContainsAny s cs \<longleftrightarrow> (\<exists>c \<in> set s. c \<in> set cs)"

definition char_code :: "char \<Rightarrow> nat" where
  "char_code c = of_char c"

definition lower_char :: "char \<Rightarrow> char" where
  "lower_char c = (if 65 \<le> char_code c \<and> char_code c \<le> 90 then char_of (char_code c + 32) else c)"

definition upper_char :: "char \<Rightarrow> char" where
  "upper_char c = (if 97 \<le> char_code c \<and> char_code c \<le> 122 then char_of (char_code c - 32) else c)"

definition ToLower :: "string \<Rightarrow> string" where
  "ToLower s = map lower_char s"

definition ToUpper :: "string \<Rightarrow> string" where
  "ToUpper s = map upper_char s"

definition EqualFold :: "string \<Rightarrow> string \<Rightarrow> bool" where
  "EqualFold s t \<longleftrightarrow> ToLower s = ToLower t"

definition is_space :: "char \<Rightarrow> bool" where
  "is_space c \<longleftrightarrow> char_code c \<in> {9, 10, 11, 12, 13, 32}"

definition TrimSpace :: "string \<Rightarrow> string" where
  "TrimSpace s = rev (dropWhile is_space (rev (dropWhile is_space s)))"

definition TrimRight :: "string \<Rightarrow> string \<Rightarrow> string" where
  "TrimRight s cs = rev (dropWhile (\<lambda>c. c \<in> set cs) (rev s))"

text \<open>\<open>strings.Split\<close> with a one-byte separator: one more piece than there are separators.\<close>

fun SplitByte :: "string \<Rightarrow> char \<Rightarrow> string list" where
  "SplitByte [] c = [[]]"
| "SplitByte (x # s) c =
     (if x = c then [] # SplitByte s c
      else case SplitByte s c of p # ps \<Rightarrow> (x # p) # ps | [] \<Rightarrow> [[x]])"

text \<open>\<open>strings.SplitN(s, sep, 2)\<close>: at most one cut, at the first separator.\<close>

definition SplitN2 :: "string \<Rightarrow> char \<Rightarrow> string list" where
  "SplitN2 s c = (case IndexByte s c of None \<Rightarrow> [s] | Some i \<Rightarrow> [take i s, drop (Suc i) s])"

text \<open>\<open>strings.FieldsFunc\<close>: the maximal runs of bytes outside the predicate.\<close>

function FieldsFunc :: "(char \<Rightarrow> bool) \<Rightarrow> string \<Rightarrow> string list" where
  "FieldsFunc P s =
     (let t = dropWhile P s
      in if t = [] then []
         else takeWhile (\<lambda>c. \<not> P c) t # FieldsFunc P (dropWhile (\<lambda>c. \<not> P c) t))"
  by pat_completeness auto
termination
proof (relation "measure (\<lambda>(P, s). length s)")
  fix P :: "char \<Rightarrow> bool" and s t :: string
  assume t: "t = dropWhile P s" "t \<noteq> []"
  then have "\<not> P (hd t)" by (simp add: hd_dropWhile)
  with t(2) have "length (dropWhile (\<lambda>c. \<not> P c) t) < length t"
    by (cases t) (simp_all add: length_dropWhile_le le_imp_less_Suc)
  moreover have "length t \<le> length s"
    by (simp add: t(1) length_dropWhile_le)
  ultimately show "((P, dropWhile (\<lambda>c. \<not> P c) t), P, s) \<in> measure (\<lambda>(P, s). length s)"
    by simp
qed simp

declare FieldsFunc.simps [simp del]

definition Fields :: "string \<Rightarrow> string list" where
  "Fields s = FieldsFunc is_space s"

lemma HasPrefix_append [simp]: "HasPrefix (p @ s) p"
  by (simp add: HasPrefix_def)

lemma HasPrefix_iff: "HasPrefix s p \<longleftrightarrow> (\<exists>t. s = p @ t)"
  by (auto simp: HasPrefix_def) (metis append_take_drop_id)

lemma HasSuffix_iff: "HasSuffix s p \<longleftrightarrow> (\<exists>t. s = t @ p)"
proof
  assume "HasSuffix s p"
  then have "s = take (length s - length p) s @ p"
    by (metis HasSuffix_def append_take_drop_id)
  then show "\<exists>t. s = t @ p" ..
qed (auto simp: HasSuffix_def)

lemma SplitByte_not_Nil [simp]: "SplitByte s c \<noteq> []"
  by (induction s) (auto split: list.splits)

lemma length_SplitByte: "length (SplitByte s c) = Suc (count_list s c)"
  by (induction s) (auto split: list.splits)

lemma IndexByte_Some: "IndexByte s c = Some i \<Longrightarrow> i < length s \<and> s ! i = c \<and> c \<notin> set (take i s)"
  by (induction s arbitrary: i) (auto split: if_splits)

lemma IndexByte_append: "c \<notin> set a \<Longrightarrow> IndexByte (a @ c # b) c = Some (length a)"
  by (induction a) auto

lemma IndexByte_None: "IndexByte s c = None \<longleftrightarrow> c \<notin> set s"
  by (induction s) auto

lemma lower_char_idem [simp]: "lower_char (lower_char c) = lower_char c"
  by (auto simp: lower_char_def char_code_def)

lemma ToLower_idem [simp]: "ToLower (ToLower s) = ToLower s"
  by (simp add: ToLower_def)

lemma length_ToLower [simp]: "length (ToLower s) = length s"
  by (simp add: ToLower_def)

lemma EqualFold_refl [simp]: "EqualFold s s"
  by (simp add: EqualFold_def)

section \<open>strconv\<close>

definition is_digit :: "char \<Rightarrow> bool" where
  "is_digit c \<longleftrightarrow> 48 \<le> char_code c \<and> char_code c \<le> 57"

definition digit_val :: "char \<Rightarrow> nat" where
  "digit_val c = char_code c - 48"

definition digit_char :: "nat \<Rightarrow> char" where
  "digit_char d = char_of (48 + d)"

text \<open>\<open>strconv.FormatUint(n, 10)\<close> and \<open>%d\<close>.\<close>

fun FormatUint :: "nat \<Rightarrow> string" where
  "FormatUint n = (if n < 10 then [digit_char n] else FormatUint (n div 10) @ [digit_char (n mod 10)])"

declare FormatUint.simps [simp del]

definition dec_val :: "string \<Rightarrow> nat" where
  "dec_val s = foldl (\<lambda>a c. 10 * a + digit_val c) 0 s"

definition all_digits :: "string \<Rightarrow> bool" where
  "all_digits s \<longleftrightarrow> s \<noteq> [] \<and> list_all is_digit s"

text \<open>
  \<open>strconv.ParseInt(s, 10, 64)\<close> (and \<open>Atoi\<close> on a 64-bit platform): an optional sign, at least
  one digit, nothing else, and a value that fits.
\<close>

definition ParseInt64 :: "string \<Rightarrow> int option" where
  "ParseInt64 s =
     (let neg = HasPrefix s ''-'';
          d = (if neg \<or> HasPrefix s ''+'' then drop 1 s else s);
          v = (if neg then - int (dec_val d) else int (dec_val d))
      in if all_digits d \<and> - (2 ^ 63) \<le> v \<and> v < 2 ^ 63 then Some v else None)"

lemma digit_char_code: "d < 10 \<Longrightarrow> char_code (digit_char d) = 48 + d"
  by (simp add: digit_char_def char_code_def)

lemma is_digit_digit_char [simp]: "d < 10 \<Longrightarrow> is_digit (digit_char d)"
  by (simp add: is_digit_def digit_char_code)

lemma digit_val_digit_char [simp]: "d < 10 \<Longrightarrow> digit_val (digit_char d) = d"
  by (simp add: digit_val_def digit_char_code)

lemma dec_val_FormatUint [simp]: "dec_val (FormatUint n) = n"
  by (induction n rule: FormatUint.induct) (subst FormatUint.simps, auto simp: dec_val_def)

lemma all_digits_FormatUint [simp]: "all_digits (FormatUint n)"
  by (induction n rule: FormatUint.induct) (subst FormatUint.simps, auto simp: all_digits_def)

lemma FormatUint_inj: "FormatUint m = FormatUint n \<Longrightarrow> m = n"
  by (metis dec_val_FormatUint)

section \<open>encoding/hex and encoding/base64\<close>

definition hex_char :: "nat \<Rightarrow> char" where
  "hex_char d = (if d < 10 then char_of (48 + d) else char_of (87 + d))"

definition HexEncode :: "bytes \<Rightarrow> string" where
  "HexEncode b = concat (map (\<lambda>x. [hex_char (unat x div 16), hex_char (unat x mod 16)]) b)"

datatype b64_alphabet = StdAlphabet | URLAlphabet

definition b64_val :: "b64_alphabet \<Rightarrow> char \<Rightarrow> nat option" where
  "b64_val al c =
     (let k = char_code c
      in if 65 \<le> k \<and> k \<le> 90 then Some (k - 65)
         else if 97 \<le> k \<and> k \<le> 122 then Some (k - 71)
         else if 48 \<le> k \<and> k \<le> 57 then Some (k + 4)
         else if k = (case al of StdAlphabet \<Rightarrow> 43 | URLAlphabet \<Rightarrow> 45) then Some 62
         else if k = (case al of StdAlphabet \<Rightarrow> 47 | URLAlphabet \<Rightarrow> 95) then Some 63
         else None)"

definition b64_bytes :: "nat list \<Rightarrow> bytes" where
  "b64_bytes vs =
     (case vs of
        [a, b] \<Rightarrow> [of_nat (a * 4 + b div 16)]
      | [a, b, c] \<Rightarrow> [of_nat (a * 4 + b div 16), of_nat (b mod 16 * 16 + c div 4)]
      | [a, b, c, d] \<Rightarrow> [of_nat (a * 4 + b div 16), of_nat (b mod 16 * 16 + c div 4), of_nat (c mod 4 * 64 + d)]
      | _ \<Rightarrow> [])"

definition b64_group :: "b64_alphabet \<Rightarrow> string \<Rightarrow> bytes option" where
  "b64_group al s =
     (if list_all (\<lambda>c. b64_val al c \<noteq> None) s
      then Some (b64_bytes (map (\<lambda>c. the (b64_val al c)) s)) else None)"

text \<open>Padded and unpadded decoding of the text without its line breaks, which Go skips.\<close>

fun b64_padded :: "b64_alphabet \<Rightarrow> string \<Rightarrow> bytes option" where
  "b64_padded al [] = Some []"
| "b64_padded al (a # b # c # d # rest) =
     (if rest = [] \<and> d = CHR ''='' then b64_group al (if c = CHR ''='' then [a, b] else [a, b, c])
      else case b64_group al [a, b, c, d] of
          None \<Rightarrow> None
        | Some x \<Rightarrow> map_option ((@) x) (b64_padded al rest))"
| "b64_padded al _ = None"

fun b64_raw :: "b64_alphabet \<Rightarrow> string \<Rightarrow> bytes option" where
  "b64_raw al [] = Some []"
| "b64_raw al [a] = None"
| "b64_raw al [a, b] = b64_group al [a, b]"
| "b64_raw al [a, b, c] = b64_group al [a, b, c]"
| "b64_raw al (a # b # c # d # rest) =
     (case b64_group al [a, b, c, d] of
        None \<Rightarrow> None
      | Some x \<Rightarrow> map_option ((@) x) (b64_raw al rest))"

definition strip_newlines :: "string \<Rightarrow> string" where
  "strip_newlines s = filter (\<lambda>c. char_code c \<noteq> 10 \<and> char_code c \<noteq> 13) s"

definition StdDecode :: "string \<Rightarrow> bytes option" where
  "StdDecode s = b64_padded StdAlphabet (strip_newlines s)"

definition RawURLDecode :: "string \<Rightarrow> bytes option" where
  "RawURLDecode s = b64_raw URLAlphabet (strip_newlines s)"

section \<open>net/url and path/filepath\<close>

text \<open>\<open>net/url\<close>: a parsed URL with the fields the program reads or sets, and the rest of it.\<close>

record url =
  u_Scheme :: string
  u_Host :: string
  u_Path :: string
  u_rest :: string

text \<open>\<open>url.PathEscape\<close>: unreserved bytes and \<open>$&+:=@\<close> stay, the others become \<open>%XX\<close>.\<close>

definition path_safe :: "char \<Rightarrow> bool" where
  "path_safe c \<longleftrightarrow>
     (let k = char_code c
      in 65 \<le> k \<and> k \<le> 90 \<or> 97 \<le> k \<and> k \<le> 122 \<or> 48 \<le> k \<and> k \<le> 57 \<or> c \<in> set ''-_.~$&+:=@'')"

definition upper_hex :: "nat \<Rightarrow> char" where
  "upper_hex d = (if d < 10 then char_of (48 + d) else char_of (55 + d))"

definition PathEscape :: "string \<Rightarrow> string" where
  "PathEscape s = concat (map (\<lambda>c. if path_safe c then [c]
     else [CHR ''%'', upper_hex (char_code c div 16), upper_hex (char_code c mod 16)]) s)"

text \<open>\<open>filepath.Clean\<close> on Unix: the elements are processed from the left, on a stack.\<close>

fun clean_elems :: "bool \<Rightarrow> string list \<Rightarrow> string list \<Rightarrow> string list" where
  "clean_elems rooted acc [] = rev acc"
| "clean_elems rooted acc (e # es) =
     (if e = [] \<or> e = ''.'' then clean_elems rooted acc es
      else if e = ''..'' then
        (case acc of
           a # acc' \<Rightarrow> if a = ''..'' then clean_elems rooted (e # acc) es else clean_elems rooted acc' es
         | [] \<Rightarrow> clean_elems rooted (if rooted then [] else [e]) es)
      else clean_elems rooted (e # acc) es)"

fun join_with :: "string \<Rightarrow> string list \<Rightarrow> string" where
  "join_with sep [] = []"
| "join_with sep [e] = e"
| "join_with sep (e # es) = e @ sep @ join_with sep es"

definition Clean :: "string \<Rightarrow> string" where
  "Clean p =
     (let rooted = HasPrefix p ''/'';
          q = (if rooted then ''/'' else []) @ join_with ''/'' (clean_elems rooted [] (SplitByte p (CHR ''/'')))
      in if q = [] then ''.'' else q)"

text \<open>\<open>filepath.Join\<close> of two elements: empty ones are ignored.\<close>

definition Join2 :: "string \<Rightarrow> string \<Rightarrow> string" where
  "Join2 a b =
     (let es = filter (\<lambda>e. e \<noteq> []) [a, b] in if es = [] then [] else Clean (join_with ''/'' es))"

end
