(* ===== verification/Jwt.thy ===== *)
theory Jwt
  imports Complex_Main Go_Strings
begin

text \<open>
  \<open>apps/backupy-decrypt/internal/jwt/jwt.go\<close>: taking a decryption token apart without checking
  its signature, and the checks that are made (structure, issuer, audience, expiry, required
  claims). \<open>json.Unmarshal\<close> into a map is the parameter \<open>unmarshal\<close>; the wall clock is the
  argument \<open>now\<close>, in nanoseconds of Unix time; \<open>oor\<close> is what the platform's conversion of an
  out-of-range \<open>float64\<close> to \<open>int64\<close> gives (the language leaves it open).
\<close>

section \<open>Claims\<close>

text \<open>The dynamic types a claim of type \<open>any\<close> can have here.\<close>

datatype go_any =
    AnyFloat64 rat
  | AnyInt64 int
  | AnyInt int
  | AnyNumber string \<comment> \<open>json.Number\<close>
  | AnyString string
  | AnyBool bool
  | AnyNil
  | AnyOther

type_synonym claims = "string \<rightharpoonup> go_any"

datatype jwt_err =
    ErrMalformed
  | ErrExpired
  | ErrWrongIssuer string
  | ErrWrongAudience string
  | ErrMissingClaim string

record DecryptionClaims =
  Issuer :: string
  Subject :: string
  Audience :: string
  IssuedAt :: int
  ExpiresAt :: int
  RunID :: string
  CompanyID :: string
  DEKBase64 :: string
  Algorithm :: string
  FormatVersion :: int
  SHA256 :: string

section \<open>Parse\<close>

definition Parse :: "(bytes \<Rightarrow> claims option) \<Rightarrow> string \<Rightarrow> jwt_err + claims" where
  "Parse unmarshal token =
     (let parts = SplitByte token (CHR ''.'')
      in if length parts \<noteq> 3 then Inl ErrMalformed
         else case RawURLDecode (parts ! 1) of
             None \<Rightarrow> Inl ErrMalformed
           | Some pld \<Rightarrow>
               (case unmarshal pld of None \<Rightarrow> Inl ErrMalformed | Some cl \<Rightarrow> Inr cl))"

section \<open>ParseDecryption\<close>

text \<open>Conversion of a \<open>float64\<close> to \<open>int64\<close>: truncation towards zero where the result fits.\<close>

definition float_to_int64 :: "(rat \<Rightarrow> int) \<Rightarrow> rat \<Rightarrow> int" where
  "float_to_int64 oor x =
     (let t = (if 0 \<le> x then \<lfloor>x\<rfloor> else \<lceil>x\<rceil>)
      in if - (2 ^ 63) \<le> t \<and> t < 2 ^ 63 then t else oor x)"

text \<open>
  The seconds of \<open>time.Unix(sec, 0)\<close> as \<open>After\<close> compares them: the 64-bit count from year 1,
  62135596800 seconds before the Unix epoch, wraps around.
\<close>

definition unix_sec :: "int \<Rightarrow> int" where
  "unix_sec sec = sint (word_of_int (sec + 62135596800) :: int64) - 62135596800"

lemma unix_sec_id: "- (2 ^ 63) \<le> sec + 62135596800 \<Longrightarrow> sec + 62135596800 < 2 ^ 63 \<Longrightarrow> unix_sec sec = sec"
  unfolding unix_sec_def
  by (subst signed_of_int, subst signed_take_bit_int_eq_self) simp_all

text \<open>\<open>Int64\<close> of a \<open>json.Number\<close>: beside an error \<open>strconv.ParseInt\<close> returns the nearest value in range, or zero.\<close>

definition Number_Int64 :: "string \<Rightarrow> int \<times> bool" where
  "Number_Int64 s =
     (case ParseInt64 s of
        Some n \<Rightarrow> (n, True)
      | None \<Rightarrow>
          let neg = HasPrefix s ''-'';
              d = (if neg \<or> HasPrefix s ''+'' then drop 1 s else s)
          in (if \<not> all_digits d then 0 else if neg then - (2 ^ 63) else 2 ^ 63 - 1, False))"

fun toUnix :: "(rat \<Rightarrow> int) \<Rightarrow> go_any option \<Rightarrow> int \<times> bool" where
  "toUnix oor (Some (AnyFloat64 x)) = (float_to_int64 oor x, True)"
| "toUnix oor (Some (AnyInt64 n)) = (n, True)"
| "toUnix oor (Some (AnyInt n)) = (n, True)"
| "toUnix oor (Some (AnyNumber s)) = Number_Int64 s"
| "toUnix oor _ = (0, False)"

definition getStr :: "claims \<Rightarrow> string \<Rightarrow> jwt_err + string" where
  "getStr cl k =
     (case cl k of
        None \<Rightarrow> Inl (ErrMissingClaim k)
      | Some (AnyString s) \<Rightarrow> if s = [] then Inl ErrMalformed else Inr s
      | Some _ \<Rightarrow> Inl ErrMalformed)"

text \<open>\<open>claims["sha256"].(string)\<close> with the failure ignored.\<close>

definition optStr :: "claims \<Rightarrow> string \<Rightarrow> string" where
  "optStr cl k = (case cl k of Some (AnyString s) \<Rightarrow> s | _ \<Rightarrow> [])"

definition ParseDecryption ::
  "(bytes \<Rightarrow> claims option) \<Rightarrow> (rat \<Rightarrow> int) \<Rightarrow> int \<Rightarrow> string \<Rightarrow> string \<Rightarrow> string
     \<Rightarrow> jwt_err + DecryptionClaims" where
  "ParseDecryption unmarshal oor now token expectedIssuer expectedAudience =
     res_bind (Parse unmarshal token) (\<lambda>cl.
     res_bind (getStr cl ''iss'') (\<lambda>iss.
     if iss \<noteq> expectedIssuer then Inl (ErrWrongIssuer iss) else
     res_bind (getStr cl ''aud'') (\<lambda>aud.
     if aud \<noteq> expectedAudience then Inl (ErrWrongAudience aud) else
     case toUnix oor (cl ''exp'') of
       (ex, ok) \<Rightarrow>
       if \<not> ok then Inl (ErrMissingClaim ''exp'') else
       let iat = fst (toUnix oor (cl ''iat''))
       in if unix_sec ex * 1000000000 < now then Inl ErrExpired else
     res_bind (getStr cl ''sub'') (\<lambda>sub.
     res_bind (getStr cl ''run_id'') (\<lambda>runID.
     res_bind (getStr cl ''company_id'') (\<lambda>companyID.
     res_bind (getStr cl ''dek'') (\<lambda>d.
     res_bind (getStr cl ''alg'') (\<lambda>alg.
     case toUnix oor (cl ''format_version'') of
       (fv, ok) \<Rightarrow>
       if \<not> ok then Inl (ErrMissingClaim ''format_version'') else
       Inr \<lparr>Issuer = iss, Subject = sub, Audience = aud, IssuedAt = iat, ExpiresAt = ex,
            RunID = runID, CompanyID = companyID, DEKBase64 = d, Algorithm = alg,
            FormatVersion = fv, SHA256 = optStr cl ''sha256''\<rparr>))))))))"

section \<open>What an accepted token guarantees\<close>

lemma getStr_Inr_iff: "getStr cl k = Inr s \<longleftrightarrow> cl k = Some (AnyString s) \<and> s \<noteq> []"
  by (auto simp: getStr_def split: option.splits go_any.splits if_splits)

lemma Parse_Inr_iff:
  "Parse unmarshal token = Inr cl \<longleftrightarrow>
     (\<exists>h p sg b. SplitByte token (CHR ''.'') = [h, p, sg] \<and> RawURLDecode p = Some b \<and> unmarshal b = Some cl)"
proof -
  have "length ps = 3 \<longleftrightarrow> (\<exists>a b c. ps = [a, b, c])" for ps :: "string list"
    by (auto simp: length_Suc_conv eval_nat_numeral)
  then show ?thesis
    by (auto simp: Parse_def Let_def split: option.splits)
qed

text \<open>
  The token is accepted exactly when every check passes, and the returned record holds the
  claims that were checked.
\<close>

definition token_ok ::
  "claims \<Rightarrow> (rat \<Rightarrow> int) \<Rightarrow> int \<Rightarrow> string \<Rightarrow> string \<Rightarrow> DecryptionClaims \<Rightarrow> bool" where
  "token_ok cl oor now iss aud d \<longleftrightarrow>
     Issuer d = iss \<and> Audience d = aud \<and> iss \<noteq> [] \<and> aud \<noteq> []
     \<and> cl ''iss'' = Some (AnyString iss) \<and> cl ''aud'' = Some (AnyString aud)
     \<and> toUnix oor (cl ''exp'') = (ExpiresAt d, True) \<and> now \<le> unix_sec (ExpiresAt d) * 1000000000
     \<and> cl ''sub'' = Some (AnyString (Subject d)) \<and> Subject d \<noteq> []
     \<and> cl ''run_id'' = Some (AnyString (RunID d)) \<and> RunID d \<noteq> []
     \<and> cl ''company_id'' = Some (AnyString (CompanyID d)) \<and> CompanyID d \<noteq> []
     \<and> cl ''dek'' = Some (AnyString (DEKBase64 d)) \<and> DEKBase64 d \<noteq> []
     \<and> cl ''alg'' = Some (AnyString (Algorithm d)) \<and> Algorithm d \<noteq> []
     \<and> toUnix oor (cl ''format_version'') = (FormatVersion d, True)
     \<and> SHA256 d = optStr cl ''sha256''
     \<and> IssuedAt d = fst (toUnix oor (cl ''iat''))"

lemma ParseDecryption_Inr_iff:
  "ParseDecryption unmarshal oor now token iss aud = Inr d \<longleftrightarrow>
     (\<exists>cl. Parse unmarshal token = Inr cl \<and> token_ok cl oor now iss aud d)"
  by (cases d) (auto simp: ParseDecryption_def token_ok_def res_eq_Inr getStr_Inr_iff Let_def not_less prod.case_eq_if prod_eq_iff)

end
