(* ===== verification/Decrypt_Cli.thy ===== *)
theory Decrypt_Cli
  imports Frame_Format Jwt
begin

text \<open>
  \<open>apps/backupy-decrypt\<close>: \<open>internal/decrypt/decrypt.go\<close> (\<open>decryptStream\<close> and \<open>Run\<close>) and the
  helpers of \<open>cmd/backupy-decrypt/main.go\<close>. The zstd decoder, SHA-256 and the JSON decoder are
  fields of the environment; the output file is a writer that may run full. Without
  \<open>SkipDecompress\<close> the plaintext goes into an \<open>io.Pipe\<close> whose reading goroutine decodes and
  copies to the file: it may stop after \<open>zstd_stop\<close> bytes (a decoding or disk error), and since
  it never closes the read end a further \<open>Write\<close> blocks (a frame without plaintext, which the
  agent never writes, is taken to pass).
\<close>

section \<open>decryptStream\<close>

definition NonceSizeC :: nat where "NonceSizeC = 12"
definition TagSizeC :: nat where "TagSizeC = 16"
definition ChunkHeaderSizeC :: nat where "ChunkHeaderSizeC = 4"
definition ChunkPlaintextSize :: nat where "ChunkPlaintextSize = 1048576"

definition maxFrameSize :: nat where
  "maxFrameSize = NonceSizeC + ChunkPlaintextSize + TagSizeC"

lemmas cli_constants = NonceSizeC_def TagSizeC_def ChunkHeaderSizeC_def

lemma maxFrameSize_eq: "maxFrameSize = 1048604"
  by (simp add: maxFrameSize_def NonceSizeC_def ChunkPlaintextSize_def TagSizeC_def)

datatype trunc_at = TruncMarker | TruncHeader | TruncBody

datatype dec_err =
    ErrTokenExpired
  | ErrInvalidToken "jwt_err option" \<comment> \<open>\<open>None\<close>: the DEK is not 32 bytes of base64\<close>
  | ErrUnsupportedAlg string
  | ErrUnsupportedFmt int
  | OpenInputErr
  | OpenOutputErr
  | AesErr
  | ZstdErr
  | CtxErr
  | ErrTruncated trunc_at
  | ReadHeaderErr io_err
  | ErrFrameTooSmall uint32
  | ErrFrameTooLarge uint32
  | ReadBodyErr io_err
  | ErrDecryptFailed
  | WritePlaintextErr wr_err
  | CloseSinkErr
  | CloseOutputErr
  | ErrSHA256Mismatch

function decryptStream ::
  "aead \<Rightarrow> (nat \<Rightarrow> bool) \<Rightarrow> nat \<Rightarrow> int64 \<Rightarrow> reader \<Rightarrow> writer
     \<Rightarrow> dec_err option \<times> reader \<times> writer \<times> int64 list" where
  "decryptStream A cancelled i processed r w =
     (if cancelled i then (Some CtxErr, r, w, [])
      else case ReadFull r ChunkHeaderSizeC of
        (header, Some e, r1) \<Rightarrow>
          if e = EOF then (Some (ErrTruncated TruncMarker), r1, w, [])
          else if e = ErrUnexpectedEOF then (Some (ErrTruncated TruncHeader), r1, w, [])
          else (Some (ReadHeaderErr e), r1, w, [])
      | (header, None, r1) \<Rightarrow>
          let sz = get_u32 header; processed1 = processed + of_nat ChunkHeaderSizeC
          in if sz = 0 then (None, r1, w, [processed1])
             else if sz < of_nat (NonceSizeC + TagSizeC) then (Some (ErrFrameTooSmall sz), r1, w, [])
             else if of_nat maxFrameSize < sz then (Some (ErrFrameTooLarge sz), r1, w, [])
             else (case ReadFull r1 (unat sz) of
                 (fr, Some e, r2) \<Rightarrow>
                   if e = ErrUnexpectedEOF \<or> e = EOF then (Some (ErrTruncated TruncBody), r2, w, [])
                   else (Some (ReadBodyErr e), r2, w, [])
               | (fr, None, r2) \<Rightarrow>
                   (case Open A (take NonceSizeC fr) (drop NonceSizeC fr) of
                      None \<Rightarrow> (Some ErrDecryptFailed, r2, w, [])
                    | Some pt \<Rightarrow>
                        (case Write w pt of
                           (w', Some e) \<Rightarrow> (Some (WritePlaintextErr e), r2, w', [])
                         | (w', None) \<Rightarrow>
                             let processed2 = processed1 + of_nat (unat sz)
                             in (case decryptStream A cancelled (i + 1) processed2 r2 w' of
                                   (e, r3, w3, ps) \<Rightarrow> (e, r3, w3, processed2 # ps))))))"
  by pat_completeness auto
termination
  by (relation "measure (\<lambda>(A, cancelled, i, processed, r, w). length (rd_data r))")
     (auto simp: ChunkHeaderSizeC_def intro: ReadFull_shrinks2)

declare decryptStream.simps [simp del]

section \<open>Run\<close>

record run_options =
  Token :: string
  VerifySHA256 :: bool
  SkipDecompress :: bool

record run_env =
  env_unmarshal :: "bytes \<Rightarrow> claims option"
  env_oor :: "rat \<Rightarrow> int"
  env_now :: int
  input_file :: "reader option"
  output_file :: "writer option"
  env_cancelled :: "nat \<Rightarrow> bool"
  sha256_sum :: "bytes \<Rightarrow> bytes"
  zstd_new_ok :: bool
  zstd_stop :: "nat option"
  zstd_decode :: "bytes \<Rightarrow> bytes \<times> bool" \<comment> \<open>decoded bytes, and whether the copy ended without error\<close>
  close_out_ok :: bool

definition IssuerExpected :: string where "IssuerExpected = ''backupy-server''"
definition AudienceExpected :: string where "AudienceExpected = ''backupy-decrypt''"

text \<open>The first half of \<open>Run\<close>: the token's checks and the key, before any file is opened.\<close>

definition check_token :: "run_env \<Rightarrow> string \<Rightarrow> dec_err + (DecryptionClaims \<times> bytes)" where
  "check_token env token =
     (case ParseDecryption (env_unmarshal env) (env_oor env) (env_now env) token
             IssuerExpected AudienceExpected of
        Inl e \<Rightarrow> Inl (if e = ErrExpired then ErrTokenExpired else ErrInvalidToken (Some e))
      | Inr cl \<Rightarrow>
          if \<not> EqualFold (Algorithm cl) ''AES-256-GCM'' then Inl (ErrUnsupportedAlg (Algorithm cl))
          else if FormatVersion cl \<noteq> 1 then Inl (ErrUnsupportedFmt (FormatVersion cl))
          else case StdDecode (DEKBase64 cl) of
              None \<Rightarrow> Inl (ErrInvalidToken None)
            | Some k \<Rightarrow> if length k \<noteq> 32 then Inl (ErrInvalidToken None) else Inr (cl, k))"

text \<open>The sink of the plaintext, and what ends up in the output file when it is closed.\<close>

definition sink_of :: "run_env \<Rightarrow> run_options \<Rightarrow> writer \<Rightarrow> writer" where
  "sink_of env opts out =
     (if SkipDecompress opts then out
      else \<lparr>wr_data = [], wr_room = zstd_stop env, wr_full = FullBlock\<rparr>)"

definition file_after :: "run_env \<Rightarrow> run_options \<Rightarrow> writer \<Rightarrow> bytes" where
  "file_after env opts snk =
     (if SkipDecompress opts then wr_data snk else fst (zstd_decode env (wr_data snk)))"

definition sink_close_ok :: "run_env \<Rightarrow> run_options \<Rightarrow> writer \<Rightarrow> bool" where
  "sink_close_ok env opts snk \<longleftrightarrow> SkipDecompress opts \<or> snd (zstd_decode env (wr_data snk))"

text \<open>The bytes the \<open>TeeReader\<close> passed to the hasher: those read from the input.\<close>

definition hashed :: "reader \<Rightarrow> reader \<Rightarrow> bytes" where
  "hashed before after = take (length (rd_data before) - length (rd_data after)) (rd_data before)"

text \<open>
  \<open>Run\<close>: the error, the content of the output file (\<open>None\<close> when it was not opened) and the
  values handed to \<open>Progress\<close>. \<open>WritePlaintextErr WriteBlocks\<close> stands for a run that hangs.
\<close>

definition Run :: "run_env \<Rightarrow> run_options \<Rightarrow> dec_err option \<times> bytes option \<times> int64 list" where
  "Run env opts =
     (case check_token env (Token opts) of
        Inl e \<Rightarrow> (Some e, None, [])
      | Inr (cl, key) \<Rightarrow>
        (case input_file env of
           None \<Rightarrow> (Some OpenInputErr, None, [])
         | Some inp \<Rightarrow>
           (case output_file env of
              None \<Rightarrow> (Some OpenOutputErr, None, [])
            | Some out \<Rightarrow>
              (case aes_new_gcm key of
                 None \<Rightarrow> (Some AesErr, Some (wr_data out), [])
               | Some A \<Rightarrow>
                 if \<not> SkipDecompress opts \<and> \<not> zstd_new_ok env then (Some ZstdErr, Some (wr_data out), [])
                 else case decryptStream A (env_cancelled env) 0 0 inp (sink_of env opts out) of
                    (Some e, rest, snk, ps) \<Rightarrow> (Some e, Some (file_after env opts snk), ps)
                  | (None, rest, snk, ps) \<Rightarrow>
                      let file = Some (file_after env opts snk)
                      in if \<not> sink_close_ok env opts snk then (Some CloseSinkErr, file, ps)
                         else if \<not> close_out_ok env then (Some CloseOutputErr, file, ps)
                         else if VerifySHA256 opts \<and> SHA256 cl \<noteq> []
                                 \<and> \<not> EqualFold (HexEncode (sha256_sum env (hashed inp rest))) (SHA256 cl)
                         then (Some ErrSHA256Mismatch, file, ps)
                         else (None, file, ps)))))"

definition zeroize :: "bytes \<Rightarrow> bytes" where
  "zeroize b = map (\<lambda>_. 0) b"

section \<open>The command line around it\<close>

text \<open>\<open>trimNewline\<close>: the loop that drops trailing line ends and blanks.\<close>

function trimNewline :: "string \<Rightarrow> string" where
  "trimNewline s =
     (if 0 < length s \<and> char_code (last s) \<in> {10, 13, 32, 9}
      then trimNewline (butlast s) else s)"
  by pat_completeness auto
termination
  by (relation "measure length") auto

declare trimNewline.simps [simp del]

text \<open>The flags of \<open>main\<close>; \<open>token_file\<close> is the outcome of reading \<open>--token-file\<close>.\<close>

record cli_flags =
  flag_token :: string
  flag_token_file :: string
  flag_in :: string
  flag_out :: string
  flag_verify :: bool
  flag_skip :: bool
  flag_version :: bool

datatype cli_exit = Exit0 | Exit1 | Exit2

definition cli_main :: "(string \<Rightarrow> bytes option) \<Rightarrow> run_env \<Rightarrow> cli_flags \<Rightarrow> cli_exit \<times> bytes option" where
  "cli_main read_file env f =
     (if flag_version f then (Exit0, None)
      else
        case (if flag_token_file f \<noteq> []
              then map_option (\<lambda>b. trimNewline (string_of_bytes b)) (read_file (flag_token_file f))
              else Some (flag_token f)) of
          None \<Rightarrow> (Exit1, None)
        | Some tok \<Rightarrow>
            if tok = [] \<or> flag_in f = [] \<or> flag_out f = [] then (Exit2, None)
            else (case Run env \<lparr>Token = tok, VerifySHA256 = flag_verify f, SkipDecompress = flag_skip f\<rparr> of
                (None, file, ps) \<Rightarrow> (Exit0, file)
              | (Some e, file, ps) \<Rightarrow> (Exit1, file)))"

section \<open>decryptStream refines the specification of the format\<close>

fun dec_err_kind :: "dec_err \<Rightarrow> frame_err option" where
  "dec_err_kind (ErrTruncated TruncMarker) = Some NoMarker"
| "dec_err_kind (ErrTruncated TruncHeader) = Some PartialHeader"
| "dec_err_kind (ErrTruncated TruncBody) = Some PartialBody"
| "dec_err_kind (ErrFrameTooSmall s) = Some (TooSmall s)"
| "dec_err_kind (ErrFrameTooLarge s) = Some (TooLarge s)"
| "dec_err_kind ErrDecryptFailed = Some AuthFailed"
| "dec_err_kind _ = None"

lemma cli_size_iffs:
  "sz < (28 :: uint32) \<longleftrightarrow> unat sz < 28" "(of_nat maxFrameSize :: uint32) < sz \<longleftrightarrow> maxFrameSize < unat sz"
  by (simp_all add: word_less_nat_alt maxFrameSize_eq)

lemmas cli_eval = ReadFull_reader_of cli_constants cli_size_iffs Let_def

text \<open>Without cancellation and with a writer that takes everything, the two agree in full.\<close>

lemma decryptStream_refines:
  "wr_room w = None \<Longrightarrow>
     \<exists>e ps. decryptStream A (\<lambda>_. False) i pr (reader_of b) w =
         (e, reader_of (snd (snd (decode_stream A maxFrameSize b))),
          wr_append w (fst (decode_stream A maxFrameSize b)), ps)
       \<and> (case fst (snd (decode_stream A maxFrameSize b)) of
             None \<Rightarrow> e = None | Some k \<Rightarrow> (\<exists>x. e = Some x \<and> dec_err_kind x = Some k))"
proof (induction A maxFrameSize b arbitrary: i pr w rule: decode_stream.induct)
  case (1 A b)
  note eval = decryptStream.simps [of A "\<lambda>_. False" i pr "reader_of b" w]
    decode_stream.simps [of A maxFrameSize b] cli_eval
  show ?case
  proof (cases rule: frame_cases [where A = A and b = b and mx = maxFrameSize])
    case (ok p)
    let ?rest = "drop (unat (get_u32 b) + 4) b"
    obtain q fe r where spec: "decode_stream A maxFrameSize ?rest = (q, fe, r)" by (cases "decode_stream A maxFrameSize ?rest")
    from ok "1.prems" "1.hyps" [of "get_u32 b" "drop 4 b" p "wr_append w p" "i + 1"
        "pr + 4 + ucast (get_u32 b)"]
    obtain e ps where "decryptStream A (\<lambda>_. False) (Suc i) (pr + 4 + ucast (get_u32 b))
        (reader_of ?rest) (wr_append w p) = (e, reader_of r, wr_append (wr_append w p) q, ps)"
      and "case fe of None \<Rightarrow> e = None | Some k \<Rightarrow> \<exists>x. e = Some x \<and> dec_err_kind x = Some k"
      by (auto simp: spec)
    with ok "1.prems" spec show ?thesis by (simp add: eval)
  qed (use "1.prems" in \<open>auto simp: eval\<close>)
qed

text \<open>
  Whatever the writer and the context do, only authenticated plaintext reaches the writer, in
  order; and a run that reports no error has written all of it.
\<close>

lemma decryptStream_safe:
  "decryptStream A cancelled i pr (reader_of b) w = (e, r', w', ps) \<Longrightarrow>
     (\<exists>k. wr_data w' = wr_data w @ take k (fst (decode_stream A maxFrameSize b)))
     \<and> (e = None \<longrightarrow> (\<exists>p rest. decode_stream A maxFrameSize b = (p, None, rest)
          \<and> wr_data w' = wr_data w @ p \<and> r' = reader_of rest))"
proof (induction A maxFrameSize b arbitrary: i pr w e r' w' ps rule: decode_stream.induct)
  case (1 A b)
  note eval = decryptStream.simps [of A cancelled i pr "reader_of b" w]
    decode_stream.simps [of A maxFrameSize b] cli_eval
  have none: "\<exists>k. wr_data w = wr_data w @ take k xs" for xs
    by (rule exI [of _ 0]) simp
  show ?case
  proof (cases "cancelled i")
    case True
    with "1.prems" none show ?thesis by (auto simp: eval)
  next
    case active: False
    show ?thesis
    proof (cases rule: frame_cases [where A = A and b = b and mx = maxFrameSize])
      case (ok p)
      let ?rest = "drop (unat (get_u32 b) + 4) b"
      obtain q fe r where spec: "decode_stream A maxFrameSize ?rest = (q, fe, r)"
        by (cases "decode_stream A maxFrameSize ?rest")
      have whole: "decode_stream A maxFrameSize b = (p @ q, fe, r)"
        using ok spec by (simp add: decode_stream.simps [of A maxFrameSize b] Let_def)
      obtain w1 we where W: "Write w p = (w1, we)" by fastforce
      obtain k where k: "wr_data w1 = wr_data w @ take k p" "we = None \<longleftrightarrow> k = length p" "k \<le> length p"
        using Write_outcome [OF W] by blast
      show ?thesis
      proof (cases we)
        case (Some x)
        with "1.prems" ok active W have e: "e = Some (WritePlaintextErr x)" and "w' = w1"
          by (auto simp: eval)
        with k have "wr_data w' = wr_data w @ take k (p @ q)" by simp
        with e whole show ?thesis by (metis fst_conv option.distinct(1))
      next
        case None
        with "1.prems" ok active W obtain ps' where rec:
          "decryptStream A cancelled (Suc i) (pr + 4 + ucast (get_u32 b))
             (reader_of ?rest) w1 = (e, r', w', ps')"
          by (auto simp: eval split: prod.splits)
        from rec ok "1.hyps" [of "get_u32 b" "drop 4 b" p "Suc i" "pr + 4 + ucast (get_u32 b)" w1 e r' w' ps']
        have IH:
          "(\<exists>k. wr_data w' = wr_data w1 @ take k q) \<and> (e = None \<longrightarrow> (\<exists>p rest.
              (q, fe, r) = (p, None, rest) \<and> wr_data w' = wr_data w1 @ p \<and> r' = reader_of rest))"
          by (auto simp: spec)
        from IH k None obtain j where "wr_data w' = wr_data w @ p @ take j q" by auto
        then have "wr_data w' = wr_data w @ take (length p + j) (p @ q)" by simp
        then have "\<exists>k. wr_data w' = wr_data w @ take k (fst (decode_stream A maxFrameSize b))"
          unfolding whole fst_conv by (rule exI)
        moreover from IH k None whole have "e = None \<longrightarrow> (\<exists>p rest. decode_stream A maxFrameSize b = (p, None, rest)
            \<and> wr_data w' = wr_data w @ p \<and> r' = reader_of rest)" by auto
        ultimately show ?thesis ..
      qed
    qed (use "1.prems" active none in \<open>auto simp: eval split: if_splits\<close>)
  qed
qed

text \<open>
  When the reading end stops before the plaintext is complete, the decoder blocks in \<open>Write\<close>.
\<close>

lemma Write_blocked:
  "wr_room w = Some k \<Longrightarrow> wr_full w = FullBlock \<Longrightarrow> k < length p \<Longrightarrow>
     \<exists>w'. Write w p = (w', Some WriteBlocks)"
  by (simp add: Write_def)

lemma Write_fits:
  "wr_room w = Some k \<Longrightarrow> length p \<le> k \<Longrightarrow>
     \<exists>w'. Write w p = (w', None) \<and> wr_room w' = Some (k - length p) \<and> wr_full w' = wr_full w"
  by (simp add: Write_def)

lemma decryptStream_blocks:
  "wr_room w = Some k \<Longrightarrow> wr_full w = FullBlock \<Longrightarrow> decode_stream A maxFrameSize b = (p, None, rest) \<Longrightarrow>
     k < length p \<Longrightarrow>
     fst (decryptStream A (\<lambda>_. False) i pr (reader_of b) w) = Some (WritePlaintextErr WriteBlocks)"
proof (induction A maxFrameSize b arbitrary: i pr w k p rule: decode_stream.induct)
  case (1 A b)
  note eval = decryptStream.simps [of A "\<lambda>_. False" i pr "reader_of b" w]
    decode_stream.simps [of A maxFrameSize b] cli_eval
  show ?case
  proof (cases rule: frame_cases [where A = A and b = b and mx = maxFrameSize])
    case (ok p1)
    let ?rest = "drop (unat (get_u32 b) + 4) b"
    from ok "1.prems"(3) obtain q where q: "decode_stream A maxFrameSize ?rest = (q, None, rest)" "p = p1 @ q"
      by (auto simp: eval split: prod.splits)
    show ?thesis
    proof (cases "length p1 \<le> k")
      case True
      from Write_fits [OF "1.prems"(1) True] obtain w1 where w1: "Write w p1 = (w1, None)"
        "wr_room w1 = Some (k - length p1)" "wr_full w1 = FullBlock" using "1.prems"(2) by auto
      with ok q "1.prems"(4) True "1.hyps" [of "get_u32 b" "drop 4 b" p1 w1 "k - length p1" q "Suc i"
        "pr + 4 + ucast (get_u32 b)"]
      show ?thesis by (auto simp: eval split: prod.splits)
    next
      case False
      then obtain w1 where "Write w p1 = (w1, Some WriteBlocks)"
        using Write_blocked [OF "1.prems"(1,2), of p1] by auto
      with ok show ?thesis by (simp add: eval)
    qed
  qed (use "1.prems" in \<open>auto simp: eval\<close>)
qed

lemma decryptStream_no_sha:
  "fst (decryptStream A cancelled i pr r w) \<noteq> Some ErrSHA256Mismatch"
proof (induction A cancelled i pr r w rule: decryptStream.induct)
  case (1 A cancelled i pr r w)
  show ?case
    by (subst decryptStream.simps) (auto simp: Let_def split: prod.splits option.splits dest: 1)
qed

section \<open>What an accepted token carries\<close>

lemma check_token_Inr_iff:
  "check_token env token = Inr (cl, key) \<longleftrightarrow>
     (\<exists>m. Parse (env_unmarshal env) token = Inr m
        \<and> token_ok m (env_oor env) (env_now env) IssuerExpected AudienceExpected cl)
     \<and> EqualFold (Algorithm cl) ''AES-256-GCM'' \<and> FormatVersion cl = 1
     \<and> StdDecode (DEKBase64 cl) = Some key \<and> length key = 32"
  by (auto simp: check_token_def res_eq_Inr ParseDecryption_Inr_iff [symmetric] split: sum.splits)

lemma check_token_key_length: "check_token env token = Inr (cl, key) \<Longrightarrow> length key = 32"
  by (simp add: check_token_Inr_iff)

end
