(* ===== verification/Backup_Restore.thy ===== *)
theory Backup_Restore
  imports Encrypt Decrypt_Cli
begin

text \<open>
  The agent's encryptor against the decryptors: what \<open>Encryptor.Stream\<close> writes, the
  command-line tool and the agent's own \<open>Decrypt\<close> read back; what is cut short or left behind by
  a failed upload is refused; and what the format does not protect against.
\<close>

section \<open>The encryptor's output as a stream of the format\<close>

definition agent_stream :: "bytes \<Rightarrow> (nat \<Rightarrow> 96 word) \<Rightarrow> bytes \<Rightarrow> bytes" where
  "agent_stream key nz data =
     encoded_stream (gcm_aead (aes256 key)) (nonced nz 0 (chunks ChunkPlainSize data))"

lemma Encryptor_Stream_ok:
  assumes "NewEncryptor key = Inr e" "wr_room w = None"
  shows "Encryptor_Stream (Some e) (\<lambda>j. Some (nz j)) (reader_of data) w =
    (of_nat (length data), None, wr_append w (agent_stream key nz data))"
  using assms by (simp add: NewEncryptor_Inr_iff Encryptor_Stream_def stream_loop_ok agent_stream_def)

text \<open>Every frame of the agent fits under both decoders' limits.\<close>

lemma agent_frames_fit:
  "\<forall>(w, p) \<in> set (nonced nz i (chunks ChunkPlainSize data)). length p + 28 \<le> maxFrameSize"
proof -
  have "\<forall>p \<in> set (chunks ChunkPlainSize data). length p \<le> 1048576"
    using chunks_bounds [where k = ChunkPlainSize] by (auto simp: ChunkPlainSize_def)
  from nonced_bound [OF this] show ?thesis by (auto simp: maxFrameSize_eq)
qed

lemma decode_agent_stream:
  "decode_stream (gcm_aead (aes256 key)) maxFrameSize (agent_stream key nz data @ junk) = (data, None, junk)"
  unfolding agent_stream_def
  by (subst gcm.decode_encoded [OF agent_frames_fit]) (simp_all add: maxFrameSize_eq)

lemma decrypt_agent_stream:
  "wr_room w = None \<Longrightarrow>
    \<exists>ps. decryptStream (gcm_aead (aes256 key)) (\<lambda>_. False) i pr (reader_of (agent_stream key nz data @ junk)) w =
      (None, reader_of junk, wr_append w data, ps)"
  using decryptStream_refines [of w "gcm_aead (aes256 key)" i pr "agent_stream key nz data @ junk"]
  by (auto simp: decode_agent_stream)

text \<open>An incomplete stream is reported as truncated, however much of it was decoded before.\<close>

lemma decrypt_cut_stream:
  assumes "\<forall>(w, p) \<in> set xs. length p \<le> ChunkPlainSize" "k < length (encoded_stream (gcm_aead E) xs)"
    and "wr_room w = None"
  shows "\<exists>t. fst (decryptStream (gcm_aead E) (\<lambda>_. False) i pr
                 (reader_of (take k (encoded_stream (gcm_aead E) xs))) w) = Some (ErrTruncated t)"
proof -
  have kind: "\<exists>t. x = ErrTruncated t" if "dec_err_kind x = Some e" "e \<in> {NoMarker, PartialHeader, PartialBody}" for x e
    using that by (cases x rule: dec_err_kind.cases) auto
  from assms(1) have "\<forall>(w, p) \<in> set xs. length p + 28 \<le> maxFrameSize"
    by (auto simp: maxFrameSize_eq ChunkPlainSize_def)
  from gcm.decode_truncated [OF this _ assms(2)] obtain q e where
    e: "e \<in> {NoMarker, PartialHeader, PartialBody}"
    "decode_stream (gcm_aead E) maxFrameSize (take k (encoded_stream (gcm_aead E) xs)) = (q, Some e, [])"
    by (auto simp: maxFrameSize_eq)
  with decryptStream_refines [OF assms(3), of "gcm_aead E" i pr "take k (encoded_stream (gcm_aead E) xs)"]
  obtain x ps r w' where "decryptStream (gcm_aead E) (\<lambda>_. False) i pr
      (reader_of (take k (encoded_stream (gcm_aead E) xs))) w = (Some x, r, w', ps)"
    "dec_err_kind x = Some e" by auto
  with kind e(1) show ?thesis by auto
qed

text \<open>The whole of \<open>Run\<close> on an agent's stream with anything appended to it.\<close>

definition plain_env :: "run_env \<Rightarrow> bool" where
  "plain_env env \<longleftrightarrow> output_file env = Some (plain_writer []) \<and> env_cancelled env = (\<lambda>_. False)
     \<and> zstd_new_ok env \<and> zstd_stop env = None \<and> close_out_ok env"

lemma Run_agent_stream:
  assumes "check_token env (Token opts) = Inr (cl, key)" "plain_env env"
    and "input_file env = Some (reader_of (agent_stream key nz data @ junk))"
    and "zstd_decode env data = (dump, True)"
  shows "\<exists>ps. Run env opts =
     (if VerifySHA256 opts \<and> SHA256 cl \<noteq> []
          \<and> \<not> EqualFold (HexEncode (sha256_sum env (agent_stream key nz data))) (SHA256 cl)
      then Some ErrSHA256Mismatch else None,
      Some (if SkipDecompress opts then data else dump), ps)"
proof -
  let ?snk = "sink_of env opts (plain_writer [])"
  have room: "wr_room ?snk = None" and nil: "wr_data ?snk = []"
    using assms(2) by (simp_all add: sink_of_def plain_env_def)
  obtain ps where "decryptStream (gcm_aead (aes256 key)) (\<lambda>_. False) 0 0
      (reader_of (agent_stream key nz data @ junk)) ?snk = (None, reader_of junk, wr_append ?snk data, ps)"
    using decrypt_agent_stream [OF room] by blast
  moreover have "aes_new_gcm key = Some (gcm_aead (aes256 key))"
    using check_token_key_length [OF assms(1)] by (simp add: aes_new_gcm_def)
  moreover have "hashed (reader_of (agent_stream key nz data @ junk)) (reader_of junk) = agent_stream key nz data"
    by (simp add: hashed_def)
  ultimately show ?thesis
    using assms nil by (auto simp: Run_def plain_env_def sink_close_ok_def file_after_def Let_def)
qed

text \<open>The same for any complete stream, in whatever way it was cut into frames.\<close>

lemma Run_complete_stream:
  assumes "check_token env (Token opts) = Inr (cl, key)" "plain_env env"
    and "input_file env = Some (reader_of b)"
    and "decode_stream (gcm_aead (aes256 key)) maxFrameSize b = (data, None, [])"
    and "zstd_decode env data = (dump, True)" "SHA256 cl = HexEncode (sha256_sum env b)"
  shows "\<exists>ps. Run env opts = (None, Some (if SkipDecompress opts then data else dump), ps)"
proof -
  let ?snk = "sink_of env opts (plain_writer [])"
  have room: "wr_room ?snk = None" and nil: "wr_data ?snk = []"
    using assms(2) by (simp_all add: sink_of_def plain_env_def)
  obtain ps where "decryptStream (gcm_aead (aes256 key)) (\<lambda>_. False) 0 0 (reader_of b) ?snk
      = (None, reader_of [], wr_append ?snk data, ps)"
    using decryptStream_refines [OF room, of "gcm_aead (aes256 key)" 0 0 b] assms(4) by auto
  moreover have "aes_new_gcm key = Some (gcm_aead (aes256 key))"
    using check_token_key_length [OF assms(1)] by (simp add: aes_new_gcm_def)
  moreover have "hashed (reader_of b) (reader_of []) = b" by (simp add: hashed_def)
  ultimately show ?thesis
    using assms nil by (auto simp: Run_def plain_env_def sink_close_ok_def file_after_def Let_def)
qed

text \<open>A run that gets past the decryption has written the whole plaintext of a complete stream.\<close>

lemma Run_decrypted:
  assumes "Run env opts = (e, f, ps)" "e = None \<or> e = Some ErrSHA256Mismatch"
    and "input_file env = Some (reader_of b)"
  obtains cl key out p rest where "check_token env (Token opts) = Inr (cl, key)"
    "output_file env = Some out"
    "decode_stream (gcm_aead (aes256 key)) maxFrameSize b = (p, None, rest)"
    "f = Some (if SkipDecompress opts then wr_data out @ p else fst (zstd_decode env p))"
    "\<not> SkipDecompress opts \<longrightarrow> snd (zstd_decode env p)"
    "e = None \<longleftrightarrow> (VerifySHA256 opts \<and> SHA256 cl \<noteq> [] \<longrightarrow>
        EqualFold (HexEncode (sha256_sum env (take (length b - length rest) b))) (SHA256 cl))"
proof -
  from assms(1,2) obtain cl key out where tok: "check_token env (Token opts) = Inr (cl, key)"
    and out: "output_file env = Some out"
    using assms(3) by (auto simp: Run_def check_token_def split: sum.splits option.splits if_splits)
  have gcm: "aes_new_gcm key = Some (gcm_aead (aes256 key))"
    using check_token_key_length [OF tok] by (simp add: aes_new_gcm_def)
  obtain de r snk ps' where D: "decryptStream (gcm_aead (aes256 key)) (env_cancelled env) 0 0
      (reader_of b) (sink_of env opts out) = (de, r, snk, ps')"
    by (metis prod_cases4)
  from assms tok out gcm D have de: "de = None" and fin:
    "f = Some (file_after env opts snk)" "sink_close_ok env opts snk"
    "e = None \<longleftrightarrow> (VerifySHA256 opts \<and> SHA256 cl \<noteq> [] \<longrightarrow>
        EqualFold (HexEncode (sha256_sum env (hashed (reader_of b) r))) (SHA256 cl))"
    using decryptStream_no_sha [of "gcm_aead (aes256 key)" "env_cancelled env" 0 0 "reader_of b" "sink_of env opts out"]
    by (auto simp: Run_def Let_def split: option.splits if_splits)
  from decryptStream_safe [OF D] de obtain p rest where
    "decode_stream (gcm_aead (aes256 key)) maxFrameSize b = (p, None, rest)"
    "wr_data snk = wr_data (sink_of env opts out) @ p" "r = reader_of rest" by auto
  with fin show thesis
    by (intro that [OF tok out])
       (auto simp: file_after_def sink_close_ok_def sink_of_def hashed_def)
qed

section \<open>A concrete environment\<close>

text \<open>Claims, an environment and a token on which the properties of \<open>Run\<close> are evaluated.\<close>

definition example_claims :: "string \<Rightarrow> claims" where
  "example_claims sha =
     [''iss'' \<mapsto> AnyString ''backupy-server'', ''aud'' \<mapsto> AnyString ''backupy-decrypt'',
      ''exp'' \<mapsto> AnyInt64 100, ''sub'' \<mapsto> AnyString ''user'', ''run_id'' \<mapsto> AnyString ''run'',
      ''company_id'' \<mapsto> AnyString ''co'', ''alg'' \<mapsto> AnyString ''aes-256-gcm'',
      ''format_version'' \<mapsto> AnyInt64 1, ''sha256'' \<mapsto> AnyString sha,
      ''dek'' \<mapsto> AnyString ''AAAAAAAAAAAAAAAAAAAAAAAAAAAAAAAAAAAAAAAAAAA='']"

definition example_env :: "bytes \<Rightarrow> string \<Rightarrow> run_env" where
  "example_env file sha =
     \<lparr>env_unmarshal = (\<lambda>_. Some (example_claims sha)), env_oor = (\<lambda>_. 0), env_now = 0,
      input_file = Some (reader_of file), output_file = Some (plain_writer []),
      env_cancelled = (\<lambda>_. False), sha256_sum = take 32, zstd_new_ok = True, zstd_stop = None,
      zstd_decode = (\<lambda>b. (b, True)), close_out_ok = True\<rparr>"

definition example_opts :: run_options where
  "example_opts = \<lparr>Token = ''a.AA.c'', VerifySHA256 = True, SkipDecompress = False\<rparr>"

definition example_cl :: "string \<Rightarrow> DecryptionClaims" where
  "example_cl sha =
     \<lparr>Issuer = ''backupy-server'', Subject = ''user'', Audience = ''backupy-decrypt'', IssuedAt = 0,
      ExpiresAt = 100, RunID = ''run'', CompanyID = ''co'',
      DEKBase64 = ''AAAAAAAAAAAAAAAAAAAAAAAAAAAAAAAAAAAAAAAAAAA='', Algorithm = ''aes-256-gcm'',
      FormatVersion = 1, SHA256 = sha\<rparr>"

lemma example_dek:
  "StdDecode ''AAAAAAAAAAAAAAAAAAAAAAAAAAAAAAAAAAAAAAAAAAA='' = Some (replicate 32 0)"
  by code_simp

lemma example_alg: "EqualFold ''aes-256-gcm'' ''AES-256-GCM''"
  by code_simp

lemma example_parse: "Parse (\<lambda>_. Some m) ''a.AA.c'' = Inr m"
  by (simp add: Parse_def RawURLDecode_def strip_newlines_def char_code_def b64_group_def b64_val_def)

lemma check_token_example:
  "check_token (example_env file sha) (Token example_opts) = Inr (example_cl sha, replicate 32 0)"
  unfolding check_token_Inr_iff
  by (simp add: example_env_def example_parse token_ok_def example_cl_def example_claims_def optStr_def
      example_dek example_alg unix_sec_id IssuerExpected_def AudienceExpected_def example_opts_def)

lemma length_HexEncode: "length (HexEncode b) = 2 * length b"
  by (induction b) (simp_all add: HexEncode_def)

lemma HexEncode_neq_odd: "odd (length s) \<Longrightarrow> \<not> EqualFold (HexEncode b) s"
  by (metis EqualFold_def length_ToLower length_HexEncode dvd_triv_left)

lemma plain_env_example [simp]: "plain_env (example_env file sha)"
  by (simp add: plain_env_def example_env_def)

section \<open>Properties\<close>

text \<open>C11: A backup that the agent encrypted is restored by the command-line tool exactly: with a
  32-byte DEK, \<open>Stream\<close> of any plaintext succeeds, reports its length, and \<open>decryptStream\<close> on
  the bytes it wrote succeeds, writes the plaintext and has read the whole file.\<close>

theorem agent_encrypt_cli_decrypt:
  assumes "NewEncryptor key = Inr e"
  shows "\<exists>out ps.
    Encryptor_Stream (Some e) (\<lambda>j. Some (nz j)) (reader_of data) (plain_writer [])
      = (of_nat (length data), None, plain_writer out)
    \<and> decryptStream (gcm_aead (aes256 key)) (\<lambda>_. False) 0 0 (reader_of out) (plain_writer [])
      = (None, reader_of [], plain_writer data, ps)"
  using Encryptor_Stream_ok [OF assms, of "plain_writer []" nz data]
    decrypt_agent_stream [of "plain_writer []" key 0 0 nz data "[]"] by auto

theorem agent_encrypt_cli_decrypt_witness:
  "\<exists>out ps.
    Encryptor_Stream (Some \<lparr>dek = replicate 32 7, enc_aead = Some (gcm_aead (aes256 (replicate 32 7)))\<rparr>)
       (\<lambda>j. Some (of_nat j)) (reader_of [1, 2, 3]) (plain_writer [])
      = (of_nat (length [1 :: byte, 2, 3]), None, plain_writer out)
    \<and> decryptStream (gcm_aead (aes256 (replicate 32 7))) (\<lambda>_. False) 0 0 (reader_of out) (plain_writer [])
      = (None, reader_of [], plain_writer [1, 2, 3], ps)"
  by (rule agent_encrypt_cli_decrypt) (simp add: NewEncryptor_ok)

text \<open>The agent's own \<open>Decrypt\<close> inverts \<open>Stream\<close> and counts the same plaintext bytes.\<close>

theorem agent_encrypt_agent_decrypt:
  assumes "NewEncryptor key = Inr e"
  shows "\<exists>out.
    Encryptor_Stream (Some e) (\<lambda>j. Some (nz j)) (reader_of data) (plain_writer [])
      = (of_nat (length data), None, plain_writer out)
    \<and> Encryptor_Decrypt (Some e) (reader_of out) (plain_writer [])
      = (of_nat (length data), None, reader_of [], plain_writer data)"
proof -
  let ?A = "gcm_aead (aes256 key)"
  from assms have e: "e = \<lparr>dek = key, enc_aead = Some ?A\<rparr>" by (simp add: NewEncryptor_Inr_iff)
  have "decode_stream ?A 4294967295 (agent_stream key nz data) = (data, None, [])"
    using decode_stream_mono [of ?A maxFrameSize _ data "[]" 4294967295] decode_agent_stream [of key nz data "[]"]
    by (simp add: maxFrameSize_eq)
  then have "Encryptor_Decrypt (Some e) (reader_of (agent_stream key nz data)) (plain_writer [])
      = (of_nat (length data), None, reader_of [], plain_writer data)"
    using decrypt_loop_refines [of "plain_writer []" ?A 0 "agent_stream key nz data"]
    by (auto simp: e Encryptor_Decrypt_def decrypts_as_def split: prod.splits)
  with Encryptor_Stream_ok [OF assms, of "plain_writer []" nz data] show ?thesis by auto
qed

theorem agent_encrypt_agent_decrypt_witness:
  "\<exists>out.
    Encryptor_Stream (Some \<lparr>dek = replicate 32 7, enc_aead = Some (gcm_aead (aes256 (replicate 32 7)))\<rparr>)
       (\<lambda>j. Some (of_nat j)) (reader_of [1, 2, 3]) (plain_writer [])
      = (of_nat (length [1 :: byte, 2, 3]), None, plain_writer out)
    \<and> Encryptor_Decrypt (Some \<lparr>dek = replicate 32 7, enc_aead = Some (gcm_aead (aes256 (replicate 32 7)))\<rparr>)
         (reader_of out) (plain_writer [])
      = (of_nat (length [1 :: byte, 2, 3]), None, reader_of [], plain_writer [1, 2, 3])"
  by (rule agent_encrypt_agent_decrypt [where key = "replicate 32 7"]) (simp add: NewEncryptor_ok)

text \<open>C13: A truncated upload is always noticed: the command-line tool refuses every proper prefix
  of what the agent writes with the truncation error, wherever the cut is.\<close>

theorem truncated_backup_refused:
  assumes "NewEncryptor key = Inr e"
    and "Encryptor_Stream (Some e) (\<lambda>j. Some (nz j)) (reader_of data) (plain_writer []) = (n, err, w)"
    and "k < length (wr_data w)"
  shows "\<exists>t. fst (decryptStream (gcm_aead (aes256 key)) (\<lambda>_. False) 0 0
                  (reader_of (take k (wr_data w))) (plain_writer [])) = Some (ErrTruncated t)"
proof -
  have w: "wr_data w = encoded_stream (gcm_aead (aes256 key)) (nonced nz 0 (chunks ChunkPlainSize data))"
    using Encryptor_Stream_ok [OF assms(1), of "plain_writer []" nz data] assms(2)
    by (auto simp: agent_stream_def)
  have "\<forall>(w, p) \<in> set (nonced nz 0 (chunks ChunkPlainSize data)). length p \<le> ChunkPlainSize"
    by (rule nonced_bound) (blast dest: chunks_bounds)
  with assms(3) show ?thesis
    unfolding w by (intro decrypt_cut_stream) simp_all
qed

theorem truncated_backup_refused_witness:
  "\<exists>t. fst (decryptStream (gcm_aead (aes256 (replicate 32 7))) (\<lambda>_. False) 0 0
      (reader_of (take 3 (wr_data (plain_writer (agent_stream (replicate 32 7) of_nat [1, 2, 3])))))
      (plain_writer [])) = Some (ErrTruncated t)"
proof (rule truncated_backup_refused)
  show key: "NewEncryptor (replicate 32 7) =
      Inr \<lparr>dek = replicate 32 7, enc_aead = Some (gcm_aead (aes256 (replicate 32 7)))\<rparr>"
    by (simp add: NewEncryptor_ok)
  show "Encryptor_Stream (Some \<lparr>dek = replicate 32 7, enc_aead = Some (gcm_aead (aes256 (replicate 32 7)))\<rparr>)
      (\<lambda>j. Some (of_nat j)) (reader_of [1, 2, 3]) (plain_writer []) =
      (of_nat (length [1 :: byte, 2, 3]), None, plain_writer (agent_stream (replicate 32 7) of_nat [1, 2, 3]))"
    by (simp only: Encryptor_Stream_ok [OF key] plain_writer_simps wr_append_plain_writer append_Nil)
  show "3 < length (wr_data (plain_writer (agent_stream (replicate 32 7) of_nat [1, 2, 3])))"
    by (simp add: agent_stream_def encoded_stream_def)
qed

text \<open>C14: A failed encryption never looks like a backup: whatever made \<open>Stream\<close> stop (the reader,
  the nonce source or the writer at any byte), the command-line tool refuses the bytes that
  reached the writer with the truncation error.\<close>

theorem failed_encryption_refused:
  assumes "NewEncryptor key = Inr e" "wr_data w = []"
    and "Encryptor_Stream (Some e) rng r w = (n, Some err, w')"
  shows "\<exists>t. fst (decryptStream (gcm_aead (aes256 key)) (\<lambda>_. False) 0 0
                  (reader_of (wr_data w')) (plain_writer [])) = Some (ErrTruncated t)"
proof -
  from assms(1,3) have "stream_loop (gcm_aead (aes256 key)) rng 0 0 r w = (n, Some err, w')"
    by (simp add: NewEncryptor_Inr_iff Encryptor_Stream_def)
  from stream_loop_outcome [OF this] assms(2)
  have "stream_prefix (gcm_aead (aes256 key)) (rd_data r) (wr_data w') False" by auto
  then obtain xs k where "wr_data w' = take k (encoded_stream (gcm_aead (aes256 key)) xs)"
    "\<forall>(w, p) \<in> set xs. length p \<le> ChunkPlainSize" "k < length (encoded_stream (gcm_aead (aes256 key)) xs)"
    unfolding stream_prefix_def by (auto simp: le_less)
  then show ?thesis by (simp add: decrypt_cut_stream)
qed

theorem failed_encryption_refused_witness:
  "\<exists>t. fst (decryptStream (gcm_aead (aes256 (replicate 32 7))) (\<lambda>_. False) 0 0
      (reader_of (wr_data (plain_writer []))) (plain_writer [])) = Some (ErrTruncated t)"
proof (rule failed_encryption_refused)
  show "NewEncryptor (replicate 32 7) =
      Inr \<lparr>dek = replicate 32 7, enc_aead = Some (gcm_aead (aes256 (replicate 32 7)))\<rparr>"
    by (simp add: NewEncryptor_ok)
  show "Encryptor_Stream (Some \<lparr>dek = replicate 32 7, enc_aead = Some (gcm_aead (aes256 (replicate 32 7)))\<rparr>)
      (\<lambda>_. None) (reader_of [1, 2, 3]) (plain_writer []) = (0, Some ReadNonce, plain_writer [])"
    by (simp add: Encryptor_Stream_def, subst stream_loop.simps)
       (simp add: ReadFull_reader_of write_frame_def ChunkPlainSize_def)
qed simp

text \<open>The agent's \<open>Decrypt\<close> accepts whatever the command-line tool accepts, with the same
  plaintext and the same rest of the input; the tool is stricter only in the size of a frame.\<close>

theorem cli_accepts_agent_accepts:
  assumes "decryptStream A (\<lambda>_. False) 0 0 (reader_of b) w = (None, r', w', ps)"
    and "wr_room w = None" "enc_aead e = Some A"
  shows "\<exists>n. Encryptor_Decrypt (Some e) (reader_of b) w = (n, None, r', w')"
proof -
  from decryptStream_safe [OF assms(1)] obtain p rest where
    "decode_stream A maxFrameSize b = (p, None, rest)" and r': "r' = reader_of rest" by auto
  moreover from this have w': "w' = wr_append w p"
    using decryptStream_refines [OF assms(2), of A 0 0 b] assms(1) by auto
  ultimately have "decode_stream A 4294967295 b = (p, None, rest)"
    using decode_stream_mono [of A maxFrameSize b p rest 4294967295] by (simp add: maxFrameSize_eq)
  with decrypt_loop_refines [OF assms(2), of A 0 b] assms(3) r' w' show ?thesis
    by (auto simp: Encryptor_Decrypt_def decrypts_as_def split: prod.splits)
qed

theorem cli_accepts_agent_accepts_witness:
  "\<exists>n. Encryptor_Decrypt (Some \<lparr>dek = [], enc_aead = Some (gcm_aead id)\<rparr>) (reader_of [0, 0, 0, 0])
      (plain_writer []) = (n, None, reader_of [], plain_writer [])"
proof (rule cli_accepts_agent_accepts)
  show "decryptStream (gcm_aead id) (\<lambda>_. False) 0 0 (reader_of [0, 0, 0, 0]) (plain_writer []) =
      (None, reader_of [], plain_writer [], [4])"
    by (subst decryptStream.simps) (simp add: ReadFull_reader_of cli_constants get_u32_def be_val_def)
qed simp_all

text \<open>C17: The format does not protect the order or the number of frames: any sequence made of frames
  of one backup (swapped, repeated or left out), closed by the end marker, is decrypted without
  an error into the plaintexts in that order.\<close>

theorem rearranged_frames_accepted:
  assumes "set ys \<subseteq> set (nonced nz 0 (chunks ChunkPlainSize data))"
  shows "\<exists>ps. decryptStream (gcm_aead (aes256 key)) (\<lambda>_. False) 0 0
           (reader_of (encoded_stream (gcm_aead (aes256 key)) ys)) (plain_writer [])
         = (None, reader_of [], plain_writer (concat (map snd ys)), ps)"
proof -
  have "\<forall>(w, p) \<in> set ys. length p + 28 \<le> maxFrameSize"
    using agent_frames_fit [of nz 0 data] assms by blast
  then have "decode_stream (gcm_aead (aes256 key)) maxFrameSize
      (encoded_stream (gcm_aead (aes256 key)) ys @ []) = (concat (map snd ys), None, [])"
    by (rule gcm.decode_encoded) (simp add: maxFrameSize_eq)
  then show ?thesis
    using decryptStream_refines [of "plain_writer []" "gcm_aead (aes256 key)" 0 0
        "encoded_stream (gcm_aead (aes256 key)) ys"] by auto
qed

theorem rearranged_frames_accepted_witness:
  "\<exists>ps. decryptStream (gcm_aead (aes256 (replicate 32 7))) (\<lambda>_. False) 0 0
     (reader_of (encoded_stream (gcm_aead (aes256 (replicate 32 7))) [(5, [1, 2, 3]), (5, [1, 2, 3])]))
     (plain_writer [])
   = (None, reader_of [], plain_writer (concat (map snd [(5 :: 96 word, [1, 2, 3]), (5, [1, 2, 3])])), ps)"
  by (rule rearranged_frames_accepted [where nz = "\<lambda>_. 5" and data = "[1, 2, 3]"])
     (simp add: chunks_short ChunkPlainSize_def)

text \<open>C15: Only authenticated plaintext reaches the output: for every input, every writer and every
  point of cancellation, what the tool wrote is a prefix of the plaintexts of the frames that
  were opened, and when it reports no error it is all of them and the end marker was read.\<close>

theorem cli_writes_only_authenticated:
  assumes "decryptStream A cancelled i pr (reader_of b) w = (e, r', w', ps)"
  shows "(\<exists>k. wr_data w' = wr_data w @ take k (fst (decode_stream A maxFrameSize b)))
     \<and> (e = None \<longrightarrow> (\<exists>p rest. decode_stream A maxFrameSize b = (p, None, rest)
          \<and> wr_data w' = wr_data w @ p \<and> r' = reader_of rest))"
  using assms by (rule decryptStream_safe)

theorem cli_writes_only_authenticated_witness:
  "\<exists>p rest. decode_stream (gcm_aead id) maxFrameSize [0, 0, 0, 0] = (p, None, rest)
     \<and> wr_data (plain_writer []) = wr_data (plain_writer []) @ p \<and> reader_of [] = reader_of rest"
proof -
  have "decryptStream (gcm_aead id) (\<lambda>_. False) 0 0 (reader_of [0, 0, 0, 0]) (plain_writer []) =
      (None, reader_of [], plain_writer [], [4])"
    by (subst decryptStream.simps) (simp add: ReadFull_reader_of cli_constants get_u32_def be_val_def)
  from cli_writes_only_authenticated [OF this] show ?thesis by simp
qed

text \<open>C12: \<open>Run\<close> restores a backup end to end: with an accepted token for the DEK, the agent's file,
  a decoder that inverts the compression and the recorded hash, it ends without an error and
  the output file holds the dump.\<close>

theorem Run_restores_backup:
  assumes "check_token env (Token opts) = Inr (cl, key)" "plain_env env"
    and "input_file env = Some (reader_of (agent_stream key nz (compress dump)))"
    and "zstd_decode env (compress dump) = (dump, True)" "\<not> SkipDecompress opts"
    and "SHA256 cl = HexEncode (sha256_sum env (agent_stream key nz (compress dump)))"
  shows "\<exists>ps. Run env opts = (None, Some dump, ps)"
  using Run_agent_stream [where junk = "[]" and data = "compress dump" and nz = nz and dump = dump, OF assms(1,2)]
    assms(3-) by simp

theorem Run_restores_backup_witness:
  "\<exists>ps. Run (example_env (agent_stream (replicate 32 0) of_nat [1, 2, 3])
                (HexEncode (take 32 (agent_stream (replicate 32 0) of_nat [1, 2, 3])))) example_opts
     = (None, Some [1, 2, 3], ps)"
  by (rule Run_restores_backup [where compress = id, OF check_token_example])
     (simp_all add: example_env_def plain_env_def example_opts_def example_cl_def)

text \<open>A run that reports success has restored a complete, authentic file: the input starts with
  a whole sequence of authentic frames and the end marker, the output file holds exactly what
  they decode to, and the hash of the bytes read is the recorded one when it is checked.\<close>

theorem Run_success_is_authentic:
  assumes "Run env opts = (None, f, ps)" "input_file env = Some (reader_of b)"
  shows "\<exists>cl key out p rest. check_token env (Token opts) = Inr (cl, key) \<and> output_file env = Some out
    \<and> decode_stream (gcm_aead (aes256 key)) maxFrameSize b = (p, None, rest)
    \<and> f = Some (if SkipDecompress opts then wr_data out @ p else fst (zstd_decode env p))
    \<and> (VerifySHA256 opts \<and> SHA256 cl \<noteq> [] \<longrightarrow>
         EqualFold (HexEncode (sha256_sum env (take (length b - length rest) b))) (SHA256 cl))"
proof -
  from Run_decrypted [OF assms(1) _ assms(2)] show ?thesis by (metis (no_types, lifting))
qed

lemma Run_example:
  "\<exists>ps. Run (example_env (agent_stream (replicate 32 0) of_nat data)
                (HexEncode (take 32 (agent_stream (replicate 32 0) of_nat data)))) example_opts
     = (None, Some data, ps)"
  using Run_agent_stream [where junk = "[]" and dump = data and data = data and nz = of_nat,
      OF check_token_example plain_env_example, of "agent_stream (replicate 32 0) of_nat data"
        "HexEncode (take 32 (agent_stream (replicate 32 0) of_nat data))"]
  by (simp add: example_env_def example_opts_def example_cl_def)

theorem Run_success_is_authentic_witness:
  "\<exists>cl key out p rest.
    check_token (example_env (agent_stream (replicate 32 0) of_nat [1])
        (HexEncode (take 32 (agent_stream (replicate 32 0) of_nat [1])))) (Token example_opts) = Inr (cl, key)
    \<and> decode_stream (gcm_aead (aes256 key)) maxFrameSize (agent_stream (replicate 32 0) of_nat [1]) = (p, None, rest)"
proof -
  obtain ps where "Run (example_env (agent_stream (replicate 32 0) of_nat [1])
        (HexEncode (take 32 (agent_stream (replicate 32 0) of_nat [1])))) example_opts = (None, Some [1], ps)"
    using Run_example by blast
  from Run_success_is_authentic [OF this, of "agent_stream (replicate 32 0) of_nat [1]"] show ?thesis
    by (simp add: example_env_def) metis
qed

text \<open>What follows the end marker is never looked at: appending anything to a backup leaves the
  result of \<open>Run\<close> a success with the same output, the recorded hash of the whole file included,
  because only the bytes up to the marker are hashed.\<close>

theorem Run_ignores_trailing_bytes:
  assumes "check_token env (Token opts) = Inr (cl, key)" "plain_env env"
    and "input_file env = Some (reader_of (agent_stream key nz (compress dump) @ junk))"
    and "zstd_decode env (compress dump) = (dump, True)" "\<not> SkipDecompress opts"
    and "SHA256 cl = HexEncode (sha256_sum env (agent_stream key nz (compress dump)))"
  shows "\<exists>ps. Run env opts = (None, Some dump, ps)"
  using Run_agent_stream [OF assms(1,2,3,4)] assms(5,6) by simp

theorem Run_ignores_trailing_bytes_witness:
  "\<exists>ps. Run (example_env (agent_stream (replicate 32 0) of_nat [1, 2, 3] @ [9, 9])
                (HexEncode (take 32 (agent_stream (replicate 32 0) of_nat [1, 2, 3])))) example_opts
     = (None, Some [1, 2, 3], ps)"
  by (rule Run_ignores_trailing_bytes [where compress = id, OF check_token_example])
     (simp_all add: example_env_def plain_env_def example_opts_def example_cl_def)

text \<open>A wrong hash is reported only after the fact: when \<open>Run\<close> ends with the hash error, the
  whole plaintext has already been decrypted, decompressed and left in the output file.\<close>

theorem hash_error_after_restore:
  assumes "Run env opts = (Some ErrSHA256Mismatch, f, ps)" "input_file env = Some (reader_of b)"
  shows "\<exists>cl key out p rest. check_token env (Token opts) = Inr (cl, key) \<and> output_file env = Some out
    \<and> decode_stream (gcm_aead (aes256 key)) maxFrameSize b = (p, None, rest)
    \<and> f = Some (if SkipDecompress opts then wr_data out @ p else fst (zstd_decode env p))
    \<and> \<not> EqualFold (HexEncode (sha256_sum env (take (length b - length rest) b))) (SHA256 cl)"
proof -
  from Run_decrypted [OF assms(1) _ assms(2)] show ?thesis by (metis (no_types, lifting) option.distinct(1))
qed

theorem hash_error_after_restore_witness:
  "\<exists>cl key p rest.
    check_token (example_env (agent_stream (replicate 32 0) of_nat [1]) ''f'') (Token example_opts) = Inr (cl, key)
    \<and> decode_stream (gcm_aead (aes256 key)) maxFrameSize (agent_stream (replicate 32 0) of_nat [1]) = (p, None, rest)
    \<and> Some [1] = Some p"
proof -
  obtain ps where "Run (example_env (agent_stream (replicate 32 0) of_nat [1]) ''f'') example_opts =
      (Some ErrSHA256Mismatch, Some [1], ps)"
    using Run_agent_stream [where junk = "[]" and dump = "[1]" and data = "[1]" and nz = of_nat,
      OF check_token_example plain_env_example, of "agent_stream (replicate 32 0) of_nat [1]" "''f''"]
    by (auto simp: example_env_def example_opts_def example_cl_def HexEncode_neq_odd)
  from hash_error_after_restore [OF this, of "agent_stream (replicate 32 0) of_nat [1]"] show ?thesis
    by (auto simp: example_env_def example_opts_def)
qed

text \<open>C40: A decompressor that stops early hangs the tool: if the goroutine that reads the pipe ends
  (a decoding error, a full disk) before it has taken the whole plaintext, the decrypting side
  stays in \<open>Write\<close>, for no one closes the reading end.\<close>

theorem stopped_decoder_hangs:
  assumes "check_token env (Token opts) = Inr (cl, key)" "\<not> SkipDecompress opts" "zstd_new_ok env"
    and "input_file env = Some (reader_of b)" "output_file env = Some out"
    and "env_cancelled env = (\<lambda>_. False)" "zstd_stop env = Some k"
    and "decode_stream (gcm_aead (aes256 key)) maxFrameSize b = (p, None, rest)" "k < length p"
  shows "fst (Run env opts) = Some (WritePlaintextErr WriteBlocks)"
proof -
  have "fst (decryptStream (gcm_aead (aes256 key)) (\<lambda>_. False) 0 0 (reader_of b) (sink_of env opts out))
      = Some (WritePlaintextErr WriteBlocks)"
    by (rule decryptStream_blocks [OF _ _ assms(8,9)]) (simp_all add: sink_of_def assms(2,7))
  with assms check_token_key_length [OF assms(1)] show ?thesis
    by (auto simp: Run_def aes_new_gcm_def split: prod.splits)
qed

theorem stopped_decoder_hangs_witness:
  "fst (Run ((example_env (agent_stream (replicate 32 0) of_nat [1, 2, 3]) [])\<lparr>zstd_stop := Some 1\<rparr>) example_opts)
     = Some (WritePlaintextErr WriteBlocks)"
proof (rule stopped_decoder_hangs)
  show "check_token ((example_env (agent_stream (replicate 32 0) of_nat [1, 2, 3]) [])\<lparr>zstd_stop := Some 1\<rparr>)
      (Token example_opts) = Inr (example_cl [], replicate 32 0)"
    using check_token_example [of "agent_stream (replicate 32 0) of_nat [1, 2, 3]" "[]"]
    by (simp add: check_token_def)
  show "decode_stream (gcm_aead (aes256 (replicate 32 0))) maxFrameSize
      (agent_stream (replicate 32 0) of_nat [1, 2, 3]) = ([1, 2, 3], None, [])"
    using decode_agent_stream [of "replicate 32 0" of_nat "[1, 2, 3]" "[]"] by simp
  show "1 < length [1 :: byte, 2, 3]" by simp
qed (simp_all add: example_env_def example_opts_def)

text \<open>C16: A token is accepted exactly when all of its checks pass (issuer, audience, expiry, every
  required claim a non-empty string, an AES-256-GCM algorithm, format version 1 and a DEK that
  is 32 bytes of base64), and the claims handed on are the ones that were checked.\<close>

theorem accepted_token:
  "check_token env token = Inr (cl, key) \<longleftrightarrow>
     (\<exists>m. Parse (env_unmarshal env) token = Inr m
        \<and> token_ok m (env_oor env) (env_now env) ''backupy-server'' ''backupy-decrypt'' cl)
     \<and> EqualFold (Algorithm cl) ''AES-256-GCM'' \<and> FormatVersion cl = 1
     \<and> StdDecode (DEKBase64 cl) = Some key \<and> length key = 32"
  by (simp only: check_token_Inr_iff IssuerExpected_def AudienceExpected_def)

end
