(* ===== verification/Go_Float.thy ===== *)
theory Go_Float
  imports Complex_Main "HOL-Library.Log_Nat" Prelude
begin

text \<open>
  \<open>float64\<close> arithmetic on the rationals: every operation is the exact one followed by \<open>fl64\<close>,
  rounding to the nearest number with 53 significant bits (ties to even, the fixed spacing of
  the subnormal range below \<open>2 ^ -1022\<close>). Overflow to infinity does not occur in this program.
\<close>

definition round_even :: "rat \<Rightarrow> int" where
  "round_even q =
     (let f = \<lfloor>q\<rfloor>; d = q - of_int f
      in if d < 1 / 2 then f else if 1 / 2 < d then f + 1 else if even f then f else f + 1)"

text \<open>How far a number below 1 has to be doubled to reach 1, at most \<open>n\<close> times.\<close>

fun doublings :: "nat \<Rightarrow> rat \<Rightarrow> nat" where
  "doublings 0 x = 0"
| "doublings (Suc n) x = (if 1 \<le> x then 0 else Suc (doublings n (2 * x)))"

definition ulp64 :: "rat \<Rightarrow> rat" where
  "ulp64 x =
     (if 1 \<le> \<bar>x\<bar> then 2 ^ (floorlog 2 (nat \<lfloor>\<bar>x\<bar>\<rfloor>) - 1) / 2 ^ 52
      else 1 / 2 ^ (52 + doublings 1022 \<bar>x\<bar>))"

definition fl64 :: "rat \<Rightarrow> rat" where
  "fl64 x = of_int (round_even (x / ulp64 x)) * ulp64 x"

text \<open>Conversion to an integer type: truncation towards zero (of a value that fits).\<close>

definition trunc :: "rat \<Rightarrow> int" where
  "trunc x = (if 0 \<le> x then \<lfloor>x\<rfloor> else \<lceil>x\<rceil>)"

lemma round_even_of_int [simp]: "round_even (of_int n) = n"
  by (simp add: round_even_def)

lemma trunc_of_int [simp]: "trunc (of_int n) = n"
  by (simp add: trunc_def)

lemma round_even_error: "\<bar>of_int (round_even q) - q\<bar> \<le> 1 / 2"
proof -
  have "of_int \<lfloor>q\<rfloor> \<le> q" "q < of_int \<lfloor>q\<rfloor> + 1" by linarith+
  then show ?thesis unfolding round_even_def Let_def
    by (auto simp: abs_le_iff split: if_splits)
qed

lemma ulp64_pos: "0 < ulp64 x"
  by (simp add: ulp64_def)

lemma ulp64_le: "ulp64 x \<le> max 1 \<bar>x\<bar> / 2 ^ 52"
proof (cases "1 \<le> \<bar>x\<bar>")
  case True
  define n where "n = nat \<lfloor>\<bar>x\<bar>\<rfloor>"
  have "0 < n" using True by (simp add: n_def)
  then have "2 ^ (floorlog 2 n - 1) \<le> n" using floorlog_bounds [of n 2] by simp
  then have "(2 ^ (floorlog 2 n - 1) :: rat) \<le> of_nat n"
    by (metis of_nat_le_iff of_nat_numeral of_nat_power)
  also have "\<dots> \<le> \<bar>x\<bar>" using True by (simp add: n_def)
  finally show ?thesis using True by (simp add: ulp64_def n_def [symmetric] max_def divide_right_mono)
next
  case False
  have "(1 :: rat) * 2 ^ 52 \<le> 2 ^ (52 + doublings 1022 \<bar>x\<bar>)"
    by (simp only: power_add mult_1_left) (metis mult_left_mono mult_1_right one_le_power one_le_numeral zero_le_numeral zero_le_power)
  with False show ?thesis by (simp add: ulp64_def max_def frac_le)
qed

lemma fl64_error: "\<bar>fl64 x - x\<bar> \<le> max 1 \<bar>x\<bar> / 2 ^ 53"
proof -
  have u: "0 < ulp64 x" by (rule ulp64_pos)
  have "fl64 x - x = (of_int (round_even (x / ulp64 x)) - x / ulp64 x) * ulp64 x"
    using u by (simp add: fl64_def left_diff_distrib)
  then have "\<bar>fl64 x - x\<bar> = \<bar>of_int (round_even (x / ulp64 x)) - x / ulp64 x\<bar> * ulp64 x"
    using u by (simp add: abs_mult)
  also have "\<dots> \<le> 1 / 2 * ulp64 x"
    by (rule mult_right_mono [OF round_even_error]) (use u in simp)
  also have "\<dots> \<le> 1 / 2 * (max 1 \<bar>x\<bar> / 2 ^ 52)"
    using ulp64_le [of x] by (intro mult_left_mono) simp_all
  finally show ?thesis by simp
qed

text \<open>Cruder bounds with small numerals, for the estimates of a whole formula.\<close>

lemma fl64_near:
  assumes "\<bar>x\<bar> \<le> m" "1 \<le> m"
  shows "x - m / 1000000000 \<le> fl64 x" "fl64 x \<le> x + m / 1000000000"
proof -
  have "max 1 \<bar>x\<bar> / 2 ^ 53 \<le> m / 1000000000" using assms by (intro frac_le) auto
  with fl64_error [of x] have "\<bar>fl64 x - x\<bar> \<le> m / 1000000000" by linarith
  then show "x - m / 1000000000 \<le> fl64 x" "fl64 x \<le> x + m / 1000000000" by linarith+
qed

text \<open>Integers of at most 53 bits are exact.\<close>

lemma fl64_of_int:
  assumes "\<bar>n\<bar> < 2 ^ 53"
  shows "fl64 (of_int n) = of_int n"
proof (cases "n = 0")
  case True
  then show ?thesis by (simp add: fl64_def round_even_def)
next
  case False
  define k where "k = floorlog 2 (nat \<bar>n\<bar>) - 1"
  have "nat \<lfloor>\<bar>of_int n :: rat\<bar>\<rfloor> = nat \<bar>n\<bar>" by (metis floor_of_int of_int_abs)
  moreover have "1 \<le> \<bar>of_int n :: rat\<bar>" using False by (metis of_int_abs of_int_1_le_iff zero_less_abs_iff zless_imp_add1_zle add_0)
  ultimately have u: "ulp64 (of_int n) = 2 ^ k / 2 ^ 52" by (simp add: ulp64_def k_def)
  have "2 ^ k \<le> nat \<bar>n\<bar>" using floorlog_bounds [of "nat \<bar>n\<bar>" 2] False by (simp add: k_def)
  also have "nat \<bar>n\<bar> < 2 ^ 53" using assms by (simp add: nat_less_iff)
  finally have "(2 :: nat) ^ k < 2 ^ 53" .
  then have "k < 53" by (rule power_less_imp_less_exp [rotated]) simp
  then have split: "(2 :: rat) ^ 52 = 2 ^ k * 2 ^ (52 - k)" by (simp only: power_add [symmetric]) simp
  have u': "ulp64 (of_int n) = 1 / 2 ^ (52 - k)" unfolding u split by simp
  have q: "of_int n / ulp64 (of_int n) = of_int (n * 2 ^ (52 - k))" unfolding u' by simp
  show ?thesis by (simp only: fl64_def q round_even_of_int) (simp add: u')
qed

end
