(* ===== verification/Cli_Output.thy ===== *)
theory Cli_Output
  imports Decrypt_Cli Go_Float
begin

text \<open>
  What \<open>backupy-decrypt\<close> prints (\<open>cmd/backupy-decrypt/main.go\<close>): the version, the usage, errors, the
  progress and the final line. Sizes are formatted with \<open>float64\<close> division and \<open>%.2f\<close>.
\<close>

section \<open>Sizes\<close>

text \<open>\<open>%.2f\<close> of a number that is not negative: rounded to hundredths, ties to even.\<close>

definition fixed2 :: "rat \<Rightarrow> string" where
  "fixed2 x = (let h = nat (round_even (100 * x)) in FormatUint (h div 100) @ ''.'' @ [digit_char (h mod 100 div 10), digit_char (h mod 10)])"

definition KB :: int where "KB = 2 ^ 10"
definition MB :: int where "MB = 2 ^ 20"
definition GB :: int where "GB = 2 ^ 30"

definition humanBytes :: "int64 \<Rightarrow> string" where
  "humanBytes n =
     (let v = sint n
      in if v \<ge> GB then fixed2 (fl64 (fl64 (of_int v) / of_int GB)) @ '' GiB''
         else if v \<ge> MB then fixed2 (fl64 (fl64 (of_int v) / of_int MB)) @ '' MiB''
         else if v \<ge> KB then fixed2 (fl64 (fl64 (of_int v) / of_int KB)) @ '' KiB''
         else (if v < 0 then ''-'' else []) @ FormatUint (nat \<bar>v\<bar>) @ '' B'')"

section \<open>Progress\<close>

text \<open>The closure of \<open>makeProgressFn\<close>: its \<open>last\<close>, and what a call prints.\<close>

definition progress_fn :: "int64 \<Rightarrow> int64 \<Rightarrow> int64 \<times> string option" where
  "progress_fn prev n = (if sint (n - prev) < 2 ^ 20 then (prev, None) else (n, Some ([char_of (13 :: nat)] @ ''processed '' @ humanBytes n)))"

fun progress_calls :: "int64 \<Rightarrow> int64 list \<Rightarrow> string list" where
  "progress_calls prev [] = []"
| "progress_calls prev (n # ns) =
     (case progress_fn prev n of
        (prev1, None) \<Rightarrow> progress_calls prev1 ns
      | (prev1, Some line) \<Rightarrow> line # progress_calls prev1 ns)"

definition makeProgressFn :: "int64 list \<Rightarrow> string list" where
  "makeProgressFn calls = progress_calls 0 calls"

section \<open>The output of main\<close>

datatype cli_failure = ReadTokenFile | RunFailed dec_err

datatype cli_line = VersionLine string | UsageText | ErrorLine cli_failure | ProgressLine string | DoneLine string

definition cli_token :: "(string \<Rightarrow> bytes option) \<Rightarrow> cli_flags \<Rightarrow> string option" where
  "cli_token read_file f =
     (if flag_token_file f \<noteq> []
      then map_option (\<lambda>b. trimNewline (string_of_bytes b)) (read_file (flag_token_file f))
      else Some (flag_token f))"

definition cli_output :: "string \<Rightarrow> (string \<Rightarrow> bytes option) \<Rightarrow> run_env \<Rightarrow> bool \<Rightarrow> cli_flags \<Rightarrow> cli_line list" where
  "cli_output version read_file env quiet f =
     (if flag_version f then [VersionLine (''backupy-decrypt '' @ version)]
      else
        case cli_token read_file f of
          None \<Rightarrow> [ErrorLine ReadTokenFile]
        | Some tok \<Rightarrow>
            if tok = [] \<or> flag_in f = [] \<or> flag_out f = [] then [UsageText]
            else (case Run env \<lparr>Token = tok, VerifySHA256 = flag_verify f, SkipDecompress = flag_skip f\<rparr> of
                (r, file, ps) \<Rightarrow>
                  (if quiet then [] else map ProgressLine (makeProgressFn ps))
                  @ (case r of
                       Some e \<Rightarrow> [ErrorLine (RunFailed e)]
                     | None \<Rightarrow> if quiet then [] else [DoneLine (flag_out f)])))"

text \<open>The exit code and the output agree, and a quiet run that succeeds prints nothing.\<close>

lemma cli_exits:
  obtains "flag_version f" "cli_main read_file env f = (Exit0, None)"
      "cli_output version read_file env quiet f = [VersionLine (''backupy-decrypt '' @ version)]"
    | "\<not> flag_version f" "cli_main read_file env f = (Exit1, None)" "cli_output version read_file env quiet f = [ErrorLine ReadTokenFile]"
    | "\<not> flag_version f" "cli_main read_file env f = (Exit2, None)" "cli_output version read_file env quiet f = [UsageText]"
    | tok r out ps where "\<not> flag_version f" "cli_token read_file f = Some tok"
      "Run env \<lparr>Token = tok, VerifySHA256 = flag_verify f, SkipDecompress = flag_skip f\<rparr> = (r, out, ps)"
      "cli_main read_file env f = (if r = None then Exit0 else Exit1, out)"
      "cli_output version read_file env quiet f = (if quiet then [] else map ProgressLine (makeProgressFn ps))
         @ (case r of Some e \<Rightarrow> [ErrorLine (RunFailed e)] | None \<Rightarrow> if quiet then [] else [DoneLine (flag_out f)])"
proof (cases "flag_version f")
  case True
  then show ?thesis by (intro that(1)) (simp_all add: cli_main_def cli_output_def)
next
  case v: False
  show ?thesis
  proof (cases "cli_token read_file f")
    case None
    with v show ?thesis by (intro that(2)) (simp_all add: cli_main_def cli_output_def flip: cli_token_def)
  next
    case (Some tok)
    show ?thesis
    proof (cases "tok = [] \<or> flag_in f = [] \<or> flag_out f = []")
      case True
      with v Some show ?thesis by (intro that(3)) (simp_all add: cli_main_def cli_output_def flip: cli_token_def)
    next
      case False
      obtain r out ps where r: "Run env \<lparr>Token = tok, VerifySHA256 = flag_verify f, SkipDecompress = flag_skip f\<rparr> = (r, out, ps)"
        by (metis prod_cases3)
      have "cli_main read_file env f = (if r = None then Exit0 else Exit1, out)"
        using v Some False r by (cases r) (simp_all add: cli_main_def flip: cli_token_def)
      then show ?thesis using v Some False r by (intro that(4)) (simp_all add: cli_output_def)
    qed
  qed
qed

lemma cli_output_exit:
  "fst (cli_main read_file env f) = Exit0 \<longleftrightarrow> (\<forall>l \<in> set (cli_output version read_file env quiet f). l \<noteq> UsageText \<and> (\<forall>e. l \<noteq> ErrorLine e))"
  "fst (cli_main read_file env f) = Exit2 \<longleftrightarrow> UsageText \<in> set (cli_output version read_file env quiet f)"
  by (rule cli_exits [of f read_file env version quiet]; auto split: option.split)+

lemma quiet_success_silent:
  "fst (cli_main read_file env f) = Exit0 \<Longrightarrow> \<not> flag_version f \<Longrightarrow> cli_output version read_file env True f = []"
  by (rule cli_exits [of f read_file env version True]) (auto split: option.splits if_splits)

text \<open>A non-decreasing count is drawn at most once per MiB.\<close>

lemma sint_diff:
  "0 \<le> sint (a :: int64) \<Longrightarrow> 0 \<le> sint b \<Longrightarrow> sint (b - a) = sint b - sint a"
  using sint_lt [of a] sint_lt [of b]
  by (simp add: sint_word_ariths signed_take_bit_int_eq_self_iff)

lemma progress_bound:
  assumes "sorted (map sint (prev # ns))" "0 \<le> sint prev" "\<forall>n \<in> set ns. sint n \<le> cap" "sint prev \<le> cap"
  shows "2 ^ 20 * int (length (progress_calls prev ns)) \<le> cap - sint prev"
  using assms
proof (induction ns arbitrary: prev)
  case (Cons n ns)
  have le: "sint prev \<le> sint n" "0 \<le> sint n" "sint n \<le> cap" using Cons(2-4) by auto
  have d: "sint (n - prev) = sint n - sint prev" by (rule sint_diff) (use Cons(3) le in simp_all)
  show ?case
  proof (cases "sint (n - prev) < 2 ^ 20")
    case True
    have "sorted (map sint (prev # ns))" using Cons(2) by auto
    from Cons.IH [OF this Cons(3)] Cons(4,5) True show ?thesis by (simp add: progress_fn_def)
  next
    case False
    have "sorted (map sint (n # ns))" using Cons(2) by auto
    from Cons.IH [OF this le(2) _ le(3)] Cons(4) False d show ?thesis by (simp add: progress_fn_def algebra_simps)
  qed
qed simp

text \<open>The counts \<open>decryptStream\<close> reports never fall, and do not exceed the bytes of its input.\<close>

lemma sint_add_nat:
  assumes "0 \<le> sint (a :: int64)" "sint a + int k < 2 ^ 63"
  shows "sint (a + of_nat k) = sint a + int k"
proof -
  have "sint (of_nat k :: int64) = int k"
    using assms by (simp add: signed_of_nat signed_take_bit_int_eq_self_iff)
  with assms show ?thesis by (simp add: sint_word_ariths signed_take_bit_int_eq_self_iff)
qed

lemma decryptStream_counts_step:
  assumes "decryptStream A cancelled i processed r w = (e, r', w', ps)" "ps \<noteq> []"
  obtains h r1 where "ReadFull r 4 = (h, None, r1)" "ps = [processed + of_nat 4]"
    | h r1 k fr r2 w1 ps' where "ReadFull r 4 = (h, None, r1)" "ReadFull r1 k = (fr, None, r2)"
      "decryptStream A cancelled (i + 1) (processed + of_nat 4 + of_nat k) r2 w1 = (e, r', w', ps')"
      "ps = (processed + of_nat 4 + of_nat k) # ps'"
  using assms
  by (subst (asm) decryptStream.simps) (auto simp: Let_def ChunkHeaderSizeC_def split: if_splits prod.splits option.splits)

lemma decryptStream_counts:
  assumes "decryptStream A cancelled i processed r w = (e, r', w', ps)"
    and "0 \<le> sint processed" "sint processed + int (length (rd_data r)) < 2 ^ 63"
  shows "sorted (map sint (processed # ps)) \<and> (\<forall>n \<in> set ps. sint n \<le> sint processed + int (length (rd_data r)))"
  using assms
proof (induction "length (rd_data r)" arbitrary: i processed r w e r' w' ps rule: less_induct)
  case less
  show ?case
  proof (cases "ps = []")
    case False
    from decryptStream_counts_step [OF less(2) False] show ?thesis
    proof cases
      case (1 h r1)
      have "4 \<le> length (rd_data r)" using 1(1) by (simp add: ReadFull_None_iff)
      with sint_add_nat [of processed 4] less(3,4) 1(2) show ?thesis by simp
    next
      case (2 h r1 k fr r2 w1 ps')
      have l: "4 + k + length (rd_data r2) = length (rd_data r)" using 2(1,2) by (auto simp: ReadFull_None_iff)
      let ?p = "processed + of_nat 4 + of_nat k :: int64"
      have "sint (processed + of_nat 4) = sint processed + 4" using sint_add_nat [of processed 4] less(3,4) l by simp
      with sint_add_nat [of "processed + of_nat 4" k] less(3,4) l have p: "sint ?p = sint processed + 4 + int k" by simp
      have "sorted (map sint (?p # ps')) \<and> (\<forall>n \<in> set ps'. sint n \<le> sint ?p + int (length (rd_data r2)))"
        by (rule less(1) [OF _ 2(3)]) (use l p less(3,4) in linarith)+
      then show ?thesis using p l less(3) by (auto simp: 2(4))
    qed
  qed simp
qed

text \<open>While a file shorter than \<open>2 ^ 63\<close> bytes is restored, the progress line is drawn at most once per MiB of it.\<close>

lemma progress_once_per_MiB:
  assumes "Run env opts = (res, out, ps)" "input_file env = Some r" "int (length (rd_data r)) < 2 ^ 63"
  shows "2 ^ 20 * length (makeProgressFn ps) \<le> length (rd_data r)"
proof (cases "ps = []")
  case False
  with assms(1,2) obtain A e r' w' w0 where d: "decryptStream A (env_cancelled env) 0 0 r w0 = (e, r', w', ps)"
    by (auto simp: Run_def Let_def split: sum.splits option.splits prod.splits if_splits)
  have c: "sorted (map sint (0 # ps)) \<and> (\<forall>n \<in> set ps. sint n \<le> int (length (rd_data r)))"
    using decryptStream_counts [OF d] assms(3) by simp
  have "2 ^ 20 * int (length (progress_calls 0 ps)) \<le> int (length (rd_data r)) - sint (0 :: int64)"
    by (rule progress_bound) (use c in auto)
  then show ?thesis by (simp add: makeProgressFn_def)
qed (simp add: makeProgressFn_def)

end
