(* ===== verification/Tail_Buffers.thy ===== *)
theory Tail_Buffers
  imports Go_Strings
begin

text \<open>
  The two buffers of \<open>internal/pipeline\<close> that keep the end of a child process's output:
  \<open>hookRingBuffer\<close> (hooks.go), which overwrites in place, and \<open>ringBuffer\<close> (mongodump.go),
  which cuts its slice. Both are shown to satisfy one contract: after any writes the content is
  the last \<open>cap\<close> bytes of everything written. (The mutex of \<open>ringBuffer\<close> serialises calls.)
\<close>

section \<open>The end of a byte string\<close>

definition lastn :: "nat \<Rightarrow> 'a list \<Rightarrow> 'a list" where
  "lastn n xs = drop (length xs - n) xs"

lemma length_lastn [simp]: "length (lastn n xs) = min n (length xs)"
  by (simp add: lastn_def)

lemma lastn_all: "length xs \<le> n \<Longrightarrow> lastn n xs = xs"
  by (simp add: lastn_def)

lemma lastn_append: "length ys \<le> n \<Longrightarrow> lastn n (xs @ ys) = lastn (n - length ys) xs @ ys"
  by (simp add: lastn_def)

lemma lastn_append_long: "n \<le> length ys \<Longrightarrow> lastn n (xs @ ys) = lastn n ys"
  by (simp add: lastn_def)

lemma lastn_lastn_append: "lastn n (lastn n xs @ ys) = lastn n (xs @ ys)"
proof (cases "n \<le> length ys")
  case False
  then show ?thesis by (cases "length xs \<le> n") (simp_all add: lastn_def add.commute)
qed (simp add: lastn_append_long)

lemma lastn_rotate:
  "length xs = n \<Longrightarrow> length ys \<le> n \<Longrightarrow> lastn n (xs @ ys) = drop (length ys) xs @ ys"
  by (simp add: lastn_def)

section \<open>The contract\<close>

locale tail_buffer =
  fixes invar :: "'b \<Rightarrow> bool"
    and contents :: "'b \<Rightarrow> bytes"
    and capacity :: "'b \<Rightarrow> nat"
    and put :: "'b \<Rightarrow> bytes \<Rightarrow> 'b"
  assumes write_invar: "invar r \<Longrightarrow> invar (put r p)"
    and write_contents: "invar r \<Longrightarrow> contents (put r p) = lastn (capacity r) (contents r @ p)"
    and write_capacity: "invar r \<Longrightarrow> capacity (put r p) = capacity r"
begin

lemma writes_capacity: "invar r \<Longrightarrow> capacity (foldl put r ps) = capacity r"
  by (induction ps arbitrary: r) (simp_all add: write_capacity write_invar)

lemma writes_contents:
  assumes "invar r" "length (contents r) \<le> capacity r"
  shows "contents (foldl put r ps) = lastn (capacity r) (contents r @ concat ps)"
  using assms
proof (induction ps arbitrary: r)
  case Nil
  then show ?case by (simp add: lastn_all)
next
  case (Cons p ps)
  have "contents (foldl put (put r p) ps) = lastn (capacity r) (lastn (capacity r) (contents r @ p) @ concat ps)"
    using Cons.IH [of "put r p"] Cons.prems by (simp add: write_invar write_capacity write_contents)
  then show ?case by (simp add: lastn_lastn_append)
qed

lemma writes_bounded: "invar r \<Longrightarrow> length (contents (put r p)) \<le> capacity r"
  by (simp add: write_contents)

end

section \<open>hookRingBuffer\<close>

record hookRingBuffer =
  rb_buf :: bytes
  rb_cap :: nat
  rb_full :: bool
  rb_pos :: nat

definition newHookRingBuffer :: "nat \<Rightarrow> hookRingBuffer" where
  "newHookRingBuffer c = \<lparr>rb_buf = [], rb_cap = c, rb_full = False, rb_pos = 0\<rparr>"

text \<open>\<open>copy(dst[i:], src)\<close>: as many bytes as both sides have.\<close>

definition copy_at :: "nat \<Rightarrow> bytes \<Rightarrow> bytes \<Rightarrow> bytes" where
  "copy_at i src dst = take i dst @ take (length dst - i) src @ drop (i + length src) dst"

text \<open>The second half of \<open>Write\<close>: the buffer is full and the oldest bytes are overwritten.\<close>

definition overwrite :: "hookRingBuffer \<Rightarrow> bytes \<Rightarrow> hookRingBuffer" where
  "overwrite r p =
     (if rb_cap r \<le> length p
      then r\<lparr>rb_buf := copy_at 0 (drop (length p - rb_cap r) p) (rb_buf r), rb_pos := 0\<rparr>
      else
        let e = rb_pos r + length p;
            b = (if e \<le> rb_cap r then copy_at (rb_pos r) p (rb_buf r)
                 else let first = rb_cap r - rb_pos r
                      in copy_at 0 (drop first p) (copy_at (rb_pos r) (take first p) (rb_buf r)))
        in r\<lparr>rb_buf := b, rb_pos := (rb_pos r + length p) mod rb_cap r\<rparr>)"

definition hookRingBuffer_Write :: "hookRingBuffer \<Rightarrow> bytes \<Rightarrow> hookRingBuffer" where
  "hookRingBuffer_Write r p =
     (let n = length p
      in if n = 0 then r
         else if \<not> rb_full r \<and> length (rb_buf r) < rb_cap r then
           let room = rb_cap r - length (rb_buf r)
           in if n \<le> room then
                let b = rb_buf r @ p
                in r\<lparr>rb_buf := b, rb_pos := (rb_pos r + n) mod rb_cap r,
                     rb_full := (if length b = rb_cap r then True else rb_full r)\<rparr>
              else overwrite (r\<lparr>rb_buf := rb_buf r @ take room p, rb_full := True, rb_pos := 0\<rparr>) (drop room p)
         else overwrite r p)"

definition hookRingBuffer_String :: "hookRingBuffer \<Rightarrow> bytes" where
  "hookRingBuffer_String r =
     (if \<not> rb_full r then rb_buf r else drop (rb_pos r) (rb_buf r) @ take (rb_pos r) (rb_buf r))"

text \<open>The fill level and the write position agree.\<close>

definition hook_buffer_ok :: "hookRingBuffer \<Rightarrow> bool" where
  "hook_buffer_ok r \<longleftrightarrow>
     (if rb_full r then length (rb_buf r) = rb_cap r \<and> (rb_cap r = 0 \<or> rb_pos r < rb_cap r)
      else rb_pos r = length (rb_buf r) \<and> (length (rb_buf r) < rb_cap r \<or> rb_cap r = 0 \<and> rb_buf r = []))"

lemma overwrite_ok:
  assumes "length (rb_buf r) = rb_cap r" "rb_cap r = 0 \<or> rb_pos r < rb_cap r"
  shows "length (rb_buf (overwrite r p)) = rb_cap r \<and> (rb_cap r = 0 \<or> rb_pos (overwrite r p) < rb_cap r)
    \<and> rb_cap (overwrite r p) = rb_cap r \<and> rb_full (overwrite r p) = rb_full r"
  using assms by (auto simp: overwrite_def copy_at_def Let_def)

lemma overwrite_rotates:
  assumes "length b = rb_cap r" "b = rb_buf r" "rb_cap r = 0 \<or> rb_pos r < rb_cap r"
  shows "drop (rb_pos (overwrite r p)) (rb_buf (overwrite r p)) @ take (rb_pos (overwrite r p)) (rb_buf (overwrite r p))
    = lastn (rb_cap r) ((drop (rb_pos r) b @ take (rb_pos r) b) @ p)"
proof (cases "rb_cap r \<le> length p")
  case True
  with assms show ?thesis by (simp add: overwrite_def copy_at_def lastn_append_long) (simp add: lastn_def)
next
  case False
  then have rot: "lastn (rb_cap r) ((drop (rb_pos r) b @ take (rb_pos r) b) @ p) =
      drop (length p) (drop (rb_pos r) b @ take (rb_pos r) b) @ p"
    using assms by (intro lastn_rotate) simp_all
  consider "rb_pos r + length p < rb_cap r" | "rb_pos r + length p = rb_cap r" | "rb_cap r < rb_pos r + length p"
    by arith
  then show ?thesis
  proof cases
    case 1
    with False assms show ?thesis unfolding rot
      by (simp add: overwrite_def copy_at_def Let_def add.commute)
  next
    case 2
    with False assms show ?thesis unfolding rot
      by (simp add: overwrite_def copy_at_def Let_def)
  next
    case 3
    then have "(rb_pos r + length p) mod rb_cap r = rb_pos r + length p - rb_cap r"
      using False assms by (simp add: mod_if)
    with 3 False assms show ?thesis unfolding rot
      by (auto simp add: overwrite_def copy_at_def Let_def min_def)
  qed
qed

lemma hookRingBuffer_Write_ok:
  assumes "hook_buffer_ok r"
  shows "hook_buffer_ok (hookRingBuffer_Write r p) \<and> rb_cap (hookRingBuffer_Write r p) = rb_cap r
    \<and> hookRingBuffer_String (hookRingBuffer_Write r p) = lastn (rb_cap r) (hookRingBuffer_String r @ p)"
proof -
  consider (empty) "p = []" | (grow) "p \<noteq> []" "\<not> rb_full r" "length (rb_buf r) < rb_cap r" "length p \<le> rb_cap r - length (rb_buf r)"
    | (fill) "p \<noteq> []" "\<not> rb_full r" "length (rb_buf r) < rb_cap r" "rb_cap r - length (rb_buf r) < length p"
    | (none) "p \<noteq> []" "\<not> rb_full r" "rb_cap r = 0" "rb_buf r = []"
    | (full) "p \<noteq> []" "rb_full r"
    using assms by (fastforce simp: hook_buffer_ok_def)
  then show ?thesis
  proof cases
    case empty
    with assms show ?thesis
      by (auto simp: hookRingBuffer_Write_def hookRingBuffer_String_def hook_buffer_ok_def lastn_all)
  next
    case grow
    with assms show ?thesis
      by (auto simp: hookRingBuffer_Write_def hookRingBuffer_String_def hook_buffer_ok_def Let_def lastn_all)
  next
    case none
    with assms show ?thesis
      by (simp add: hookRingBuffer_Write_def hookRingBuffer_String_def hook_buffer_ok_def overwrite_def
          copy_at_def Let_def lastn_def)
  next
    case fill
    let ?room = "rb_cap r - length (rb_buf r)"
    let ?r = "r\<lparr>rb_buf := rb_buf r @ take ?room p, rb_full := True, rb_pos := 0\<rparr>"
    from fill have W: "hookRingBuffer_Write r p = overwrite ?r (drop ?room p)"
      by (simp add: hookRingBuffer_Write_def Let_def)
    from fill have "length (rb_buf ?r) = rb_cap ?r" "rb_cap ?r = 0 \<or> rb_pos ?r < rb_cap ?r" by simp_all
    with overwrite_ok [OF this, of "drop ?room p"] overwrite_rotates [OF _ refl, of ?r "drop ?room p"] fill
    show ?thesis unfolding W by (auto simp: hook_buffer_ok_def hookRingBuffer_String_def)
  next
    case full
    then have W: "hookRingBuffer_Write r p = overwrite r p"
      by (simp add: hookRingBuffer_Write_def Let_def)
    from full assms have "length (rb_buf r) = rb_cap r" "rb_cap r = 0 \<or> rb_pos r < rb_cap r"
      by (simp_all add: hook_buffer_ok_def)
    with overwrite_ok [OF this, of p] overwrite_rotates [OF _ refl, of r p] full
    show ?thesis unfolding W by (auto simp: hook_buffer_ok_def hookRingBuffer_String_def)
  qed
qed

interpretation hook_tail: tail_buffer hook_buffer_ok hookRingBuffer_String rb_cap hookRingBuffer_Write
  by unfold_locales (use hookRingBuffer_Write_ok in \<open>auto\<close>)

lemma newHookRingBuffer_ok [simp]:
  "hook_buffer_ok (newHookRingBuffer c)" "hookRingBuffer_String (newHookRingBuffer c) = []"
  "rb_cap (newHookRingBuffer c) = c"
  by (auto simp add: newHookRingBuffer_def hook_buffer_ok_def hookRingBuffer_String_def)

section \<open>ringBuffer\<close>

record ringBuffer =
  tb_buf :: bytes
  tb_cap :: nat

definition newRingBuffer :: "nat \<Rightarrow> ringBuffer" where
  "newRingBuffer c = \<lparr>tb_buf = [], tb_cap = c\<rparr>"

definition ringBuffer_Write :: "ringBuffer \<Rightarrow> bytes \<Rightarrow> ringBuffer" where
  "ringBuffer_Write r p =
     (let b = tb_buf r @ p
      in r\<lparr>tb_buf := (if tb_cap r < length b then drop (length b - tb_cap r) b else b)\<rparr>)"

definition ringBuffer_Tail :: "ringBuffer \<Rightarrow> string" where
  "ringBuffer_Tail r = TrimSpace (string_of_bytes (tb_buf r))"

interpretation stderr_tail: tail_buffer "\<lambda>_. True" tb_buf tb_cap ringBuffer_Write
  by unfold_locales (auto simp: ringBuffer_Write_def Let_def lastn_def)

section \<open>Properties\<close>

text \<open>C21: The buffer that captures a hook's output holds, after any sequence of writes, exactly the
  last \<open>cap\<close> bytes of all that was written, in order, wherever the write position had wrapped.\<close>

theorem hook_output_is_tail:
  "hookRingBuffer_String (foldl hookRingBuffer_Write (newHookRingBuffer c) ps) = lastn c (concat ps)"
  using hook_tail.writes_contents [of "newHookRingBuffer c" ps] by simp

text \<open>The buffer that captures a dump tool's standard error yields the last \<open>cap\<close> bytes of it,
  trimmed, however the tool's writes were split.\<close>

theorem stderr_tail_is_tail:
  "ringBuffer_Tail (foldl ringBuffer_Write (newRingBuffer c) ps) = TrimSpace (string_of_bytes (lastn c (concat ps)))"
  using stderr_tail.writes_contents [of "newRingBuffer c" ps]
  by (simp add: ringBuffer_Tail_def newRingBuffer_def)

end
