(* ===== verification/Hooks.thy ===== *)
theory Hooks
  imports Tail_Buffers
begin

text \<open>
  \<open>internal/pipeline/hooks.go\<close>: running a pre/post hook under \<open>/bin/sh -c\<close> and the budget a
  \<open>HookSet\<close> keeps over one backup run. The child process is a parameter: given the command, the
  environment it is started with and the time-out of its context, it yields what it wrote, how
  long it took (which may be longer than the time-out) and how it ended. Durations are nanoseconds;
  the 64 bits of \<open>time.Duration\<close> hold those of centuries.
\<close>

section \<open>Limits\<close>

definition nsec_minute :: int where "nsec_minute = 60 * 1000000000"

definition HookCommandMaxBytes :: nat where "HookCommandMaxBytes = 4 * 1024"
definition HooksMaxCount :: nat where "HooksMaxCount = 16"
definition HookOutputBufBytes :: nat where "HookOutputBufBytes = 8 * 1024"
definition DefaultHookTimeout :: int where "DefaultHookTimeout = 5 * nsec_minute"
definition HookTimeoutMax :: int where "HookTimeoutMax = 15 * nsec_minute"
definition HooksTotalBudget :: int where "HooksTotalBudget = 30 * nsec_minute"

lemmas hook_limits = nsec_minute_def DefaultHookTimeout_def HookTimeoutMax_def HooksTotalBudget_def

section \<open>RunHook\<close>

record HookResult =
  Command :: string
  ExitCode :: int
  Stdout :: bytes
  Stderr :: bytes
  Duration :: int
  TimedOut :: bool

text \<open>
  How \<open>cmd.Run\<close> ended: an \<open>ExitError\<close> carries the status of \<open>syscall.WaitStatus\<close> where the
  platform has one, and its own exit code; anything else is a failure to start the shell.
\<close>

datatype run_error = ExitError "int option" int | SpawnError

datatype ctx_error = DeadlineExceeded | Canceled

record exec_outcome =
  wrote_out :: "bytes list"
  wrote_err :: "bytes list"
  elapsed :: int
  run_err :: "run_error option"
  ctx_err :: "ctx_error option"

datatype hook_error =
    EmptyHookCommand
  | HookTimedOut int
  | HookCancelled
  | HookNonZero int
  | HookFailed
  | ErrHooksBudgetExceeded

text \<open>The shell: command, environment of the child, time-out of the context it runs under.\<close>

type_synonym shell = "string \<Rightarrow> string list \<Rightarrow> int \<Rightarrow> exec_outcome"

definition hook_timeout :: "int \<Rightarrow> int" where
  "hook_timeout timeout =
     (let t = (if timeout \<le> 0 then DefaultHookTimeout else timeout)
      in if t > HookTimeoutMax then HookTimeoutMax else t)"

text \<open>
  \<open>cmd.Env = append(cmd.Env, env...)\<close> on the nil slice of a fresh command; \<open>exec\<close> gives a
  command whose \<open>Env\<close> is nil the agent's own environment, and any other exactly its \<open>Env\<close>.
\<close>

definition hook_env :: "string list \<Rightarrow> string list option \<Rightarrow> string list" where
  "hook_env os_env env =
     (let cmd_env = (case env of None \<Rightarrow> [] | Some e \<Rightarrow> [] @ e)
      in if cmd_env = [] then os_env else cmd_env)"

definition captured :: "bytes list \<Rightarrow> bytes" where
  "captured ps = hookRingBuffer_String (foldl hookRingBuffer_Write (newHookRingBuffer HookOutputBufBytes) ps)"

definition empty_HookResult :: HookResult where
  "empty_HookResult = \<lparr>Command = [], ExitCode = 0, Stdout = [], Stderr = [], Duration = 0, TimedOut = False\<rparr>"

definition RunHook ::
  "shell \<Rightarrow> string list \<Rightarrow> string \<Rightarrow> string list option \<Rightarrow> int \<Rightarrow> HookResult \<times> hook_error option" where
  "RunHook sh os_env command env timeout =
     (if command = [] then (empty_HookResult, Some EmptyHookCommand)
      else
        let t = hook_timeout timeout;
            o' = sh command (hook_env os_env env) t;
            result = \<lparr>Command = command, ExitCode = 0, Stdout = captured (wrote_out o'),
                      Stderr = captured (wrote_err o'), Duration = elapsed o', TimedOut = False\<rparr>
        in case run_err o' of
            None \<Rightarrow> (result, None)
          | Some re \<Rightarrow>
             (case ctx_err o' of
                Some DeadlineExceeded \<Rightarrow> (result\<lparr>ExitCode := -1, TimedOut := True\<rparr>, Some (HookTimedOut t))
              | Some Canceled \<Rightarrow> (result\<lparr>ExitCode := -1\<rparr>, Some HookCancelled)
              | None \<Rightarrow>
                 (case re of
                    ExitError ws code \<Rightarrow>
                      let c = (case ws of Some s \<Rightarrow> s | None \<Rightarrow> code)
                      in (result\<lparr>ExitCode := c\<rparr>, Some (HookNonZero c))
                  | SpawnError \<Rightarrow> (result\<lparr>ExitCode := -1\<rparr>, Some HookFailed))))"

section \<open>HookSet\<close>

record HookSet = consumed :: int

definition NewHookSet :: HookSet where "NewHookSet = \<lparr>consumed = 0\<rparr>"

definition HookSet_Run ::
  "shell \<Rightarrow> string list \<Rightarrow> HookSet \<Rightarrow> string \<Rightarrow> string list option \<Rightarrow> int
     \<Rightarrow> HookSet \<times> HookResult \<times> hook_error option" where
  "HookSet_Run sh os_env h command env timeout =
     (let used = consumed h
      in if used \<ge> HooksTotalBudget
         then (h, empty_HookResult\<lparr>Command := command\<rparr>, Some ErrHooksBudgetExceeded)
         else
           let remaining = HooksTotalBudget - used;
               t = (if timeout \<le> 0 \<or> timeout > remaining then remaining else timeout);
               (res, err) = RunHook sh os_env command env t
           in (h\<lparr>consumed := consumed h + Duration res\<rparr>, res, err))"

text \<open>A run's hooks one after the other, with the results in order.\<close>

fun HookSet_Runs ::
  "shell \<Rightarrow> string list \<Rightarrow> HookSet \<Rightarrow> (string \<times> string list option \<times> int) list
     \<Rightarrow> HookSet \<times> (HookResult \<times> hook_error option) list" where
  "HookSet_Runs sh os_env h [] = (h, [])"
| "HookSet_Runs sh os_env h ((c, env, t) # cs) =
     (let (h', res) = HookSet_Run sh os_env h c env t;
          (h'', rs) = HookSet_Runs sh os_env h' cs
      in (h'', res # rs))"

section \<open>Lemmas\<close>

lemma hook_timeout_bounds: "0 < hook_timeout t" "hook_timeout t \<le> HookTimeoutMax" "0 < t \<Longrightarrow> hook_timeout t \<le> t"
  by (auto simp: hook_timeout_def hook_limits Let_def)

text \<open>What a hook is charged is what its process took.\<close>

lemma RunHook_Duration:
  "Duration (fst (RunHook sh os_env c env t)) = (if c = [] then 0 else elapsed (sh c (hook_env os_env env) (hook_timeout t)))"
  by (simp add: RunHook_def empty_HookResult_def Let_def split: option.split run_error.split ctx_error.split)

text \<open>The context a hook gets from a set that has used up \<open>used\<close>, and that the hook depends on the shell only there.\<close>

definition granted :: "int \<Rightarrow> int \<Rightarrow> int" where
  "granted used timeout = hook_timeout (if timeout \<le> 0 \<or> timeout > HooksTotalBudget - used then HooksTotalBudget - used else timeout)"

lemma granted_bounds:
  "used < HooksTotalBudget \<Longrightarrow> 0 < granted used t \<and> granted used t \<le> HookTimeoutMax \<and> granted used t \<le> HooksTotalBudget - used"
proof -
  define t' where "t' = (if t \<le> 0 \<or> t > HooksTotalBudget - used then HooksTotalBudget - used else t)"
  assume "used < HooksTotalBudget"
  then have "0 < t'" "t' \<le> HooksTotalBudget - used" by (auto simp: t'_def)
  with hook_timeout_bounds [of t'] show ?thesis by (simp add: granted_def flip: t'_def)
qed

lemma HookSet_Run_spent:
  "HooksTotalBudget \<le> consumed h \<Longrightarrow> HookSet_Run sh os_env h c env t = (h, empty_HookResult\<lparr>Command := c\<rparr>, Some ErrHooksBudgetExceeded)"
  by (simp add: HookSet_Run_def)

lemma HookSet_Run_granted:
  assumes "consumed h < HooksTotalBudget" "c \<noteq> []"
  shows "consumed (fst (HookSet_Run sh os_env h c env t)) = consumed h + elapsed (sh c (hook_env os_env env) (granted (consumed h) t))"
  using assms by (simp add: HookSet_Run_def Let_def granted_def RunHook_Duration split: prod.split) (metis RunHook_Duration fst_conv)

lemma HookSet_Run_shell_cong:
  assumes "sh' c (hook_env os_env env) (granted (consumed h) t) = sh c (hook_env os_env env) (granted (consumed h) t)"
  shows "HookSet_Run sh' os_env h c env t = HookSet_Run sh os_env h c env t"
proof -
  define t' where "t' = (if t \<le> 0 \<or> t > HooksTotalBudget - consumed h then HooksTotalBudget - consumed h else t)"
  have "RunHook sh' os_env c env t' = RunHook sh os_env c env t'"
    using assms by (simp add: granted_def RunHook_def flip: t'_def)
  then show ?thesis by (simp add: HookSet_Run_def Let_def flip: t'_def)
qed

text \<open>Only one hook can take the set over its budget, and by no more than it outlives its own context.\<close>

definition within_budget :: "shell \<Rightarrow> string list \<Rightarrow> (string \<times> string list option \<times> int) set \<Rightarrow> int \<Rightarrow> bool" where
  "within_budget sh os_env cs used \<longleftrightarrow> used \<le> HooksTotalBudget
     \<or> (\<exists>(c, env, t) \<in> cs. \<exists>d. 0 < d \<and> d \<le> HookTimeoutMax \<and> used \<le> HooksTotalBudget + (elapsed (sh c (hook_env os_env env) d) - d))"

lemma within_budget_step:
  assumes "within_budget sh os_env cs (consumed h)" "(c, env, t) \<in> cs"
  shows "within_budget sh os_env cs (consumed (fst (HookSet_Run sh os_env h c env t)))"
proof (cases "consumed h < HooksTotalBudget \<and> c \<noteq> []")
  case True
  define d where "d = granted (consumed h) t"
  have d: "0 < d" "d \<le> HookTimeoutMax" "d \<le> HooksTotalBudget - consumed h" using granted_bounds [of "consumed h" t] True by (simp_all add: d_def)
  have "consumed (fst (HookSet_Run sh os_env h c env t)) = consumed h + elapsed (sh c (hook_env os_env env) d)"
    using HookSet_Run_granted [of h c sh os_env env t] True by (simp add: d_def)
  then have "consumed (fst (HookSet_Run sh os_env h c env t)) \<le> HooksTotalBudget + (elapsed (sh c (hook_env os_env env) d) - d)"
    using d(3) by simp
  with d assms(2) show ?thesis unfolding within_budget_def by blast
next
  case False
  have "consumed (fst (HookSet_Run sh os_env h c env t)) = consumed h"
  proof (cases "consumed h < HooksTotalBudget")
    case True
    with False show ?thesis by (simp add: HookSet_Run_def Let_def RunHook_def empty_HookResult_def)
  qed (simp add: HookSet_Run_spent)
  with assms(1) show ?thesis by simp
qed

lemma HookSet_Runs_within:
  "within_budget sh os_env C (consumed h) \<Longrightarrow> set cs \<subseteq> C \<Longrightarrow> within_budget sh os_env C (consumed (fst (HookSet_Runs sh os_env h cs)))"
proof (induction sh os_env h cs rule: HookSet_Runs.induct)
  case (2 sh os_env h c env t cs)
  obtain h1 r1 where H1: "HookSet_Run sh os_env h c env t = (h1, r1)" by (cases "HookSet_Run sh os_env h c env t")
  with within_budget_step [OF 2(2), of c env t] 2(3) have "within_budget sh os_env C (consumed h1)" by simp
  with 2(1) [OF H1 [symmetric]] 2(3) H1 show ?case by (simp split: prod.split) (metis fst_conv)
qed simp

lemma captured_eq: "captured ps = lastn HookOutputBufBytes (concat ps)"
  using hook_tail.writes_contents [of "newHookRingBuffer HookOutputBufBytes" ps]
  by (simp add: captured_def)

lemma exhausted_set_runs_nothing:
  "consumed h \<ge> HooksTotalBudget \<Longrightarrow> HookSet_Runs sh os_env h cs =
     (h, map (\<lambda>(c, env, t). (empty_HookResult\<lparr>Command := c\<rparr>, Some ErrHooksBudgetExceeded)) cs)"
proof (induction sh os_env h cs rule: HookSet_Runs.induct)
  case (2 sh os_env h c env t cs)
  then show ?case by (simp add: HookSet_Run_def)
qed simp

section \<open>Properties\<close>

text \<open>C20: The budget of a backup run's hooks is enforced for each of them: whatever has been fed to a fresh
  \<open>HookSet\<close>, the next hook is skipped if what it has charged has reached \<open>HooksTotalBudget\<close>, for every
  shell alike; otherwise it runs under a context that ends after at most \<open>HookTimeoutMax\<close> and at most
  what is left of the budget, and is charged what its process took. So the time charged exceeds
  the budget by no more than one hook's process has outlived its own context (for how long is up
  to \<open>os/exec\<close>, which waits for every process that holds the output open).\<close>

theorem hooks_within_budget:
  assumes "h = fst (HookSet_Runs sh os_env NewHookSet cs)"
  shows "(consumed h \<le> HooksTotalBudget \<or> (\<exists>(c, env, t) \<in> set cs. \<exists>d. 0 < d \<and> d \<le> HookTimeoutMax
        \<and> consumed h \<le> HooksTotalBudget + (elapsed (sh c (hook_env os_env env) d) - d)))
    \<and> (consumed h \<ge> HooksTotalBudget \<longrightarrow>
        (\<forall>sh'. HookSet_Run sh' os_env h c env t = (h, empty_HookResult\<lparr>Command := c\<rparr>, Some ErrHooksBudgetExceeded)))
    \<and> (consumed h < HooksTotalBudget \<longrightarrow> (\<exists>d. 0 < d \<and> d \<le> HookTimeoutMax \<and> d \<le> HooksTotalBudget - consumed h
        \<and> (c \<noteq> [] \<longrightarrow> consumed (fst (HookSet_Run sh os_env h c env t)) = consumed h + elapsed (sh c (hook_env os_env env) d))
        \<and> (\<forall>sh'. sh' c (hook_env os_env env) d = sh c (hook_env os_env env) d
             \<longrightarrow> HookSet_Run sh' os_env h c env t = HookSet_Run sh os_env h c env t)))"
proof -
  have "within_budget sh os_env (set cs) (consumed h)"
    unfolding assms by (rule HookSet_Runs_within) (simp_all add: within_budget_def NewHookSet_def hook_limits)
  moreover have "\<exists>d. 0 < d \<and> d \<le> HookTimeoutMax \<and> d \<le> HooksTotalBudget - consumed h
        \<and> (c \<noteq> [] \<longrightarrow> consumed (fst (HookSet_Run sh os_env h c env t)) = consumed h + elapsed (sh c (hook_env os_env env) d))
        \<and> (\<forall>sh'. sh' c (hook_env os_env env) d = sh c (hook_env os_env env) d
             \<longrightarrow> HookSet_Run sh' os_env h c env t = HookSet_Run sh os_env h c env t)" if "consumed h < HooksTotalBudget"
    using granted_bounds [OF that, of t] HookSet_Run_granted [OF that] HookSet_Run_shell_cong by (intro exI [of _ "granted (consumed h) t"]) blast
  ultimately show ?thesis by (simp add: within_budget_def HookSet_Run_spent)
qed

text \<open>A hook that outlives its context by an hour; the next one is skipped.\<close>

theorem hooks_within_budget_witness:
  "\<exists>h. h = fst (HookSet_Runs (\<lambda>c e t. \<lparr>wrote_out = [], wrote_err = [], elapsed = t + 60 * nsec_minute,
        run_err = Some (ExitError None 1), ctx_err = Some DeadlineExceeded\<rparr>) [] NewHookSet [(''sleep 99999; :'', None, 0)])
    \<and> consumed h = 75 * nsec_minute
    \<and> (\<forall>sh'. HookSet_Run sh' [] h ''sync'' None 0 = (h, empty_HookResult\<lparr>Command := ''sync''\<rparr>, Some ErrHooksBudgetExceeded))"
proof -
  let ?sh = "\<lambda>c e t. \<lparr>wrote_out = [], wrote_err = [], elapsed = t + 60 * nsec_minute, run_err = Some (ExitError None 1), ctx_err = Some DeadlineExceeded\<rparr>"
  define h where "h = fst (HookSet_Runs ?sh [] NewHookSet [(''sleep 99999; :'', None, 0)])"
  have c: "consumed h = 75 * nsec_minute"
    by (simp add: h_def HookSet_Run_def NewHookSet_def RunHook_def hook_timeout_def hook_limits Let_def)
  then have "consumed h \<ge> HooksTotalBudget" by (simp add: hook_limits)
  with hooks_within_budget [OF h_def, of "''sync''" None 0] c show ?thesis unfolding h_def by blast
qed

text \<open>A hook is reported as successful exactly when its command is not empty and the shell
  ended without an error; the result then has exit code 0, no time-out mark and at most
  \<open>HookOutputBufBytes\<close> of each stream.\<close>

theorem hook_success:
  "RunHook sh os_env c env t = (r, None) \<longleftrightarrow>
     c \<noteq> [] \<and> run_err (sh c (hook_env os_env env) (hook_timeout t)) = None
     \<and> r = \<lparr>Command = c, ExitCode = 0,
           Stdout = lastn HookOutputBufBytes (concat (wrote_out (sh c (hook_env os_env env) (hook_timeout t)))),
           Stderr = lastn HookOutputBufBytes (concat (wrote_err (sh c (hook_env os_env env) (hook_timeout t)))),
           Duration = elapsed (sh c (hook_env os_env env) (hook_timeout t)), TimedOut = False\<rparr>"
  using captured_eq by (auto simp: RunHook_def Let_def split: option.splits run_error.splits ctx_error.splits)

text \<open>The default time-out is never applied: a hook without a time-out of its own, run first in
  its \<open>HookSet\<close>, is given \<open>HookTimeoutMax\<close> (15 minutes) and not \<open>DefaultHookTimeout\<close>
  (5 minutes), because the set hands \<open>RunHook\<close> the remaining budget instead of zero.\<close>

theorem default_timeout_not_applied:
  assumes "c \<noteq> []"
  shows "HookSet_Run sh os_env NewHookSet c env 0 =
      (case RunHook sh os_env c env HookTimeoutMax of (r, e) \<Rightarrow> (\<lparr>consumed = Duration r\<rparr>, r, e))
    \<and> hook_timeout HookTimeoutMax = HookTimeoutMax \<and> hook_timeout 0 = DefaultHookTimeout
    \<and> DefaultHookTimeout < HookTimeoutMax"
proof -
  have "RunHook sh os_env c env HooksTotalBudget = RunHook sh os_env c env HookTimeoutMax"
    by (simp add: RunHook_def hook_timeout_def hook_limits)
  then show ?thesis
    by (simp add: HookSet_Run_def NewHookSet_def hook_timeout_def hook_limits split: prod.split)
qed

theorem default_timeout_not_applied_witness:
  "fst (snd (HookSet_Run (\<lambda>c e t. \<lparr>wrote_out = [], wrote_err = [], elapsed = t, run_err = None, ctx_err = None\<rparr>)
      [] NewHookSet ''sync'' None 0)) =
    \<lparr>Command = ''sync'', ExitCode = 0, Stdout = [], Stderr = [], Duration = 15 * nsec_minute, TimedOut = False\<rparr>"
  using default_timeout_not_applied [of "''sync''" "\<lambda>c e t. \<lparr>wrote_out = [], wrote_err = [],
      elapsed = t, run_err = None, ctx_err = None\<rparr>" "[]" None]
  by (simp add: RunHook_def captured_eq lastn_def HookTimeoutMax_def)

text \<open>A hook with an environment of its own loses the agent's: with a non-empty \<open>env\<close> the
  outcome does not depend on the agent's environment at all, for \<open>env\<close> is appended to the nil
  \<open>cmd.Env\<close> and so replaces what would have been inherited.\<close>

theorem hook_env_replaces:
  assumes "e \<noteq> []"
  shows "RunHook sh os_env c (Some e) t = RunHook sh os_env' c (Some e) t"
  using assms by (simp add: RunHook_def hook_env_def)

theorem hook_env_replaces_witness:
  "RunHook (\<lambda>c e t. \<lparr>wrote_out = map bytes_of_string e, wrote_err = [], elapsed = 1, run_err = None, ctx_err = None\<rparr>)
      [''PATH=/bin''] ''env'' (Some [''A=1'']) 0
   = RunHook (\<lambda>c e t. \<lparr>wrote_out = map bytes_of_string e, wrote_err = [], elapsed = 1, run_err = None, ctx_err = None\<rparr>)
      [] ''env'' (Some [''A=1'']) 0"
  by (rule hook_env_replaces) simp

end
