(* ===== verification/Bolt.thy ===== *)
theory Bolt
  imports Prelude
begin

text \<open>
  The embedded key-value store \<open>go.etcd.io/bbolt\<close> as the agent uses it. The package is not part
  of the repository: its bucket operations are the record \<open>bolt\<close>, an argument of every definition
  that calls them, and the locale \<open>bolt_laws\<close> holds what its documentation promises (a bucket is
  a map from non-empty keys to values, iterated in the byte order of the keys, with a sequence
  counter). \<open>ref_bolt\<close>, sorted association lists, is an instance, so the laws are consistent.
\<close>

section \<open>The interface\<close>

datatype bolt_err = KeyRequired | KeyTooLarge | ValueTooLarge | BoltOther nat

record 'b bolt =
  bk_new :: 'b
  bk_get :: "'b \<Rightarrow> bytes \<Rightarrow> bytes option"
  bk_put :: "'b \<Rightarrow> bytes \<Rightarrow> bytes \<Rightarrow> bolt_err + 'b"
  bk_delete :: "'b \<Rightarrow> bytes \<Rightarrow> bolt_err + 'b"
  bk_sequence :: "'b \<Rightarrow> uint64"
  bk_next_sequence :: "'b \<Rightarrow> uint64 \<times> 'b"
  bk_items :: "'b \<Rightarrow> (bytes \<times> bytes) list"
  bk_key_n :: "'b \<Rightarrow> nat"

text \<open>\<open>bk_items\<close> lists what a cursor yields from \<open>First\<close> by \<open>Next\<close> until the nil key.\<close>

definition key_sorted :: "(bytes \<times> bytes) list \<Rightarrow> bool" where
  "key_sorted xs \<longleftrightarrow> sorted_wrt (<) (map fst xs)"

definition key_fits :: "bytes \<Rightarrow> bool" where
  "key_fits k \<longleftrightarrow> k \<noteq> [] \<and> length k \<le> 32768"

definition value_fits :: "bytes \<Rightarrow> bool" where
  "value_fits v \<longleftrightarrow> length v \<le> 2147483646"

locale bolt_laws =
  fixes B :: "'b bolt" and ok :: "'b \<Rightarrow> bool"
  assumes new_ok: "ok (bk_new B)"
    and new_items: "bk_items B (bk_new B) = []"
    and new_sequence: "bk_sequence B (bk_new B) = 0"
    and items_sorted: "ok b \<Longrightarrow> key_sorted (bk_items B b)"
    and get_items: "ok b \<Longrightarrow> bk_get B b k = map_of (bk_items B b) k"
    and key_n_items: "ok b \<Longrightarrow> bk_key_n B b = length (bk_items B b)"
    and put_succeeds: "ok b \<Longrightarrow> key_fits k \<Longrightarrow> value_fits v \<Longrightarrow> \<exists>b'. bk_put B b k v = Inr b'"
    and put_fails: "ok b \<Longrightarrow> \<not> key_fits k \<Longrightarrow> \<exists>e. bk_put B b k v = Inl e"
    and put_effect: "ok b \<Longrightarrow> bk_put B b k v = Inr b' \<Longrightarrow>
        ok b' \<and> map_of (bk_items B b') = (map_of (bk_items B b))(k \<mapsto> v) \<and> bk_sequence B b' = bk_sequence B b"
    and delete_succeeds: "ok b \<Longrightarrow> \<exists>b'. bk_delete B b k = Inr b'"
    and delete_effect: "ok b \<Longrightarrow> bk_delete B b k = Inr b' \<Longrightarrow>
        ok b' \<and> map_of (bk_items B b') = (map_of (bk_items B b))(k := None) \<and> bk_sequence B b' = bk_sequence B b"
    and next_sequence_effect: "ok b \<Longrightarrow> bk_next_sequence B b = (n, b') \<Longrightarrow>
        ok b' \<and> bk_items B b' = bk_items B b \<and> n = bk_sequence B b + 1 \<and> bk_sequence B b' = n"

section \<open>Lists sorted by their keys\<close>

lemma key_sorted_distinct: "key_sorted xs \<Longrightarrow> distinct (map fst xs)"
  by (simp add: key_sorted_def strict_sorted_iff)

lemma key_sorted_unique:
  assumes "key_sorted xs" "key_sorted ys" "map_of xs = map_of ys"
  shows "xs = ys"
proof -
  have "set xs = set ys"
    using assms map_of_eq_Some_iff [OF key_sorted_distinct] by (metis (mono_tags, opaque_lifting) subset_antisym subrelI)
  moreover have "distinct (map fst xs)" "distinct (map fst ys)" "sorted (map fst xs)" "sorted (map fst ys)"
    using assms(1,2) by (simp_all add: key_sorted_distinct key_sorted_def strict_sorted_iff)
  moreover have "inj_on fst (set xs \<union> set ys)"
    using \<open>set xs = set ys\<close> \<open>distinct (map fst xs)\<close> by (simp add: distinct_map)
  ultimately show ?thesis by (intro map_sorted_distinct_set_unique [of fst]) simp_all
qed

lemma key_sorted_filter: "key_sorted xs \<Longrightarrow> key_sorted (filter P xs)"
  by (induction xs) (auto simp: key_sorted_def)

lemma map_of_delete_key: "map_of (filter (\<lambda>(k', v). k' \<noteq> k) xs) = (map_of xs)(k := None)"
  by (induction xs) auto

context bolt_laws
begin

text \<open>What a change does to the iteration order: the items are determined by the map.\<close>

lemma delete_items:
  assumes "ok b" "bk_delete B b k = Inr b'"
  shows "bk_items B b' = filter (\<lambda>(k', v). k' \<noteq> k) (bk_items B b)"
  using assms delete_effect [OF assms]
  by (intro key_sorted_unique) (simp_all add: items_sorted key_sorted_filter map_of_delete_key)

lemma put_items:
  assumes "ok b" "bk_put B b k v = Inr b'" "key_sorted xs" "map_of xs = (map_of (bk_items B b))(k \<mapsto> v)"
  shows "bk_items B b' = xs"
  using put_effect [OF assms(1,2)] assms(3,4) items_sorted by (auto intro: key_sorted_unique)

lemma delete_absent:
  assumes "ok b" "bk_delete B b k = Inr b'" "k \<notin> fst ` set (bk_items B b)"
  shows "bk_items B b' = bk_items B b"
  using delete_items [OF assms(1,2)] assms(3) by (force simp: filter_id_conv)

end

section \<open>A reference bucket\<close>

type_synonym ref_bucket = "(bytes \<times> bytes) list \<times> uint64"

fun upsert :: "bytes \<Rightarrow> bytes \<Rightarrow> (bytes \<times> bytes) list \<Rightarrow> (bytes \<times> bytes) list" where
  "upsert k v [] = [(k, v)]"
| "upsert k v ((k', v') # xs) =
     (if k = k' then (k, v) # xs else if k < k' then (k, v) # (k', v') # xs else (k', v') # upsert k v xs)"

definition ref_put :: "ref_bucket \<Rightarrow> bytes \<Rightarrow> bytes \<Rightarrow> bolt_err + ref_bucket" where
  "ref_put b k v =
     (if k = [] then Inl KeyRequired else if length k > 32768 then Inl KeyTooLarge
      else if length v > 2147483646 then Inl ValueTooLarge else Inr (upsert k v (fst b), snd b))"

definition ref_bolt :: "ref_bucket bolt" where
  "ref_bolt =
     \<lparr>bk_new = ([], 0), bk_get = (\<lambda>b k. map_of (fst b) k), bk_put = ref_put,
      bk_delete = (\<lambda>b k. Inr (filter (\<lambda>(k', v). k' \<noteq> k) (fst b), snd b)), bk_sequence = snd,
      bk_next_sequence = (\<lambda>b. (snd b + 1, (fst b, snd b + 1))), bk_items = fst,
      bk_key_n = (\<lambda>b. length (fst b))\<rparr>"

lemma set_upsert: "fst ` set (upsert k v xs) = insert k (fst ` set xs)"
  by (induction k v xs rule: upsert.induct) auto

lemma key_sorted_upsert: "key_sorted xs \<Longrightarrow> key_sorted (upsert k v xs)"
proof (induction k v xs rule: upsert.induct)
  case (2 k v k' v' xs)
  then have "key_sorted xs" "\<forall>y \<in> fst ` set xs. k' < y" by (auto simp: key_sorted_def)
  moreover have "\<forall>y \<in> fst ` set xs. k < y" if "k < k'"
    using that calculation(2) by (metis order_less_trans)
  ultimately show ?case
    using 2 set_upsert [of k v xs] by (auto simp: key_sorted_def image_iff)
qed (simp add: key_sorted_def)

lemma map_of_upsert: "key_sorted xs \<Longrightarrow> map_of (upsert k v xs) = (map_of xs)(k \<mapsto> v)"
  by (induction k v xs rule: upsert.induct) (auto simp: key_sorted_def)

interpretation ref_bolt: bolt_laws ref_bolt "\<lambda>b. key_sorted (fst b)"
  by unfold_locales
     (auto simp: ref_bolt_def ref_put_def key_fits_def value_fits_def key_sorted_upsert map_of_upsert
        key_sorted_filter map_of_delete_key split: if_splits, simp_all add: key_sorted_def)

end
