(* ===== verification/State_Crypto.thy ===== *)
theory State_Crypto
  imports Frame_Format Go_Strings
begin

text \<open>
  \<open>internal/state/crypto.go\<close>: the envelope every sealed value of the state file is stored in,
  \<open>0x01 || nonce || ciphertext+tag\<close>. HKDF (a package outside the repository) is the parameter
  \<open>hkdf\<close> of the key derivation: secret, salt, info and the number of bytes read.
\<close>

definition stateKeyLen :: nat where "stateKeyLen = 32"
definition stateNonceLen :: nat where "stateNonceLen = 12"
definition stateEnvVersion :: byte where "stateEnvVersion = 1"
definition hkdfInfo :: string where "hkdfInfo = ''backupy-agent/state-v1''"
definition hkdfSalt :: string where "hkdfSalt = ''backupy-agent-state-salt''"

datatype crypto_err =
    EmptyAgentKey
  | HkdfRead
  | AesInit
  | RandRead
  | ErrCipher
  | UnsupportedVersion byte

type_synonym hkdf = "bytes \<Rightarrow> bytes \<Rightarrow> bytes \<Rightarrow> nat \<Rightarrow> bytes option"

definition deriveStateKey :: "hkdf \<Rightarrow> string \<Rightarrow> crypto_err + bytes" where
  "deriveStateKey hkdf agentKey =
     (if agentKey = [] then Inl EmptyAgentKey
      else case hkdf (bytes_of_string agentKey) (bytes_of_string hkdfSalt) (bytes_of_string hkdfInfo) stateKeyLen of
          None \<Rightarrow> Inl HkdfRead
        | Some key \<Rightarrow> Inr key)"

definition newGCM :: "bytes \<Rightarrow> crypto_err + aead" where
  "newGCM key = (case aes_new_gcm key of None \<Rightarrow> Inl AesInit | Some A \<Rightarrow> Inr A)"

definition state_seal :: "aead \<Rightarrow> 96 word option \<Rightarrow> bytes \<Rightarrow> crypto_err + bytes" where
  "state_seal A rand plaintext =
     (case rand of
        None \<Rightarrow> Inl RandRead
      | Some x \<Rightarrow>
          let nonce = nonce_bytes x
          in Inr ([stateEnvVersion] @ nonce @ Seal A nonce plaintext))"

definition state_open :: "aead \<Rightarrow> bytes \<Rightarrow> crypto_err + bytes" where
  "state_open A sealed =
     (if length sealed < 1 + stateNonceLen + Overhead A then Inl ErrCipher
      else if sealed ! 0 \<noteq> stateEnvVersion then Inl (UnsupportedVersion (sealed ! 0))
      else
        let nonce = take stateNonceLen (drop 1 sealed);
            ct = drop (1 + stateNonceLen) sealed
        in case Open A nonce ct of None \<Rightarrow> Inl ErrCipher | Some pt \<Rightarrow> Inr pt)"

lemma newGCM_laws: "newGCM key = Inr A \<Longrightarrow> aead_laws A"
  using aes_new_gcm_laws by (auto simp: newGCM_def split: option.splits)

lemma state_seal_Inr_iff:
  "state_seal A rand p = Inr s \<longleftrightarrow>
     (\<exists>x. rand = Some x \<and> s = stateEnvVersion # nonce_bytes x @ Seal A (nonce_bytes x) p)"
  by (auto simp: state_seal_def Let_def split: option.splits)

lemma state_seal_not_panic: "state_seal A rand p = Inl e \<longleftrightarrow> rand = None \<and> e = RandRead"
  by (auto simp: state_seal_def Let_def split: option.splits)

text \<open>An envelope shorter than version, nonce and tag, or of another version, is refused.\<close>

lemma state_open_short: "length s < 13 + Overhead A \<Longrightarrow> state_open A s = Inl ErrCipher"
  by (simp add: state_open_def stateNonceLen_def)

lemma state_open_version:
  "13 + Overhead A \<le> length s \<Longrightarrow> hd s \<noteq> 1 \<Longrightarrow> state_open A s = Inl (UnsupportedVersion (hd s))"
  by (cases s) (auto simp: state_open_def stateNonceLen_def stateEnvVersion_def)

context aead_laws
begin

lemma state_open_seal: "state_seal A rand p = Inr s \<Longrightarrow> state_open A s = Inr p"
  by (auto simp: state_seal_Inr_iff state_open_def seal_length overhead open_seal stateNonceLen_def Let_def)

lemma length_state_seal: "state_seal A rand p = Inr s \<Longrightarrow> length s = length p + 29"
  by (auto simp: state_seal_Inr_iff seal_length)

end

end
