(* ===== verification/Store.thy ===== *)
theory Store
  imports Bolt State_Crypto
begin

text \<open>
  \<open>internal/state/state.go\<close>: the agent's state file. A database is a map from bucket names to
  buckets; a transaction works on the database of its start and replaces it when it commits.
  The \<open>Store\<close> record carries, beside the handle's fields, what its operations meet from
  outside: the results of the reads of \<open>rand.Reader\<close> and of the commits still to come.
  Using a bucket that does not exist is a nil dereference in Go, the error \<open>Panicked\<close> here.
\<close>

section \<open>State and transactions\<close>

type_synonym 'b db = "string \<rightharpoonup> 'b"

datatype store_err =
    EmptyPath
  | EmptyRunID
  | ErrNotFound
  | CryptoErr crypto_err
  | BoltErr bolt_err
  | OpenBolt
  | DatabaseNotOpen
  | CommitFailed
  | Panicked

record 'b Store =
  st_path :: string
  st_db :: "'b db"
  st_open :: bool
  st_aead :: aead
  st_rand :: rng
  st_rands :: nat \<comment> \<open>reads of \<open>rand.Reader\<close> so far\<close>
  st_disk :: "nat \<Rightarrow> bool"
  st_txs :: nat \<comment> \<open>commits so far\<close>

definition bktConfig :: string where "bktConfig = ''config''"
definition bktQueue :: string where "bktQueue = ''queue''"
definition bktRegistry :: string where "bktRegistry = ''registry''"
definition bktLogs :: string where "bktLogs = ''logs_buffer''"

definition keyConfigCurrent :: bytes where "keyConfigCurrent = bytes_of_string ''current''"
definition keyConfigVersion :: bytes where "keyConfigVersion = bytes_of_string ''version''"
definition keySessionID :: bytes where "keySessionID = bytes_of_string ''session_id''"
definition keyServerTime :: bytes where "keyServerTime = bytes_of_string ''server_time_ms''"
definition keyHeartbeat :: bytes where "keyHeartbeat = bytes_of_string ''last_heartbeat_ms''"

lemmas bucket_names = bktConfig_def bktQueue_def bktRegistry_def bktLogs_def

definition core_buckets :: "string list" where
  "core_buckets = [bktConfig, bktQueue, bktRegistry, bktLogs]"

text \<open>\<open>db.Update\<close>: the new database counts only when the function and the commit succeed.\<close>

definition db_update ::
  "'b Store \<Rightarrow> ('b db \<Rightarrow> store_err + ('a \<times> 'b db)) \<Rightarrow> (store_err + 'a) \<times> 'b Store" where
  "db_update s f =
     (if \<not> st_open s then (Inl DatabaseNotOpen, s)
      else case f (st_db s) of
          Inl e \<Rightarrow> (Inl e, s)
        | Inr (x, d) \<Rightarrow>
            let s1 = s\<lparr>st_txs := st_txs s + 1\<rparr>
            in if st_disk s (st_txs s) then (Inr x, s1\<lparr>st_db := d\<rparr>) else (Inl CommitFailed, s1))"

definition db_view :: "'b Store \<Rightarrow> ('b db \<Rightarrow> store_err + 'a) \<Rightarrow> store_err + 'a" where
  "db_view s f = (if \<not> st_open s then Inl DatabaseNotOpen else f (st_db s))"

definition in_bucket :: "'b db \<Rightarrow> string \<Rightarrow> ('b \<Rightarrow> store_err + 'a) \<Rightarrow> store_err + 'a" where
  "in_bucket d name f = (case d name of None \<Rightarrow> Inl Panicked | Some b \<Rightarrow> f b)"

definition change_bucket ::
  "'b db \<Rightarrow> string \<Rightarrow> ('b \<Rightarrow> store_err + ('a \<times> 'b)) \<Rightarrow> store_err + ('a \<times> 'b db)" where
  "change_bucket d name f =
     in_bucket d name (\<lambda>b. res_bind (f b) (\<lambda>(x, b'). Inr (x, d(name \<mapsto> b'))))"

definition put :: "'b bolt \<Rightarrow> 'b \<Rightarrow> bytes \<Rightarrow> bytes \<Rightarrow> store_err + 'b" where
  "put B b k v = (case bk_put B b k v of Inl e \<Rightarrow> Inl (BoltErr e) | Inr b' \<Rightarrow> Inr b')"

definition del :: "'b bolt \<Rightarrow> 'b \<Rightarrow> bytes \<Rightarrow> store_err + 'b" where
  "del B b k = (case bk_delete B b k of Inl e \<Rightarrow> Inl (BoltErr e) | Inr b' \<Rightarrow> Inr b')"

definition unseal :: "aead \<Rightarrow> bytes \<Rightarrow> store_err + bytes" where
  "unseal A v = (case state_open A v of Inl e \<Rightarrow> Inl (CryptoErr e) | Inr p \<Rightarrow> Inr p)"

text \<open>\<open>seal\<close> followed by \<open>db.Update\<close>, which is how every sealed value is written.\<close>

definition seal_then ::
  "'b Store \<Rightarrow> bytes \<Rightarrow> (bytes \<Rightarrow> 'b db \<Rightarrow> store_err + ('a \<times> 'b db)) \<Rightarrow> (store_err + 'a) \<times> 'b Store" where
  "seal_then s plain f =
     (let s1 = s\<lparr>st_rands := st_rands s + 1\<rparr>
      in case state_seal (st_aead s) (st_rand s (st_rands s)) plain of
          Inl e \<Rightarrow> (Inl (CryptoErr e), s1)
        | Inr enc \<Rightarrow> db_update s1 (f enc))"

section \<open>Opening and closing\<close>

text \<open>\<open>filepath.Ext\<close>: what follows the last dot of the last path element, dot included.\<close>

fun ext_rev :: "string \<Rightarrow> string \<Rightarrow> string" where
  "ext_rev [] acc = []"
| "ext_rev (c # cs) acc =
     (if c = CHR ''/'' then [] else if c = CHR ''.'' then c # acc else ext_rev cs (c # acc))"

definition Ext :: "string \<Rightarrow> string" where
  "Ext path = ext_rev (rev path) []"

fun create_buckets :: "'b bolt \<Rightarrow> 'b db \<Rightarrow> string list \<Rightarrow> 'b db" where
  "create_buckets B d [] = d"
| "create_buckets B d (n # ns) =
     create_buckets B (case d n of None \<Rightarrow> d(n \<mapsto> bk_new B) | Some _ \<Rightarrow> d) ns"

definition ensureBuckets :: "'b bolt \<Rightarrow> 'b Store \<Rightarrow> (store_err + unit) \<times> 'b Store" where
  "ensureBuckets B s = db_update s (\<lambda>d. Inr ((), create_buckets B d core_buckets))"

text \<open>
  \<open>Open\<close>: \<open>bolt_open\<close> is the database in the file (\<open>None\<close>: not opened within the time-out).
\<close>

definition Store_Open ::
  "'b bolt \<Rightarrow> hkdf \<Rightarrow> (string \<Rightarrow> int \<Rightarrow> 'b db option) \<Rightarrow> rng \<Rightarrow> (nat \<Rightarrow> bool) \<Rightarrow> string \<Rightarrow> int \<Rightarrow> string
     \<Rightarrow> store_err + 'b Store" where
  "Store_Open B hkdf bolt_open rand disk path timeout agentKey =
     (if path = [] then Inl EmptyPath
      else
        let path1 = (if Ext path = [] then path @ ''.db'' else path);
            t = (if timeout = 0 then 5 * 1000000000 else timeout)
        in case deriveStateKey hkdf agentKey of
            Inl e \<Rightarrow> Inl (CryptoErr e)
          | Inr key \<Rightarrow>
            (case newGCM key of
               Inl e \<Rightarrow> Inl (CryptoErr e)
             | Inr A \<Rightarrow>
               (case bolt_open path1 t of
                  None \<Rightarrow> Inl OpenBolt
                | Some d \<Rightarrow>
                   (case ensureBuckets B \<lparr>st_path = path1, st_db = d, st_open = True, st_aead = A,
                           st_rand = rand, st_rands = 0, st_disk = disk, st_txs = 0\<rparr> of
                      (Inl e, s) \<Rightarrow> Inl e
                    | (Inr _, s) \<Rightarrow> Inr s))))"

definition Store_Close :: "'b Store option \<Rightarrow> 'b Store option" where
  "Store_Close s = (case s of None \<Rightarrow> None | Some st \<Rightarrow> Some (st\<lparr>st_open := False\<rparr>))"

definition Store_Path :: "'b Store \<Rightarrow> string" where
  "Store_Path s = st_path s"

section \<open>The config bucket\<close>

definition u64Bytes :: "uint64 \<Rightarrow> bytes" where
  "u64Bytes n = put_u64 n"

definition bytesToU64 :: "bytes \<Rightarrow> uint64" where
  "bytesToU64 b = (if length b \<noteq> 8 then 0 else get_u64 b)"

definition SaveConfig :: "'b bolt \<Rightarrow> 'b Store \<Rightarrow> uint64 \<Rightarrow> bytes \<Rightarrow> (store_err + unit) \<times> 'b Store" where
  "SaveConfig B s version raw =
     seal_then s raw (\<lambda>enc d. change_bucket d bktConfig (\<lambda>b.
       res_bind (put B b keyConfigCurrent enc) (\<lambda>b1.
       res_bind (put B b1 keyConfigVersion (u64Bytes version)) (\<lambda>b2. Inr ((), b2)))))"

definition LoadConfig :: "'b bolt \<Rightarrow> 'b Store \<Rightarrow> store_err + (uint64 \<times> bytes)" where
  "LoadConfig B s =
     db_view s (\<lambda>d. in_bucket d bktConfig (\<lambda>b.
       case bk_get B b keyConfigCurrent of
         None \<Rightarrow> Inl ErrNotFound
       | Some v \<Rightarrow>
           res_bind (unseal (st_aead s) v) (\<lambda>pt.
             Inr (case bk_get B b keyConfigVersion of None \<Rightarrow> 0 | Some vb \<Rightarrow> bytesToU64 vb, pt))))"

section \<open>The queue bucket\<close>

definition EnqueueJob :: "'b bolt \<Rightarrow> 'b Store \<Rightarrow> string \<Rightarrow> bytes \<Rightarrow> (store_err + unit) \<times> 'b Store" where
  "EnqueueJob B s runID payload =
     (if runID = [] then (Inl EmptyRunID, s)
      else seal_then s payload (\<lambda>enc d. change_bucket d bktQueue (\<lambda>b.
        res_bind (put B b (bytes_of_string runID) enc) (\<lambda>b1. Inr ((), b1)))))"

text \<open>The cursor loops of \<open>DequeueJobs\<close> and \<open>DrainLogs\<close>: the first \<open>n\<close> items, opened.\<close>

fun open_items :: "aead \<Rightarrow> nat \<Rightarrow> (bytes \<times> bytes) list \<Rightarrow> store_err + (bytes \<times> bytes) list" where
  "open_items A 0 xs = Inr []"
| "open_items A (Suc n) [] = Inr []"
| "open_items A (Suc n) ((k, v) # xs) =
     res_bind (unseal A v) (\<lambda>pt. res_bind (open_items A n xs) (\<lambda>out. Inr ((k, pt) # out)))"

definition DequeueJobs :: "'b bolt \<Rightarrow> 'b Store \<Rightarrow> int \<Rightarrow> store_err + (string \<times> bytes) list" where
  "DequeueJobs B s n =
     (if n \<le> 0 then Inr []
      else db_view s (\<lambda>d. in_bucket d bktQueue (\<lambda>b.
        res_bind (open_items (st_aead s) (nat n) (bk_items B b)) (\<lambda>out.
          Inr (map (\<lambda>(k, pt). (string_of_bytes k, pt)) out)))))"

definition AckJob :: "'b bolt \<Rightarrow> 'b Store \<Rightarrow> string \<Rightarrow> (store_err + unit) \<times> 'b Store" where
  "AckJob B s runID =
     db_update s (\<lambda>d. change_bucket d bktQueue (\<lambda>b.
       res_bind (del B b (bytes_of_string runID)) (\<lambda>b1. Inr ((), b1))))"

definition QueueDepth :: "'b bolt \<Rightarrow> 'b Store \<Rightarrow> store_err + int" where
  "QueueDepth B s = db_view s (\<lambda>d. in_bucket d bktQueue (\<lambda>b. Inr (int (bk_key_n B b))))"

section \<open>The registry bucket\<close>

definition SaveSession :: "'b bolt \<Rightarrow> 'b Store \<Rightarrow> string \<Rightarrow> int64 \<Rightarrow> (store_err + unit) \<times> 'b Store" where
  "SaveSession B s sessionID serverTimeMs =
     seal_then s (bytes_of_string sessionID) (\<lambda>enc d. change_bucket d bktRegistry (\<lambda>b.
       res_bind (put B b keySessionID enc) (\<lambda>b1.
       res_bind (put B b1 keyServerTime (u64Bytes serverTimeMs)) (\<lambda>b2. Inr ((), b2)))))"

definition LoadSession :: "'b bolt \<Rightarrow> 'b Store \<Rightarrow> store_err + string" where
  "LoadSession B s =
     db_view s (\<lambda>d. in_bucket d bktRegistry (\<lambda>b.
       case bk_get B b keySessionID of
         None \<Rightarrow> Inl ErrNotFound
       | Some v \<Rightarrow> res_bind (unseal (st_aead s) v) (\<lambda>pt. Inr (string_of_bytes pt))))"

definition RecordHeartbeat :: "'b bolt \<Rightarrow> 'b Store \<Rightarrow> int64 \<Rightarrow> (store_err + unit) \<times> 'b Store" where
  "RecordHeartbeat B s tsMs =
     db_update s (\<lambda>d. change_bucket d bktRegistry (\<lambda>b.
       res_bind (put B b keyHeartbeat (u64Bytes tsMs)) (\<lambda>b1. Inr ((), b1))))"

definition LastHeartbeat :: "'b bolt \<Rightarrow> 'b Store \<Rightarrow> store_err + int64" where
  "LastHeartbeat B s =
     db_view s (\<lambda>d. in_bucket d bktRegistry (\<lambda>b.
       Inr (case bk_get B b keyHeartbeat of None \<Rightarrow> 0 | Some v \<Rightarrow> bytesToU64 v)))"

section \<open>The logs buffer\<close>

definition log_key :: "int64 \<Rightarrow> uint64 \<Rightarrow> bytes" where
  "log_key tsMs sq = put_u64 tsMs @ put_u64 sq"

definition BufferLog :: "'b bolt \<Rightarrow> 'b Store \<Rightarrow> int64 \<Rightarrow> bytes \<Rightarrow> (store_err + unit) \<times> 'b Store" where
  "BufferLog B s tsMs payload =
     seal_then s payload (\<lambda>enc d. change_bucket d bktLogs (\<lambda>b.
       case bk_next_sequence B b of
         (sq, b1) \<Rightarrow> res_bind (put B b1 (log_key tsMs sq) enc) (\<lambda>b2. Inr ((), b2))))"

fun delete_keys :: "'b bolt \<Rightarrow> 'b \<Rightarrow> bytes list \<Rightarrow> store_err + 'b" where
  "delete_keys B b [] = Inr b"
| "delete_keys B b (k # ks) = res_bind (del B b k) (\<lambda>b1. delete_keys B b1 ks)"

definition DrainLogs :: "'b bolt \<Rightarrow> 'b Store \<Rightarrow> int \<Rightarrow> (store_err + bytes list) \<times> 'b Store" where
  "DrainLogs B s n =
     (if n \<le> 0 then (Inr [], s)
      else db_update s (\<lambda>d. change_bucket d bktLogs (\<lambda>b.
        res_bind (open_items (st_aead s) (nat n) (bk_items B b)) (\<lambda>out.
        res_bind (delete_keys B b (map fst out)) (\<lambda>b1. Inr (map snd out, b1))))))"

end
