(* ===== verification/Store_Laws.thy ===== *)
theory Store_Laws
  imports Store
begin

text \<open>
  What the \<open>Store\<close> guarantees on top of the laws of bbolt and of the cipher: its invariant (the
  handle is open and the four buckets exist), which every operation keeps, all-or-nothing
  changes, and the effect of each operation on the bucket it works on.
\<close>

section \<open>The invariant\<close>

definition buckets_ok :: "('b \<Rightarrow> bool) \<Rightarrow> 'b db \<Rightarrow> bool" where
  "buckets_ok ok d \<longleftrightarrow> (\<forall>n \<in> set core_buckets. \<exists>b. d n = Some b \<and> ok b)"

definition store_ok :: "('b \<Rightarrow> bool) \<Rightarrow> 'b Store \<Rightarrow> bool" where
  "store_ok ok s \<longleftrightarrow> st_open s \<and> aead_laws (st_aead s) \<and> buckets_ok ok (st_db s)"

lemma core_bucket_names [simp]:
  "bktConfig \<in> set core_buckets" "bktQueue \<in> set core_buckets"
  "bktRegistry \<in> set core_buckets" "bktLogs \<in> set core_buckets"
  by (simp_all add: core_buckets_def)

lemma bucket_names_distinct [simp]:
  "bktConfig \<noteq> bktQueue" "bktConfig \<noteq> bktRegistry" "bktConfig \<noteq> bktLogs" "bktQueue \<noteq> bktConfig"
  "bktQueue \<noteq> bktRegistry" "bktQueue \<noteq> bktLogs" "bktRegistry \<noteq> bktConfig" "bktRegistry \<noteq> bktQueue"
  "bktRegistry \<noteq> bktLogs" "bktLogs \<noteq> bktConfig" "bktLogs \<noteq> bktQueue" "bktLogs \<noteq> bktRegistry"
  by (simp_all add: bucket_names)

lemma bucket_exists:
  assumes "buckets_ok ok d" "n \<in> set core_buckets"
  obtains b where "d n = Some b" "ok b"
  using assms by (auto simp: buckets_ok_def)

lemma buckets_ok_upd: "buckets_ok ok d \<Longrightarrow> ok b \<Longrightarrow> buckets_ok ok (d(n \<mapsto> b))"
  by (auto simp: buckets_ok_def)

section \<open>Outcomes of the functions run in a transaction\<close>

text \<open>Weakest preconditions: no panic, and \<open>Q\<close> of the result when there is one.\<close>

definition outcome :: "('a \<Rightarrow> bool) \<Rightarrow> store_err + 'a \<Rightarrow> bool" where
  "outcome Q m \<longleftrightarrow> (case m of Inl e \<Rightarrow> e \<noteq> Panicked | Inr x \<Rightarrow> Q x)"

lemma outcome_simps [simp]: "outcome Q (Inr x) = Q x" "outcome Q (Inl e) \<longleftrightarrow> e \<noteq> Panicked"
  by (simp_all add: outcome_def)

lemma outcome_bind: "outcome (\<lambda>x. outcome Q (f x)) m \<Longrightarrow> outcome Q (res_bind m f)"
  by (cases m) simp_all

lemma outcome_mono: "outcome P m \<Longrightarrow> (\<And>x. P x \<Longrightarrow> Q x) \<Longrightarrow> outcome Q m"
  by (cases m) simp_all

section \<open>Operations that change the database\<close>

text \<open>
  The three ways an operation on bucket \<open>n\<close> can end: refused without an effect, or committed
  with that one bucket replaced by what \<open>f\<close> made of it.
\<close>

definition changes_bucket ::
  "string \<Rightarrow> 'b Store \<Rightarrow> ('b \<Rightarrow> 'a \<Rightarrow> 'b \<Rightarrow> bool) \<Rightarrow> (store_err + 'a) \<times> 'b Store \<Rightarrow> bool" where
  "changes_bucket n s R res \<longleftrightarrow>
     (case res of (r, s') \<Rightarrow>
        st_open s' = st_open s \<and> st_aead s' = st_aead s \<and> st_path s' = st_path s
        \<and> st_rand s' = st_rand s \<and> st_disk s' = st_disk s
        \<and> (case r of
             Inl e \<Rightarrow> st_db s' = st_db s \<and> e \<noteq> Panicked
           | Inr x \<Rightarrow> \<exists>b b'. st_db s n = Some b \<and> R b x b' \<and> st_db s' = (st_db s)(n \<mapsto> b')))"

lemma changes_bucket_mono:
  "changes_bucket n s R res \<Longrightarrow> (\<And>b x b'. st_db s n = Some b \<Longrightarrow> R b x b' \<Longrightarrow> R' b x b') \<Longrightarrow> changes_bucket n s R' res"
  by (simp add: changes_bucket_def split: prod.splits sum.splits) metis

lemma db_update_changes:
  assumes "buckets_ok ok (st_db s)" "n \<in> set core_buckets"
    and "\<And>b. ok b \<Longrightarrow> outcome (\<lambda>(x, b'). R b x b') (f b)"
  shows "changes_bucket n s R (db_update s (\<lambda>d. change_bucket d n f))"
proof -
  obtain b where b: "st_db s n = Some b" "ok b" by (rule bucket_exists [OF assms(1,2)])
  note eval = changes_bucket_def db_update_def change_bucket_def in_bucket_def Let_def b(1)
  show ?thesis
  proof (cases "f b")
    case (Inl e)
    with assms(3) [OF b(2)] show ?thesis by (simp add: eval)
  next
    case (Inr y)
    with assms(3) [OF b(2)] show ?thesis by (cases y) (auto simp: eval)
  qed
qed

lemma seal_then_changes:
  assumes "buckets_ok ok (st_db s)" "n \<in> set core_buckets" "aead_laws (st_aead s)"
    and "\<And>b enc. ok b \<Longrightarrow> state_open (st_aead s) enc = Inr plain \<Longrightarrow>
        length enc = length plain + 29 \<Longrightarrow> outcome (\<lambda>(x, b'). R b x b') (f enc b)"
  shows "changes_bucket n s R (seal_then s plain (\<lambda>enc d. change_bucket d n (f enc)))"
proof (cases "state_seal (st_aead s) (st_rand s (st_rands s)) plain")
  case (Inl e)
  then show ?thesis by (simp add: seal_then_def changes_bucket_def)
next
  case (Inr enc)
  note sealed = aead_laws.state_open_seal [OF assms(3) Inr] aead_laws.length_state_seal [OF assms(3) Inr]
  have "changes_bucket n (s\<lparr>st_rands := st_rands s + 1\<rparr>) R
      (db_update (s\<lparr>st_rands := st_rands s + 1\<rparr>) (\<lambda>d. change_bucket d n (f enc)))"
    using assms(1,2,4) sealed by (intro db_update_changes [where ok = ok]) simp_all
  with Inr show ?thesis by (simp add: seal_then_def changes_bucket_def cong: sum.case_cong)
qed

lemma changes_store_ok:
  assumes "changes_bucket n s R (r, s')" "store_ok ok s" "\<And>b x b'. ok b \<Longrightarrow> R b x b' \<Longrightarrow> ok b'" "n \<in> set core_buckets"
  shows "store_ok ok s'"
proof -
  obtain b where b: "st_db s n = Some b" "ok b"
    using assms(2,4) by (auto simp: store_ok_def elim: bucket_exists)
  with assms show ?thesis
    by (cases r) (auto simp: changes_bucket_def store_ok_def intro!: buckets_ok_upd)
qed

lemma changes_other_bucket: "changes_bucket n s R (r, s') \<Longrightarrow> m \<noteq> n \<Longrightarrow> st_db s' m = st_db s m"
  by (cases r) (auto simp: changes_bucket_def)

lemma changes_failed: "changes_bucket n s R (Inl e, s') \<Longrightarrow> st_db s' = st_db s"
  by (simp add: changes_bucket_def)

lemma unseal_eq: "state_open A v = Inr p \<Longrightarrow> unseal A v = Inr p"
  by (simp add: unseal_def)

lemma open_items_Inr:
  "(\<forall>(k, v) \<in> set xs. \<exists>p. unseal A v = Inr p) \<Longrightarrow>
     open_items A n xs = Inr (map (\<lambda>(k, v). (k, projr (unseal A v))) (take n xs))"
  by (induction A n xs rule: open_items.induct) auto

lemma open_items_keys: "open_items A n xs = Inr out \<Longrightarrow> map fst out = map fst (take n xs)"
  by (induction A n xs arbitrary: out rule: open_items.induct) (auto simp: res_eq_Inr)

lemma unseal_not_panic: "unseal A v \<noteq> Inl Panicked"
  by (simp add: unseal_def split: sum.split)

lemma open_items_not_panic: "open_items A n xs \<noteq> Inl Panicked"
  by (induction A n xs rule: open_items.induct) (auto simp: res_bind_eq_Inl unseal_not_panic)

lemma filter_not_in_take:
  "distinct (map fst xs) \<Longrightarrow> filter (\<lambda>(k, v). k \<notin> set (map fst (take n xs))) xs = drop n xs"
proof (induction xs arbitrary: n)
  case (Cons x xs)
  show ?case
  proof (cases n)
    case 0
    then show ?thesis by (simp add: case_prod_beta')
  next
    case (Suc m)
    have ne: "fst y \<noteq> fst x" if "y \<in> set xs" for y
      using Cons.prems that by (metis distinct.simps(2) list.simps(9) image_eqI list.set_map)
    have "filter (\<lambda>(k, v). k \<notin> insert (fst x) (set (map fst (take m xs)))) xs
        = filter (\<lambda>(k, v). k \<notin> set (map fst (take m xs))) xs"
      by (intro filter_cong) (auto simp: case_prod_beta' dest: ne)
    with Cons Suc show ?thesis by (cases x) simp
  qed
qed simp

section \<open>The effect of each operation on its bucket\<close>

context bolt_laws
begin

lemma put_outcome:
  assumes "ok b"
  shows "outcome (\<lambda>b'. ok b' \<and> map_of (bk_items B b') = (map_of (bk_items B b))(k \<mapsto> v)
      \<and> bk_sequence B b' = bk_sequence B b
      \<and> (\<forall>j. bk_get B b' j = (if j = k then Some v else bk_get B b j))) (Store.put B b k v)"
proof (cases "bk_put B b k v")
  case (Inl e)
  then show ?thesis by (simp add: Store.put_def)
next
  case (Inr b')
  from put_effect [OF assms Inr] assms Inr show ?thesis by (simp add: Store.put_def get_items)
qed

lemma del_effect:
  assumes "ok b"
  obtains b' where "Store.del B b k = Inr b'" "ok b'" "bk_sequence B b' = bk_sequence B b"
    "bk_items B b' = filter (\<lambda>(k', v). k' \<noteq> k) (bk_items B b)"
proof -
  obtain b' where "bk_delete B b k = Inr b'" using delete_succeeds [OF assms] by blast
  with delete_effect [OF assms this] delete_items [OF assms this] show thesis
    by (intro that) (simp_all add: Store.del_def)
qed

lemma delete_keys_effect:
  assumes "ok b"
  shows "\<exists>b'. delete_keys B b ks = Inr b' \<and> ok b' \<and> bk_sequence B b' = bk_sequence B b
    \<and> bk_items B b' = filter (\<lambda>(k, v). k \<notin> set ks) (bk_items B b)"
  using assms
proof (induction ks arbitrary: b)
  case Nil
  then show ?case by (simp add: case_prod_beta')
next
  case (Cons k ks)
  obtain b1 where b1: "Store.del B b k = Inr b1" "ok b1"
    "bk_items B b1 = filter (\<lambda>(k', v). k' \<noteq> k) (bk_items B b)" "bk_sequence B b1 = bk_sequence B b"
    by (rule del_effect [OF Cons.prems])
  from Cons.IH [OF b1(2)] obtain b' where "delete_keys B b1 ks = Inr b'" "ok b'"
    "bk_sequence B b' = bk_sequence B b" "bk_items B b' = filter (\<lambda>(k, v). k \<notin> set ks) (bk_items B b1)"
    using b1(4) by auto
  moreover have "filter (\<lambda>(k, v). k \<notin> set ks) (bk_items B b1) = filter (\<lambda>(j, v). j \<notin> set (k # ks)) (bk_items B b)"
    unfolding b1(3) filter_filter by (rule filter_cong) auto
  ultimately show ?case using b1(1) by simp
qed

text \<open>
  One lemma per operation: the bucket it works on and what it makes of it. The operations are
  stated for a store whose buckets are \<open>ok\<close> and whose cipher obeys its laws.
\<close>

lemma SaveConfig_changes:
  assumes "buckets_ok ok (st_db s)" "aead_laws (st_aead s)"
  shows "changes_bucket bktConfig s (\<lambda>b x b'. ok b'
    \<and> (\<exists>enc. bk_get B b' keyConfigCurrent = Some enc \<and> state_open (st_aead s) enc = Inr raw)
    \<and> bk_get B b' keyConfigVersion = Some (u64Bytes version)) (SaveConfig B s version raw)"
  unfolding SaveConfig_def
proof (rule seal_then_changes [OF assms(1) _ assms(2)])
  fix b enc
  assume "ok b" and enc: "state_open (st_aead s) enc = Inr raw"
  show "outcome (\<lambda>(x, b'). ok b'
      \<and> (\<exists>enc. bk_get B b' keyConfigCurrent = Some enc \<and> state_open (st_aead s) enc = Inr raw)
      \<and> bk_get B b' keyConfigVersion = Some (u64Bytes version))
     (res_bind (Store.put B b keyConfigCurrent enc) (\<lambda>b1.
       res_bind (Store.put B b1 keyConfigVersion (u64Bytes version)) (\<lambda>b2. Inr ((), b2))))"
    using enc
    by (intro outcome_bind outcome_mono [OF put_outcome [OF \<open>ok b\<close>]], elim conjE)
       (erule outcome_mono [OF put_outcome],
        simp add: keyConfigCurrent_def keyConfigVersion_def)
qed simp

lemma EnqueueJob_changes:
  assumes "buckets_ok ok (st_db s)" "aead_laws (st_aead s)" "runID \<noteq> []"
  shows "changes_bucket bktQueue s (\<lambda>b x b'. ok b' \<and> (\<exists>enc. state_open (st_aead s) enc = Inr payload
    \<and> map_of (bk_items B b') = (map_of (bk_items B b))(bytes_of_string runID \<mapsto> enc))) (EnqueueJob B s runID payload)"
proof -
  have "changes_bucket bktQueue s (\<lambda>b x b'. ok b' \<and> (\<exists>enc. state_open (st_aead s) enc = Inr payload
    \<and> map_of (bk_items B b') = (map_of (bk_items B b))(bytes_of_string runID \<mapsto> enc)))
    (seal_then s payload (\<lambda>enc d. change_bucket d bktQueue (\<lambda>b.
        res_bind (Store.put B b (bytes_of_string runID) enc) (\<lambda>b1. Inr ((), b1)))))"
    by (rule seal_then_changes [OF assms(1) _ assms(2)], simp,
        rule outcome_bind, erule outcome_mono [OF put_outcome], auto)
  with assms(3) show ?thesis by (simp add: EnqueueJob_def)
qed

lemma AckJob_changes:
  assumes "buckets_ok ok (st_db s)"
  shows "changes_bucket bktQueue s (\<lambda>b x b'. ok b'
    \<and> bk_items B b' = filter (\<lambda>(k, v). k \<noteq> bytes_of_string runID) (bk_items B b)) (AckJob B s runID)"
  unfolding AckJob_def
proof (rule db_update_changes [OF assms])
  fix b assume "ok b"
  then obtain b' where "Store.del B b (bytes_of_string runID) = Inr b'" "ok b'"
    "bk_items B b' = filter (\<lambda>(k', v). k' \<noteq> bytes_of_string runID) (bk_items B b)" by (rule del_effect)
  then show "outcome (\<lambda>(x, b'). ok b'
      \<and> bk_items B b' = filter (\<lambda>(k, v). k \<noteq> bytes_of_string runID) (bk_items B b))
     (res_bind (Store.del B b (bytes_of_string runID)) (\<lambda>b1. Inr ((), b1)))" by simp
qed simp

lemma SaveSession_changes:
  assumes "buckets_ok ok (st_db s)" "aead_laws (st_aead s)"
  shows "changes_bucket bktRegistry s (\<lambda>b x b'. ok b'
    \<and> (\<exists>enc. bk_get B b' keySessionID = Some enc \<and> state_open (st_aead s) enc = Inr (bytes_of_string sid))
    \<and> bk_get B b' keyHeartbeat = bk_get B b keyHeartbeat) (SaveSession B s sid ts)"
  unfolding SaveSession_def
proof (rule seal_then_changes [OF assms(1) _ assms(2)])
  fix b enc
  assume "ok b" and enc: "state_open (st_aead s) enc = Inr (bytes_of_string sid)"
  show "outcome (\<lambda>(x, b'). ok b'
      \<and> (\<exists>enc. bk_get B b' keySessionID = Some enc \<and> state_open (st_aead s) enc = Inr (bytes_of_string sid))
      \<and> bk_get B b' keyHeartbeat = bk_get B b keyHeartbeat)
     (res_bind (Store.put B b keySessionID enc) (\<lambda>b1.
       res_bind (Store.put B b1 keyServerTime (u64Bytes ts)) (\<lambda>b2. Inr ((), b2))))"
    using enc
    by (intro outcome_bind outcome_mono [OF put_outcome [OF \<open>ok b\<close>]], elim conjE)
       (erule outcome_mono [OF put_outcome],
        simp add: keySessionID_def keyServerTime_def keyHeartbeat_def)
qed simp

lemma RecordHeartbeat_changes:
  assumes "buckets_ok ok (st_db s)"
  shows "changes_bucket bktRegistry s (\<lambda>b x b'. ok b' \<and> bk_get B b' keyHeartbeat = Some (u64Bytes ts)
    \<and> bk_get B b' keySessionID = bk_get B b keySessionID) (RecordHeartbeat B s ts)"
  unfolding RecordHeartbeat_def
  by (rule db_update_changes [OF assms], simp, rule outcome_bind, erule outcome_mono [OF put_outcome])
     (simp add: keyHeartbeat_def keySessionID_def)

lemma BufferLog_changes:
  assumes "buckets_ok ok (st_db s)" "aead_laws (st_aead s)"
  shows "changes_bucket bktLogs s (\<lambda>b x b'. ok b' \<and> bk_sequence B b' = bk_sequence B b + 1
    \<and> (\<exists>enc. state_open (st_aead s) enc = Inr payload \<and> map_of (bk_items B b') =
          (map_of (bk_items B b))(log_key ts (bk_sequence B b + 1) \<mapsto> enc))) (BufferLog B s ts payload)"
  unfolding BufferLog_def
proof (rule seal_then_changes [OF assms(1) _ assms(2)])
  fix b enc
  assume b: "ok b" and enc: "state_open (st_aead s) enc = Inr payload"
  obtain n b1 where n: "bk_next_sequence B b = (n, b1)" by fastforce
  from next_sequence_effect [OF b n] have "ok b1" "bk_items B b1 = bk_items B b"
    "n = bk_sequence B b + 1" "bk_sequence B b1 = n" by simp_all
  with n enc show "outcome (\<lambda>(x, b'). ok b' \<and> bk_sequence B b' = bk_sequence B b + 1
    \<and> (\<exists>enc. state_open (st_aead s) enc = Inr payload \<and> map_of (bk_items B b') =
          (map_of (bk_items B b))(log_key ts (bk_sequence B b + 1) \<mapsto> enc)))
    (case bk_next_sequence B b of (sq, b1) \<Rightarrow> res_bind (Store.put B b1 (log_key ts sq) enc) (\<lambda>b2. Inr ((), b2)))"
    by (auto intro!: outcome_bind outcome_mono [OF put_outcome])
qed simp

lemma DrainLogs_changes:
  assumes "buckets_ok ok (st_db s)" "0 < n"
  shows "changes_bucket bktLogs s (\<lambda>b x b'. ok b' \<and> bk_sequence B b' = bk_sequence B b
    \<and> (\<exists>out. open_items (st_aead s) (nat n) (bk_items B b) = Inr out \<and> x = map snd out)
    \<and> bk_items B b' = drop (nat n) (bk_items B b)) (DrainLogs B s n)"
proof -
  have "outcome (\<lambda>(x, b'). ok b' \<and> bk_sequence B b' = bk_sequence B b
      \<and> (\<exists>out. open_items (st_aead s) (nat n) (bk_items B b) = Inr out \<and> x = map snd out)
      \<and> bk_items B b' = drop (nat n) (bk_items B b))
     (res_bind (open_items (st_aead s) (nat n) (bk_items B b)) (\<lambda>out.
        res_bind (delete_keys B b (map fst out)) (\<lambda>b1. Inr (map snd out, b1))))" if "ok b" for b
  proof (cases "open_items (st_aead s) (nat n) (bk_items B b)")
    case (Inl e)
    then show ?thesis using open_items_not_panic [of "st_aead s" "nat n" "bk_items B b"] by auto
  next
    case (Inr out)
    from delete_keys_effect [OF that, of "map fst out"] obtain b' where b':
      "delete_keys B b (map fst out) = Inr b'" "ok b'" "bk_sequence B b' = bk_sequence B b"
      "bk_items B b' = filter (\<lambda>(k, v). k \<notin> set (map fst out)) (bk_items B b)" by blast
    have "bk_items B b' = drop (nat n) (bk_items B b)"
      unfolding b'(4) open_items_keys [OF Inr]
      by (rule filter_not_in_take) (rule key_sorted_distinct [OF items_sorted [OF that]])
    with Inr b' show ?thesis by simp
  qed
  with assms show ?thesis
    by (simp add: DrainLogs_def) (rule db_update_changes [OF assms(1)], simp_all)
qed

end

end
