(* ===== verification/Job_Queue.thy ===== *)
theory Job_Queue
  imports Store_Laws
begin

text \<open>
  \<open>internal/queue/queue.go\<close>: the \<open>Queue\<close> interface as a record of operations, the locale
  \<open>job_queue\<close> with the contract its callers rely on (a map from run id to payload, popped in the
  byte order of the ids and kept until acknowledged), and \<open>boltQueue\<close>, which is shown to fulfil
  it over any bbolt that obeys \<open>bolt_laws\<close>.
\<close>

section \<open>The Queue interface\<close>

type_synonym job = "string \<times> bytes" \<comment> \<open>\<open>Job\<close>: RunID and Payload\<close>

record 'q queue =
  Enqueue :: "'q \<Rightarrow> string \<Rightarrow> bytes \<Rightarrow> store_err option \<times> 'q"
  Pop :: "'q \<Rightarrow> int \<Rightarrow> store_err + job list"
  Ack :: "'q \<Rightarrow> string \<Rightarrow> store_err option \<times> 'q"
  Depth :: "'q \<Rightarrow> store_err + int"

text \<open>An operation of a client, and a sequence of them with the outcome of each.\<close>

datatype queue_op = QEnqueue string bytes | QAck string

fun queue_step :: "'q queue \<Rightarrow> 'q \<Rightarrow> queue_op \<Rightarrow> store_err option \<times> 'q" where
  "queue_step Q q (QEnqueue r p) = Enqueue Q q r p"
| "queue_step Q q (QAck r) = Ack Q q r"

fun queue_run :: "'q queue \<Rightarrow> 'q \<Rightarrow> queue_op list \<Rightarrow> store_err option list \<times> 'q" where
  "queue_run Q q [] = ([], q)"
| "queue_run Q q (x # xs) =
     (let (e, q1) = queue_step Q q x; (es, q2) = queue_run Q q1 xs in (e # es, q2))"

text \<open>The specification: a map, changed by the operations that reported success.\<close>

fun queue_spec :: "(string \<rightharpoonup> bytes) \<Rightarrow> queue_op list \<Rightarrow> store_err option list \<Rightarrow> (string \<rightharpoonup> bytes)" where
  "queue_spec m (QEnqueue r p # xs) (None # es) = queue_spec (m(r \<mapsto> p)) xs es"
| "queue_spec m (QAck r # xs) (None # es) = queue_spec (m(r := None)) xs es"
| "queue_spec m (x # xs) (Some e # es) = queue_spec m xs es"
| "queue_spec m _ _ = m"

locale job_queue =
  fixes Q :: "'q queue" and ok :: "'q \<Rightarrow> bool" and pending :: "'q \<Rightarrow> job list"
  assumes sorted: "ok q \<Longrightarrow> sorted_wrt (<) (map (\<lambda>j. bytes_of_string (fst j)) (pending q))"
    and enqueue: "ok q \<Longrightarrow> Enqueue Q q r p = (e, q') \<Longrightarrow> ok q' \<and>
        (if e = None then map_of (pending q') = (map_of (pending q))(r \<mapsto> p) else pending q' = pending q)"
    and pop: "ok q \<Longrightarrow> Pop Q q n = Inr (take (nat n) (pending q))"
    and ack: "ok q \<Longrightarrow> Ack Q q r = (e, q') \<Longrightarrow> ok q' \<and>
        pending q' = (if e = None then filter (\<lambda>j. fst j \<noteq> r) (pending q) else pending q)"
    and depth: "ok q \<Longrightarrow> Depth Q q = Inr (int (length (pending q)))"
begin

lemma ids_distinct:
  assumes "ok q"
  shows "distinct (map fst (pending q))"
proof -
  have "distinct (map (\<lambda>j. bytes_of_string (fst j)) (pending q))"
    using sorted [OF assms] by (simp add: strict_sorted_iff)
  then have "distinct (map bytes_of_string (map fst (pending q)))" by (simp add: comp_def)
  then show ?thesis by (simp only: distinct_map)
qed

lemma ack_head:
  assumes "ok q" "pending q = (r, p) # js" "Ack Q q r = (None, q')"
  shows "ok q' \<and> pending q' = js"
proof -
  have "filter (\<lambda>j. fst j \<noteq> r) js = js"
    using ids_distinct [OF assms(1)] assms(2) by (intro filter_True) (auto simp: image_iff)
  with ack [OF assms(1,3)] assms(2) show ?thesis by simp
qed

lemma map_of_ack: "map_of (filter (\<lambda>j. fst j \<noteq> r) js) = (map_of js)(r := None)"
  by (induction js) auto

lemma step_spec:
  assumes "ok q" "queue_step Q q x = (e, q')"
  shows "ok q' \<and> map_of (pending q') = queue_spec (map_of (pending q)) [x] [e]"
proof (cases x)
  case (QEnqueue r p)
  with assms enqueue [of q r p e q'] show ?thesis by (cases e) auto
next
  case (QAck r)
  with assms ack [of q r e q'] show ?thesis by (cases e) (auto simp: map_of_ack)
qed

lemma queue_spec_Cons: "queue_spec m (x # xs) (e # es) = queue_spec (queue_spec m [x] [e]) xs es"
  by (cases x; cases e) simp_all

lemma run_spec:
  "ok q \<Longrightarrow> queue_run Q q xs = (es, q') \<Longrightarrow>
     ok q' \<and> map_of (pending q') = queue_spec (map_of (pending q)) xs es"
proof (induction xs arbitrary: q es)
  case (Cons x xs)
  obtain e q1 where s: "queue_step Q q x = (e, q1)" by fastforce
  with Cons.prems(2) obtain es' where r: "queue_run Q q1 xs = (es', q')" "es = e # es'"
    by (auto split: prod.splits)
  from step_spec [OF Cons.prems(1) s] Cons.IH [OF _ r(1)]
  have "ok q'" "map_of (pending q') = queue_spec (queue_spec (map_of (pending q)) [x] [e]) xs es'" by simp_all
  then show ?case unfolding r(2) by (simp only: queue_spec_Cons [of _ x xs e es'] simp_thms)
qed simp

end

section \<open>boltQueue\<close>

definition err_of :: "(store_err + unit) \<times> 's \<Rightarrow> store_err option \<times> 's" where
  "err_of r = (case r of (Inl e, s) \<Rightarrow> (Some e, s) | (Inr _, s) \<Rightarrow> (None, s))"

definition boltQueue_Enqueue :: "'b bolt \<Rightarrow> 'b Store \<Rightarrow> string \<Rightarrow> bytes \<Rightarrow> store_err option \<times> 'b Store" where
  "boltQueue_Enqueue B s runID payload = err_of (EnqueueJob B s runID payload)"

definition boltQueue_Pop :: "'b bolt \<Rightarrow> 'b Store \<Rightarrow> int \<Rightarrow> store_err + job list" where
  "boltQueue_Pop B s n = res_bind (DequeueJobs B s n) (\<lambda>raw. Inr (map (\<lambda>(r, p). (r, p)) raw))"

definition boltQueue_Ack :: "'b bolt \<Rightarrow> 'b Store \<Rightarrow> string \<Rightarrow> store_err option \<times> 'b Store" where
  "boltQueue_Ack B s runID = err_of (AckJob B s runID)"

definition boltQueue_Depth :: "'b bolt \<Rightarrow> 'b Store \<Rightarrow> store_err + int" where
  "boltQueue_Depth B s = QueueDepth B s"

definition boltQueue :: "'b bolt \<Rightarrow> 'b Store queue" where
  "boltQueue B =
     \<lparr>Enqueue = boltQueue_Enqueue B, Pop = boltQueue_Pop B, Ack = boltQueue_Ack B, Depth = boltQueue_Depth B\<rparr>"

text \<open>The invariant of the queue, and its content as the abstract list of jobs.\<close>

definition queue_inv :: "'b bolt \<Rightarrow> ('b \<Rightarrow> bool) \<Rightarrow> 'b Store \<Rightarrow> bool" where
  "queue_inv B ok s \<longleftrightarrow> store_ok ok s \<and>
     (\<forall>b. st_db s bktQueue = Some b \<longrightarrow> (\<forall>j \<in> set (bk_items B b). \<exists>p. state_open (st_aead s) (snd j) = Inr p))"

definition pending_jobs :: "'b bolt \<Rightarrow> 'b Store \<Rightarrow> job list" where
  "pending_jobs B s =
     (case st_db s bktQueue of
        None \<Rightarrow> []
      | Some b \<Rightarrow> map (\<lambda>(k, v). (string_of_bytes k, projr (state_open (st_aead s) v))) (bk_items B b))"

lemma map_of_decoded:
  "map_of (map (\<lambda>(k, v). (string_of_bytes k, g v)) xs) r = map_option g (map_of xs (bytes_of_string r))"
  by (induction xs) auto

lemma queue_bucket:
  assumes "queue_inv B ok s"
  obtains b where "st_db s bktQueue = Some b" "ok b" "\<forall>j \<in> set (bk_items B b). \<exists>p. state_open (st_aead s) (snd j) = Inr p"
  using assms bucket_exists [of ok "st_db s" bktQueue] by (auto simp: queue_inv_def store_ok_def)

lemma unseal_projr: "state_open A v = Inr p \<Longrightarrow> projr (unseal A v) = projr (state_open A v)"
  by (simp add: unseal_def)

context bolt_laws
begin

lemma queue_sorted:
  assumes "queue_inv B ok s"
  shows "sorted_wrt (<) (map (\<lambda>j. bytes_of_string (fst j)) (pending_jobs B s))"
proof -
  obtain b where b: "st_db s bktQueue = Some b" "ok b" by (rule queue_bucket [OF assms])
  have "map (\<lambda>j. bytes_of_string (fst j)) (pending_jobs B s) = map fst (bk_items B b)"
    using b(1) by (simp add: pending_jobs_def case_prod_beta' comp_def)
  with items_sorted [OF b(2)] show ?thesis by (simp add: key_sorted_def)
qed

lemma queue_enqueue:
  assumes inv: "queue_inv B ok s" and run: "boltQueue_Enqueue B s r p = (e, s')"
  shows "queue_inv B ok s' \<and> (if e = None then map_of (pending_jobs B s') = (map_of (pending_jobs B s))(r \<mapsto> p)
    else pending_jobs B s' = pending_jobs B s)"
proof (cases "r = []")
  case True
  with inv run show ?thesis by (auto simp: boltQueue_Enqueue_def EnqueueJob_def err_of_def)
next
  case False
  obtain b where b: "st_db s bktQueue = Some b" "ok b" "\<forall>j \<in> set (bk_items B b). \<exists>p. state_open (st_aead s) (snd j) = Inr p"
    by (rule queue_bucket [OF inv])
  obtain x where x: "EnqueueJob B s r p = (x, s')" "e = (case x of Inl e \<Rightarrow> Some e | Inr _ \<Rightarrow> None)"
    using run by (cases "EnqueueJob B s r p") (auto simp: boltQueue_Enqueue_def err_of_def split: sum.splits)
  note ch = EnqueueJob_changes [of s r p, OF _ _ False, unfolded x(1)]
  have ch: "changes_bucket bktQueue s (\<lambda>b x b'. ok b' \<and> (\<exists>enc. state_open (st_aead s) enc = Inr p
      \<and> map_of (bk_items B b') = (map_of (bk_items B b))(bytes_of_string r \<mapsto> enc))) (x, s')"
    using inv by (intro ch) (simp_all add: queue_inv_def store_ok_def)
  have ok': "store_ok ok s'"
    by (rule changes_store_ok [OF ch]) (use inv in \<open>simp_all add: queue_inv_def\<close>)
  show ?thesis
  proof (cases x)
    case (Inl err)
    with ch x inv ok' show ?thesis
      by (simp add: changes_bucket_def queue_inv_def pending_jobs_def cong: option.case_cong)
  next
    case (Inr u)
    with ch b obtain b' enc where b': "st_db s' bktQueue = Some b'" "state_open (st_aead s) enc = Inr p"
      "map_of (bk_items B b') = (map_of (bk_items B b))(bytes_of_string r \<mapsto> enc)" "st_aead s' = st_aead s" "ok b'"
      by (auto simp: changes_bucket_def)
    have "\<exists>q. state_open (st_aead s) (snd j) = Inr q" if "j \<in> set (bk_items B b')" for j
    proof -
      from that key_sorted_distinct [OF items_sorted [OF b'(5)]] have "map_of (bk_items B b') (fst j) = Some (snd j)"
        by simp
      with b'(2,3) b(3) show ?thesis by (fastforce dest: map_of_SomeD split: if_splits)
    qed
    moreover have "map_of (pending_jobs B s') = (map_of (pending_jobs B s))(r \<mapsto> p)"
      using b b' by (auto simp: pending_jobs_def map_of_decoded fun_eq_iff)
    ultimately show ?thesis using ok' b' x Inr by (simp add: queue_inv_def)
  qed
qed

lemma queue_ack:
  assumes inv: "queue_inv B ok s" and run: "boltQueue_Ack B s r = (e, s')"
  shows "queue_inv B ok s' \<and> pending_jobs B s' =
    (if e = None then filter (\<lambda>j. fst j \<noteq> r) (pending_jobs B s) else pending_jobs B s)"
proof -
  obtain b where b: "st_db s bktQueue = Some b" "ok b" "\<forall>j \<in> set (bk_items B b). \<exists>p. state_open (st_aead s) (snd j) = Inr p"
    by (rule queue_bucket [OF inv])
  obtain x where x: "AckJob B s r = (x, s')" "e = (case x of Inl e \<Rightarrow> Some e | Inr _ \<Rightarrow> None)"
    using run by (cases "AckJob B s r") (auto simp: boltQueue_Ack_def err_of_def split: sum.splits)
  have ch: "changes_bucket bktQueue s (\<lambda>b x b'. ok b'
      \<and> bk_items B b' = filter (\<lambda>(k, v). k \<noteq> bytes_of_string r) (bk_items B b)) (x, s')"
    unfolding x(1) [symmetric] using inv by (intro AckJob_changes) (simp add: queue_inv_def store_ok_def)
  have ok': "store_ok ok s'"
    by (rule changes_store_ok [OF ch]) (use inv in \<open>simp_all add: queue_inv_def\<close>)
  show ?thesis
  proof (cases x)
    case (Inl err)
    with ch x inv ok' show ?thesis
      by (simp add: changes_bucket_def queue_inv_def pending_jobs_def cong: option.case_cong)
  next
    case (Inr u)
    with ch b obtain b' where b': "st_db s' bktQueue = Some b'" "st_aead s' = st_aead s"
      "bk_items B b' = filter (\<lambda>(k, v). k \<noteq> bytes_of_string r) (bk_items B b)"
      by (auto simp: changes_bucket_def)
    have "string_of_bytes k \<noteq> r \<longleftrightarrow> k \<noteq> bytes_of_string r" for k by auto
    then have "pending_jobs B s' = filter (\<lambda>j. fst j \<noteq> r) (pending_jobs B s)"
      using b b' by (simp add: pending_jobs_def filter_map comp_def case_prod_beta')
    with ok' b b' x Inr show ?thesis by (auto simp: queue_inv_def)
  qed
qed

lemma queue_pop:
  assumes inv: "queue_inv B ok s"
  shows "boltQueue_Pop B s n = Inr (take (nat n) (pending_jobs B s))"
proof -
  obtain b where b: "st_db s bktQueue = Some b" "\<forall>j \<in> set (bk_items B b). \<exists>p. state_open (st_aead s) (snd j) = Inr p"
    by (rule queue_bucket [OF inv])
  have opened: "\<exists>p. unseal (st_aead s) v = Inr p" if "(k, v) \<in> set (bk_items B b)" for k v
    using b(2) that unseal_eq by (metis snd_conv)
  have "open_items (st_aead s) (nat n) (bk_items B b) =
      Inr (map (\<lambda>(k, v). (k, projr (unseal (st_aead s) v))) (take (nat n) (bk_items B b)))"
    using opened by (intro open_items_Inr) auto
  moreover have "map (\<lambda>(k, v). (k, projr (unseal (st_aead s) v))) (take (nat n) (bk_items B b)) =
      map (\<lambda>(k, v). (k, projr (state_open (st_aead s) v))) (take (nat n) (bk_items B b))"
    using b(2) by (intro map_cong) (auto simp: unseal_def dest!: in_set_takeD)
  ultimately show ?thesis
    using inv b by (auto simp: boltQueue_Pop_def DequeueJobs_def db_view_def in_bucket_def queue_inv_def store_ok_def
        pending_jobs_def take_map case_prod_beta' comp_def)
qed

lemma queue_depth:
  assumes inv: "queue_inv B ok s"
  shows "boltQueue_Depth B s = Inr (int (length (pending_jobs B s)))"
proof -
  obtain b where "st_db s bktQueue = Some b" "ok b" by (rule queue_bucket [OF inv])
  with inv key_n_items show ?thesis
    by (simp add: boltQueue_Depth_def QueueDepth_def db_view_def in_bucket_def queue_inv_def store_ok_def pending_jobs_def)
qed

lemma boltQueue_laws: "job_queue (boltQueue B) (queue_inv B ok) (pending_jobs B)"
proof (rule job_queue.intro)
  fix q q' r p e n
  assume inv: "queue_inv B ok q"
  show "sorted_wrt (<) (map (\<lambda>j. bytes_of_string (fst j)) (pending_jobs B q))"
    by (rule queue_sorted [OF inv])
  show "Pop (boltQueue B) q n = Inr (take (nat n) (pending_jobs B q))"
    unfolding boltQueue_def queue.simps by (rule queue_pop [OF inv])
  show "Depth (boltQueue B) q = Inr (int (length (pending_jobs B q)))"
    unfolding boltQueue_def queue.simps by (rule queue_depth [OF inv])
  show "queue_inv B ok q' \<and> (if e = None then map_of (pending_jobs B q') = (map_of (pending_jobs B q))(r \<mapsto> p)
      else pending_jobs B q' = pending_jobs B q)" if "Enqueue (boltQueue B) q r p = (e, q')"
    using that unfolding boltQueue_def queue.simps by (rule queue_enqueue [OF inv])
  show "queue_inv B ok q' \<and> pending_jobs B q' =
      (if e = None then filter (\<lambda>j. fst j \<noteq> r) (pending_jobs B q) else pending_jobs B q)"
    if "Ack (boltQueue B) q r = (e, q')"
    using that unfolding boltQueue_def queue.simps by (rule queue_ack [OF inv])
qed

text \<open>On a disk that does not fail, no acknowledgement fails.\<close>

lemma queue_disk:
  assumes "queue_inv B ok s"
  shows "st_disk (snd (boltQueue_Enqueue B s r p)) = st_disk s" "st_disk (snd (boltQueue_Ack B s r)) = st_disk s"
proof -
  have bs: "buckets_ok ok (st_db s)" "aead_laws (st_aead s)" using assms by (simp_all add: queue_inv_def store_ok_def)
  have err: "st_disk (snd (err_of x)) = st_disk (snd x)" for x :: "(store_err + unit) \<times> 'b Store"
    by (cases x) (auto simp: err_of_def split: sum.split)
  have ch: "st_disk (snd x) = st_disk s" if "changes_bucket n s R x" for n x and R :: "'b \<Rightarrow> unit \<Rightarrow> 'b \<Rightarrow> bool"
    using that by (cases x) (simp add: changes_bucket_def)
  show "st_disk (snd (boltQueue_Ack B s r)) = st_disk s"
    unfolding boltQueue_Ack_def err by (rule ch [OF AckJob_changes [OF bs(1)]])
  show "st_disk (snd (boltQueue_Enqueue B s r p)) = st_disk s"
  proof (cases "r = []")
    case True
    then show ?thesis by (simp add: boltQueue_Enqueue_def EnqueueJob_def err_of_def)
  next
    case False
    show ?thesis unfolding boltQueue_Enqueue_def err by (rule ch [OF EnqueueJob_changes [OF bs False]])
  qed
qed

lemma ack_reliable:
  assumes "queue_inv B ok s" "st_disk s = (\<lambda>_. True)"
  shows "fst (boltQueue_Ack B s r) = None"
proof -
  obtain b where b: "st_db s bktQueue = Some b" "ok b" by (rule queue_bucket [OF assms(1)])
  obtain b' where "Store.del B b (bytes_of_string r) = Inr b'" by (rule del_effect [OF b(2)])
  with b assms show ?thesis
    by (simp add: boltQueue_Ack_def AckJob_def db_update_def change_bucket_def in_bucket_def err_of_def
        queue_inv_def store_ok_def)
qed

lemma boltQueue_reliable:
  "job_queue (boltQueue B) (\<lambda>s. queue_inv B ok s \<and> st_disk s = (\<lambda>_. True)) (pending_jobs B)"
proof (rule job_queue.intro)
  fix q q' r p e n
  assume inv: "queue_inv B ok q \<and> st_disk q = (\<lambda>_. True)"
  note laws = job_queue.enqueue [OF boltQueue_laws] job_queue.ack [OF boltQueue_laws]
  show "sorted_wrt (<) (map (\<lambda>j. bytes_of_string (fst j)) (pending_jobs B q))"
    "Pop (boltQueue B) q n = Inr (take (nat n) (pending_jobs B q))"
    "Depth (boltQueue B) q = Inr (int (length (pending_jobs B q)))"
    using inv by (auto intro: job_queue.sorted [OF boltQueue_laws] job_queue.pop [OF boltQueue_laws]
        job_queue.depth [OF boltQueue_laws])
  show "(queue_inv B ok q' \<and> st_disk q' = (\<lambda>_. True)) \<and>
      (if e = None then map_of (pending_jobs B q') = (map_of (pending_jobs B q))(r \<mapsto> p)
       else pending_jobs B q' = pending_jobs B q)" if "Enqueue (boltQueue B) q r p = (e, q')"
    using laws(1) [OF _ that] inv queue_disk(1) [of q r p] that by (simp add: boltQueue_def)
  show "(queue_inv B ok q' \<and> st_disk q' = (\<lambda>_. True)) \<and> pending_jobs B q' =
      (if e = None then filter (\<lambda>j. fst j \<noteq> r) (pending_jobs B q) else pending_jobs B q)"
    if "Ack (boltQueue B) q r = (e, q')"
    using laws(2) [OF _ that] inv queue_disk(2) [of q r] that by (simp add: boltQueue_def)
qed

end

sublocale bolt_laws \<subseteq> queue: job_queue "boltQueue B" "queue_inv B ok" "pending_jobs B"
  by (rule boltQueue_laws)

end
