(* ===== verification/State_Props.thy ===== *)
theory State_Props
  imports Job_Queue
begin

text \<open>
  Properties of the state file over sequences of operations: no operation panics and none that
  fails has an effect, what was saved is what is loaded, the queue is a map of jobs, the logs
  come out in the order of their timestamps.
\<close>

section \<open>Sequences of operations\<close>

datatype store_op =
    OpSaveConfig uint64 bytes
  | OpLoadConfig
  | OpEnqueueJob string bytes
  | OpDequeueJobs int
  | OpAckJob string
  | OpQueueDepth
  | OpSaveSession string int64
  | OpLoadSession
  | OpRecordHeartbeat int64
  | OpLastHeartbeat
  | OpBufferLog int64 bytes
  | OpDrainLogs int

definition failed :: "store_err + 'a \<Rightarrow> store_err option" where
  "failed r = (case r of Inl e \<Rightarrow> Some e | Inr _ \<Rightarrow> None)"

fun store_step :: "'b bolt \<Rightarrow> 'b Store \<Rightarrow> store_op \<Rightarrow> store_err option \<times> 'b Store" where
  "store_step B s (OpSaveConfig v raw) = map_prod failed id (SaveConfig B s v raw)"
| "store_step B s OpLoadConfig = (failed (LoadConfig B s), s)"
| "store_step B s (OpEnqueueJob r p) = map_prod failed id (EnqueueJob B s r p)"
| "store_step B s (OpDequeueJobs n) = (failed (DequeueJobs B s n), s)"
| "store_step B s (OpAckJob r) = map_prod failed id (AckJob B s r)"
| "store_step B s OpQueueDepth = (failed (QueueDepth B s), s)"
| "store_step B s (OpSaveSession i t) = map_prod failed id (SaveSession B s i t)"
| "store_step B s OpLoadSession = (failed (LoadSession B s), s)"
| "store_step B s (OpRecordHeartbeat t) = map_prod failed id (RecordHeartbeat B s t)"
| "store_step B s OpLastHeartbeat = (failed (LastHeartbeat B s), s)"
| "store_step B s (OpBufferLog t p) = map_prod failed id (BufferLog B s t p)"
| "store_step B s (OpDrainLogs n) = map_prod failed id (DrainLogs B s n)"

fun store_run :: "'b bolt \<Rightarrow> 'b Store \<Rightarrow> store_op list \<Rightarrow> store_err option list \<times> 'b Store" where
  "store_run B s [] = ([], s)"
| "store_run B s (x # xs) =
     (let (e, s1) = store_step B s x; (es, s2) = store_run B s1 xs in (e # es, s2))"

fun op_bucket :: "store_op \<Rightarrow> string" where
  "op_bucket (OpSaveConfig v raw) = bktConfig"
| "op_bucket OpLoadConfig = bktConfig"
| "op_bucket (OpEnqueueJob r p) = bktQueue"
| "op_bucket (OpDequeueJobs n) = bktQueue"
| "op_bucket (OpAckJob r) = bktQueue"
| "op_bucket OpQueueDepth = bktQueue"
| "op_bucket (OpBufferLog t p) = bktLogs"
| "op_bucket (OpDrainLogs n) = bktLogs"
| "op_bucket _ = bktRegistry"

text \<open>Every operation, failed or not, in one statement.\<close>

definition step_ok :: "('b \<Rightarrow> bool) \<Rightarrow> string \<Rightarrow> 'b Store \<Rightarrow> store_err option \<Rightarrow> 'b Store \<Rightarrow> bool" where
  "step_ok ok n s e s' \<longleftrightarrow>
     store_ok ok s' \<and> st_aead s' = st_aead s \<and> e \<noteq> Some Panicked
     \<and> (e \<noteq> None \<longrightarrow> st_db s' = st_db s) \<and> (\<forall>m. m \<noteq> n \<longrightarrow> st_db s' m = st_db s m)"

lemma changes_step_ok:
  assumes "changes_bucket n s R (r, s')" "store_ok ok s" "\<And>b x b'. ok b \<Longrightarrow> R b x b' \<Longrightarrow> ok b'" "n \<in> set core_buckets"
  shows "step_ok ok n s (failed r) s'"
  using assms(1) changes_store_ok [OF assms] changes_other_bucket [OF assms(1)]
  by (cases r) (auto simp: step_ok_def failed_def changes_bucket_def)

lemma read_step_ok: "store_ok ok s \<Longrightarrow> r \<noteq> Inl Panicked \<Longrightarrow> step_ok ok n s (failed r) s"
  by (auto simp: step_ok_def failed_def split: sum.splits)

lemma view_not_panic:
  assumes "store_ok ok s" "n \<in> set core_buckets" "\<And>b. ok b \<Longrightarrow> f b \<noteq> Inl Panicked"
  shows "db_view s (\<lambda>d. in_bucket d n f) \<noteq> Inl Panicked"
  using assms by (auto simp: db_view_def in_bucket_def store_ok_def elim!: bucket_exists)

lemma bind_Inr_not_panic: "m \<noteq> Inl Panicked \<Longrightarrow> res_bind m (\<lambda>x. Inr (g x)) \<noteq> Inl Panicked"
  by (cases m) simp_all

context bolt_laws
begin

lemma reads_ok:
  assumes "store_ok ok s"
  shows "LoadConfig B s \<noteq> Inl Panicked" "DequeueJobs B s n \<noteq> Inl Panicked" "QueueDepth B s \<noteq> Inl Panicked"
    "LoadSession B s \<noteq> Inl Panicked" "LastHeartbeat B s \<noteq> Inl Panicked"
proof -
  note calm = bind_Inr_not_panic unseal_not_panic open_items_not_panic
  show "LoadConfig B s \<noteq> Inl Panicked" unfolding LoadConfig_def
    by (rule view_not_panic [OF assms]) (simp_all add: calm split: option.split)
  show "DequeueJobs B s n \<noteq> Inl Panicked" unfolding DequeueJobs_def
    by (simp, intro impI, rule view_not_panic [OF assms]) (simp_all add: calm)
  show "QueueDepth B s \<noteq> Inl Panicked" unfolding QueueDepth_def
    by (rule view_not_panic [OF assms]) simp_all
  show "LoadSession B s \<noteq> Inl Panicked" unfolding LoadSession_def
    by (rule view_not_panic [OF assms]) (simp_all add: calm split: option.split)
  show "LastHeartbeat B s \<noteq> Inl Panicked" unfolding LastHeartbeat_def
    by (rule view_not_panic [OF assms]) simp_all
qed

lemma step_ok_step:
  assumes "store_ok ok s" "store_step B s op = (e, s')"
  shows "step_ok ok (op_bucket op) s e s'"
proof -
  have bs: "buckets_ok ok (st_db s)" "aead_laws (st_aead s)" using assms(1) by (simp_all add: store_ok_def)
  have upd: "step_ok ok n s e s'"
    if "changes_bucket n s R r" "\<And>b x b'. R b x b' \<Longrightarrow> ok b'" "n \<in> set core_buckets"
      "map_prod failed id r = (e, s')" for n and R :: "'b \<Rightarrow> 'c \<Rightarrow> 'b \<Rightarrow> bool" and r
    using that changes_step_ok [of n s R "fst r" "snd r" ok] assms(1) by (cases r) auto
  show ?thesis
  proof (cases op)
    case (OpEnqueueJob r p)
    then show ?thesis
    proof (cases "r = []")
      case True
      with OpEnqueueJob assms show ?thesis by (auto simp: EnqueueJob_def step_ok_def failed_def)
    next
      case False
      with OpEnqueueJob assms(2) show ?thesis
        by (auto intro!: upd [OF EnqueueJob_changes [OF bs False]])
    qed
  next
    case (OpDrainLogs n)
    show ?thesis
    proof (cases "n \<le> 0")
      case True
      with OpDrainLogs assms show ?thesis by (auto simp: DrainLogs_def step_ok_def failed_def)
    next
      case False
      then have "0 < n" by simp
      from upd [OF DrainLogs_changes [OF bs(1) this]] OpDrainLogs assms(2) show ?thesis by auto
    qed
  next
    case (OpSaveConfig v raw)
    from upd [OF SaveConfig_changes [OF bs]] this assms(2) show ?thesis by auto
  next
    case (OpAckJob r)
    from upd [OF AckJob_changes [OF bs(1)]] this assms(2) show ?thesis by auto
  next
    case (OpSaveSession i t)
    from upd [OF SaveSession_changes [OF bs]] this assms(2) show ?thesis by auto
  next
    case (OpRecordHeartbeat t)
    from upd [OF RecordHeartbeat_changes [OF bs(1)]] this assms(2) show ?thesis by auto
  next
    case (OpBufferLog t p)
    from upd [OF BufferLog_changes [OF bs]] this assms(2) show ?thesis by auto
  qed (use assms reads_ok [OF assms(1)] in \<open>auto intro!: read_step_ok\<close>)
qed

lemma run_ok:
  "store_ok ok s \<Longrightarrow> store_run B s ops = (es, s') \<Longrightarrow>
     store_ok ok s' \<and> st_aead s' = st_aead s \<and> Some Panicked \<notin> set es
     \<and> (\<forall>n. n \<notin> set (map op_bucket ops) \<longrightarrow> st_db s' n = st_db s n)"
proof (induction ops arbitrary: s es)
  case (Cons x xs)
  obtain e s1 where s: "store_step B s x = (e, s1)" by fastforce
  with Cons.prems(2) obtain es' where r: "store_run B s1 xs = (es', s')" "es = e # es'"
    by (auto split: prod.splits)
  from step_ok_step [OF Cons.prems(1) s] Cons.IH [OF _ r(1)] show ?case
    unfolding r(2) step_ok_def by auto
qed simp

lemma config_kept:
  assumes "store_ok ok s" "LoadConfig B s = Inr (v, raw)" "store_run B s ops = (es, s')"
    "\<forall>op \<in> set ops. op_bucket op \<noteq> bktConfig \<or> op = OpLoadConfig"
  shows "LoadConfig B s' = Inr (v, raw)"
  using assms
proof (induction ops arbitrary: s es)
  case (Cons x xs)
  obtain e s1 where s: "store_step B s x = (e, s1)" by fastforce
  with Cons.prems(3) obtain es' where r: "store_run B s1 xs = (es', s')"
    by (auto split: prod.splits)
  note st = step_ok_step [OF Cons.prems(1) s]
  have "LoadConfig B s1 = LoadConfig B s"
  proof (cases "x = OpLoadConfig")
    case True
    with s show ?thesis by simp
  next
    case False
    with Cons.prems(4) st have "st_db s1 bktConfig = st_db s bktConfig" by (auto simp: step_ok_def)
    with st Cons.prems(1) show ?thesis
      by (simp add: LoadConfig_def db_view_def in_bucket_def step_ok_def store_ok_def cong: option.case_cong)
  qed
  with Cons.IH [OF _ _ r] st Cons.prems show ?case by (simp add: step_ok_def)
qed simp

lemma config_saved:
  assumes "store_ok ok s" "SaveConfig B s v raw = (Inr (), s')"
  shows "store_ok ok s' \<and> LoadConfig B s' = Inr (v, raw)"
proof -
  have bs: "buckets_ok ok (st_db s)" "aead_laws (st_aead s)" using assms(1) by (simp_all add: store_ok_def)
  note ch = SaveConfig_changes [OF bs, of raw v, unfolded assms(2)]
  then obtain b b' enc where "st_db s' bktConfig = Some b'" "st_open s' = st_open s" "st_aead s' = st_aead s"
    "bk_get B b' keyConfigCurrent = Some enc" "state_open (st_aead s) enc = Inr raw"
    "bk_get B b' keyConfigVersion = Some (u64Bytes v)"
    by (auto simp: changes_bucket_def)
  then have "LoadConfig B s' = Inr (v, raw)"
    using assms(1) by (simp add: LoadConfig_def db_view_def in_bucket_def store_ok_def unseal_eq u64Bytes_def bytesToU64_def)
  moreover have "store_ok ok s'" by (rule changes_store_ok [OF ch assms(1)]) auto
  ultimately show ?thesis by simp
qed

lemma create_buckets_effect:
  assumes "\<forall>m b. d m = Some b \<longrightarrow> ok b"
  shows "(\<forall>m b. create_buckets B d ns m = Some b \<longrightarrow> ok b)
    \<and> (\<forall>m. d m \<noteq> None \<longrightarrow> create_buckets B d ns m = d m)
    \<and> (\<forall>m \<in> set ns. create_buckets B d ns m \<noteq> None)"
  using assms
proof (induction ns arbitrary: d)
  case (Cons n ns)
  show ?case
  proof (cases "d n")
    case None
    define d1 where "d1 = d(n \<mapsto> bk_new B)"
    have d1: "\<forall>m b. d1 m = Some b \<longrightarrow> ok b" "d1 n \<noteq> None" "\<forall>m. d m \<noteq> None \<longrightarrow> d1 m = d m"
      using Cons.prems None by (auto simp: d1_def new_ok)
    have "create_buckets B d (n # ns) = create_buckets B d1 ns" by (simp add: None d1_def)
    with Cons.IH [OF d1(1)] d1(2,3) show ?thesis by auto
  next
    case (Some b)
    from Cons.IH [OF Cons.prems] Some show ?thesis by auto
  qed
qed simp

lemma Store_Open_ok:
  assumes "Store_Open B hkdf bolt_open rand disk path t key = Inr s"
    and "\<And>p t d n b. bolt_open p t = Some d \<Longrightarrow> d n = Some b \<Longrightarrow> ok b"
  shows "store_ok ok s"
proof -
  from assms(1) obtain k A d where o: "newGCM k = Inr A" "bolt_open (if Ext path = [] then path @ ''.db'' else path)
      (if t = 0 then 5 * 1000000000 else t) = Some d"
    "st_open s" "st_aead s = A" "st_db s = create_buckets B d core_buckets"
    by (auto simp: Store_Open_def Let_def ensureBuckets_def db_update_def split: if_splits sum.splits option.splits)
  from assms(2) [OF o(2)] create_buckets_effect [of d core_buckets] have "buckets_ok ok (st_db s)"
    unfolding o(5) buckets_ok_def by blast
  with o newGCM_laws [OF o(1)] show ?thesis by (simp add: store_ok_def)
qed

end

section \<open>The order of the log keys\<close>

lemma be_val_log_key: "be_val (log_key t q) = unat t * 2 ^ 64 + unat q"
  by (simp add: log_key_def be_val_append be_val_put_u64)

lemma length_log_key [simp]: "length (log_key t q) = 16"
  by (simp add: log_key_def)

lemma log_key_less_iff: "log_key t q < log_key t' q' \<longleftrightarrow> t < t' \<or> t = t' \<and> q < q'"
proof -
  have b: "unat q < 2 ^ 64" "unat q' < 2 ^ 64" using unat_u64_less [of q] unat_u64_less [of q'] by simp_all
  have iff: "log_key t q < log_key t' q' \<longleftrightarrow> unat t * 2 ^ 64 + unat q < unat t' * 2 ^ 64 + unat q'"
    by (simp add: be_val_less_iff be_val_log_key)
  consider "unat t < unat t'" | "unat t = unat t'" | "unat t' < unat t" by arith
  then show ?thesis
  proof cases
    case 1
    then have "(unat t + 1) * 2 ^ 64 \<le> unat t' * 2 ^ 64" by (intro mult_le_mono1) simp
    with 1 b iff show ?thesis by (simp add: word_less_nat_alt)
  next
    case 2
    then have "t = t'" by (rule word_unat_eq_iff [THEN iffD2])
    with iff show ?thesis by (simp add: word_less_nat_alt)
  next
    case 3
    then have "(unat t' + 1) * 2 ^ 64 \<le> unat t * 2 ^ 64" by (intro mult_le_mono1) simp
    with 3 b iff show ?thesis by (auto simp add: word_less_nat_alt)
  qed
qed

lemma log_key_eq_iff: "log_key t q = log_key t' q' \<longleftrightarrow> t = t' \<and> q = q'"
  by (metis log_key_less_iff less_irrefl linorder_neq_iff)

lemma get_log_key: "get_u64 (log_key t q) = t"
  by (simp add: log_key_def get_u64_def be_val_put_u64)

text \<open>The keys a sequence of logs gets, starting from sequence number \<open>q\<close>.\<close>

fun tagged :: "uint64 \<Rightarrow> (int64 \<times> bytes) list \<Rightarrow> (bytes \<times> bytes) list" where
  "tagged q [] = []"
| "tagged q ((t, p) # xs) = (log_key t (q + 1), p) # tagged (q + 1) xs"

lemma length_tagged [simp]: "length (tagged q xs) = length xs"
  by (induction q xs rule: tagged.induct) auto

lemma unat_Suc_u64: "unat (q :: uint64) + 1 < 2 ^ 64 \<Longrightarrow> unat (q + 1) = unat q + 1"
  by (subst unat_add_lem [THEN iffD1]) simp_all

lemma tagged_keys:
  "unat q + length xs < 2 ^ 64 \<Longrightarrow> y \<in> set (tagged q xs) \<Longrightarrow> \<exists>t r p. y = (log_key t r, p) \<and> q < r"
proof (induction q xs rule: tagged.induct)
  case (2 q t p xs)
  then have u: "unat (q + 1) = unat q + 1" by (intro unat_Suc_u64) simp
  then have "q < q + 1" by (simp add: word_less_nat_alt)
  with 2 u show ?case by (fastforce dest: less_trans)
qed simp

lemma distinct_tagged: "unat q + length xs < 2 ^ 64 \<Longrightarrow> distinct (map fst (tagged q xs))"
proof (induction q xs rule: tagged.induct)
  case (2 q t p xs)
  then have u: "unat (q + 1) = unat q + 1" by (intro unat_Suc_u64) simp
  with 2 tagged_keys [of "q + 1" xs] show ?case by (fastforce simp: log_key_eq_iff)
qed simp

lemma tagged_snoc:
  "tagged q (xs @ [(t, p)]) = tagged q xs @ [(log_key t (q + of_nat (length xs) + 1), p)]"
  by (induction q xs rule: tagged.induct) (simp_all add: ac_simps)

lemma insort_key_commute:
  "(\<And>y. y \<in> set ys \<Longrightarrow> g x \<le> g y \<longleftrightarrow> h (f x) \<le> h (f y)) \<Longrightarrow>
     map f (insort_key g x ys) = insort_key h (f x) (map f ys)"
  by (induction ys) auto

text \<open>Sorting the keys is sorting the timestamps, with equal ones in order of arrival.\<close>

lemma sort_tagged:
  "unat q + length xs < 2 ^ 64 \<Longrightarrow>
     map (\<lambda>(k, p). (get_u64 k, p)) (sort_key fst (tagged q xs)) = sort_key fst xs"
proof (induction q xs rule: tagged.induct)
  case (2 q t p xs)
  let ?f = "\<lambda>(k, p). (get_u64 k, p)"
  from 2 have u: "unat (q + 1) = unat q + 1" by (intro unat_Suc_u64) simp
  have "map ?f (insort_key fst (log_key t (q + 1), p) (sort_key fst (tagged (q + 1) xs)))
      = insort_key fst (?f (log_key t (q + 1), p)) (map ?f (sort_key fst (tagged (q + 1) xs)))"
  proof (rule insort_key_commute)
    fix y assume "y \<in> set (sort_key fst (tagged (q + 1) xs))"
    then obtain t' r p' where "y = (log_key t' r, p')" "q + 1 < r"
      using tagged_keys [of "q + 1" xs y] 2(2) u by auto
    then show "fst (log_key t (q + 1), p) \<le> fst y \<longleftrightarrow> fst (?f (log_key t (q + 1), p)) \<le> fst (?f y)"
      by (auto simp: get_log_key order_le_less log_key_less_iff log_key_eq_iff)
  qed
  with 2 u show ?case by (simp add: get_log_key)
qed simp

text \<open>What the logs bucket holds after \<open>xs\<close> was buffered into an empty one.\<close>

definition logs_hold ::
  "'b bolt \<Rightarrow> ('b \<Rightarrow> bool) \<Rightarrow> 'b Store \<Rightarrow> uint64 \<Rightarrow> (int64 \<times> bytes) list \<Rightarrow> bool" where
  "logs_hold B ok s q xs \<longleftrightarrow> store_ok ok s \<and> (\<exists>b. st_db s bktLogs = Some b \<and> ok b
     \<and> bk_sequence B b = q + of_nat (length xs)
     \<and> (\<forall>k. map_option (state_open (st_aead s)) (map_of (bk_items B b) k) = map_option Inr (map_of (tagged q xs) k)))"

context bolt_laws
begin

lemma logs_hold_buffer:
  assumes "logs_hold B ok s q xs" "BufferLog B s t p = (Inr (), s')" "unat q + length xs + 1 < 2 ^ 64"
  shows "logs_hold B ok s' q (xs @ [(t, p)])"
proof -
  obtain b where b: "store_ok ok s" "st_db s bktLogs = Some b" "ok b" "bk_sequence B b = q + of_nat (length xs)"
    "\<forall>k. map_option (state_open (st_aead s)) (map_of (bk_items B b) k) = map_option Inr (map_of (tagged q xs) k)"
    using assms(1) by (auto simp: logs_hold_def)
  note ch = BufferLog_changes [of s p t, unfolded assms(2)]
  have ch: "changes_bucket bktLogs s (\<lambda>b x b'. ok b' \<and> bk_sequence B b' = bk_sequence B b + 1
    \<and> (\<exists>enc. state_open (st_aead s) enc = Inr p \<and> map_of (bk_items B b') =
          (map_of (bk_items B b))(log_key t (bk_sequence B b + 1) \<mapsto> enc))) (Inr (), s')"
    using b(1) by (intro ch) (simp_all add: store_ok_def)
  have "store_ok ok s'" by (rule changes_store_ok [OF ch b(1)]) simp_all
  moreover obtain b' enc where b': "st_db s' bktLogs = Some b'" "ok b'" "st_aead s' = st_aead s"
    "bk_sequence B b' = bk_sequence B b + 1" "state_open (st_aead s) enc = Inr p"
    "map_of (bk_items B b') = (map_of (bk_items B b))(log_key t (bk_sequence B b + 1) \<mapsto> enc)"
    using ch b(2) by (auto simp: changes_bucket_def)
  moreover have "map_of (tagged q (xs @ [(t, p)])) = (map_of (tagged q xs))(log_key t (q + of_nat (length xs) + 1) \<mapsto> p)"
  proof -
    let ?k = "log_key t (q + of_nat (length xs) + 1)"
    have "distinct (map fst (tagged q (xs @ [(t, p)])))" using assms(3) by (intro distinct_tagged) simp
    then have "?k \<notin> fst ` set (tagged q xs)" by (simp add: tagged_snoc)
    then have "map_of (tagged q xs) ?k = None" by (simp add: map_of_eq_None_iff)
    then show ?thesis by (auto simp: tagged_snoc map_add_def fun_eq_iff split: option.splits)
  qed
  ultimately show ?thesis using b(4,5) by (auto simp: logs_hold_def add.assoc)
qed

lemma logs_hold_items:
  assumes "logs_hold B ok s q xs" "unat q + length xs < 2 ^ 64" "st_db s bktLogs = Some b"
  shows "map (\<lambda>(k, v). (k, state_open (st_aead s) v)) (bk_items B b) = map (\<lambda>(k, p). (k, Inr p)) (sort_key fst (tagged q xs))"
proof -
  have b: "ok b" "\<forall>k. map_option (state_open (st_aead s)) (map_of (bk_items B b) k) = map_option Inr (map_of (tagged q xs) k)"
    using assms(1,3) by (auto simp: logs_hold_def)
  let ?xs = "map (\<lambda>(k, v). (k, state_open (st_aead s) v)) (bk_items B b)"
  let ?ys = "map (\<lambda>(k, p). (k, Inr p :: crypto_err + bytes)) (sort_key fst (tagged q xs))"
  have fst: "map fst ?xs = map fst (bk_items B b)" "map fst ?ys = map fst (sort_key fst (tagged q xs))"
    by (simp_all add: case_prod_beta' comp_def)
  have "distinct (map fst (sort_key fst (tagged q xs)))"
    using distinct_tagged [OF assms(2)] by (simp add: distinct_map)
  then have dy: "distinct (map fst ?ys)" and sy: "sorted (map fst ?ys)" unfolding fst by simp_all
  have dx: "distinct (map fst ?xs)" and sx: "sorted (map fst ?xs)"
    unfolding fst using items_sorted [OF b(1)] by (simp_all add: key_sorted_def strict_sorted_iff)
  have "map_of (sort_key fst (tagged q xs)) = map_of (tagged q xs)"
    using distinct_tagged [OF assms(2)] by (intro map_of_inject_set [THEN iffD2]) (simp_all add: distinct_map)
  then have "map_of ?xs = map_of ?ys"
    using b(2) by (simp add: map_of_map fun_eq_iff)
  then have set: "set ?xs = set ?ys" using dx dy by (simp add: map_of_inject_set)
  have "inj_on fst (set ?xs \<union> set ?ys)" using dy unfolding set Un_absorb distinct_map by blast
  then show ?thesis by (rule map_sorted_distinct_set_unique [OF _ sx dx sy dy set])
qed

lemma logs_hold_run:
  "logs_hold B ok s q ys \<Longrightarrow> unat q + length ys + length xs < 2 ^ 64 \<Longrightarrow>
     store_run B s (map (\<lambda>(t, p). OpBufferLog t p) xs) = (replicate (length xs) None, s') \<Longrightarrow>
     logs_hold B ok s' q (ys @ xs)"
proof (induction xs arbitrary: s ys)
  case (Cons x xs)
  obtain t p where x: "x = (t, p)" by fastforce
  obtain r s1 where s1: "BufferLog B s t p = (r, s1)" by fastforce
  with Cons.prems(3) x have "failed r = None" "store_run B s1 (map (\<lambda>(t, p). OpBufferLog t p) xs) = (replicate (length xs) None, s')"
    by (auto split: prod.splits)
  moreover from this have "r = Inr ()" by (cases r) (simp_all add: failed_def)
  ultimately show ?case
    using Cons.IH [of s1 "ys @ [(t, p)]"] logs_hold_buffer [OF Cons.prems(1), of t p s1] Cons.prems(2) s1 x by simp
qed simp

lemma open_items_decoded:
  "map (\<lambda>(k, v). (k, state_open A v)) items = map (\<lambda>(k, p). (k, Inr p)) ys \<Longrightarrow> open_items A n items = Inr (take n ys)"
proof (induction A n items arbitrary: ys rule: open_items.induct)
  case (3 A n k v xs)
  then show ?case by (cases ys) (auto simp: unseal_def)
qed auto

lemma drain_sorted:
  assumes "logs_hold B ok s q xs" "unat q + length xs < 2 ^ 64" "DrainLogs B s m = (Inr out, s')" "0 < m"
  shows "out = take (nat m) (map snd (sort_key fst xs))
    \<and> (\<exists>b'. st_db s' bktLogs = Some b' \<and> map snd (map (\<lambda>(k, v). (k, state_open (st_aead s') v)) (bk_items B b'))
          = map Inr (drop (nat m) (map snd (sort_key fst xs))))"
proof -
  obtain b where b: "store_ok ok s" "st_db s bktLogs = Some b" using assms(1) by (auto simp: logs_hold_def)
  note items = logs_hold_items [OF assms(1,2) b(2)]
  have sorted: "map snd (sort_key fst (tagged q xs)) = map snd (sort_key fst xs)"
    unfolding sort_tagged [OF assms(2), symmetric] by (simp add: case_prod_beta' comp_def)
  have "changes_bucket bktLogs s (\<lambda>b x b'. ok b' \<and> bk_sequence B b' = bk_sequence B b
    \<and> (\<exists>out. open_items (st_aead s) (nat m) (bk_items B b) = Inr out \<and> x = map snd out)
    \<and> bk_items B b' = drop (nat m) (bk_items B b)) (Inr out, s')"
    using DrainLogs_changes [OF _ assms(4), of s] b(1) assms(3) by (simp add: store_ok_def)
  then obtain b' where b': "st_db s' bktLogs = Some b'" "bk_items B b' = drop (nat m) (bk_items B b)"
    "st_aead s' = st_aead s" "out = map snd (take (nat m) (sort_key fst (tagged q xs)))"
    using b(2) open_items_decoded [OF items, of "nat m"] by (auto simp: changes_bucket_def)
  have "map snd (map (\<lambda>(k, v). (k, state_open (st_aead s') v)) (bk_items B b'))
      = drop (nat m) (map snd (map (\<lambda>(k, v). (k, state_open (st_aead s) v)) (bk_items B b)))"
    unfolding b' by (simp add: drop_map)
  also have "\<dots> = map Inr (drop (nat m) (map snd (sort_key fst (tagged q xs))))"
    unfolding items by (simp add: drop_map case_prod_beta' comp_def)
  finally have "map snd (map (\<lambda>(k, v). (k, state_open (st_aead s') v)) (bk_items B b'))
      = map Inr (drop (nat m) (map snd (sort_key fst xs)))" unfolding sorted .
  moreover have "out = take (nat m) (map snd (sort_key fst xs))"
    unfolding b'(4) sorted [symmetric] by (simp add: take_map)
  ultimately show ?thesis using b'(1) by blast
qed

end

section \<open>Writes that fit succeed\<close>

text \<open>
  With a working random source and disk, a write whose key and value bbolt accepts succeeds;
  an envelope is 29 bytes longer than its plaintext.
\<close>

definition works :: "'b Store \<Rightarrow> bool" where
  "works s \<longleftrightarrow> st_disk s (st_txs s) \<and> st_rand s (st_rands s) \<noteq> None"

context bolt_laws
begin

lemma put_works: "ok b \<Longrightarrow> key_fits k \<Longrightarrow> value_fits v \<Longrightarrow> \<exists>b'. Store.put B b k v = Inr b' \<and> ok b'"
  using put_succeeds put_effect by (fastforce simp: Store.put_def)

lemma seal_then_works:
  assumes "store_ok ok s" "works s" "n \<in> set core_buckets"
    and "\<And>b enc. ok b \<Longrightarrow> length enc = length plain + 29 \<Longrightarrow> \<exists>b'. f enc b = Inr ((), b')"
  shows "fst (seal_then s plain (\<lambda>enc d. change_bucket d n (f enc))) = Inr ()"
proof -
  obtain x where "st_rand s (st_rands s) = Some x" using assms(2) by (auto simp: works_def)
  then obtain enc where enc: "state_seal (st_aead s) (st_rand s (st_rands s)) plain = Inr enc"
    by (simp add: state_seal_def Let_def)
  have A: "aead_laws (st_aead s)" using assms(1) by (simp add: store_ok_def)
  obtain b where b: "st_db s n = Some b" "ok b" using assms(1,3) by (auto simp: store_ok_def elim: bucket_exists)
  obtain b' where "f enc b = Inr ((), b')"
    using assms(4) [OF b(2) aead_laws.length_state_seal [OF A enc]] by blast
  with enc b assms(1,2) show ?thesis
    by (simp add: seal_then_def db_update_def change_bucket_def in_bucket_def works_def store_ok_def)
qed

lemma EnqueueJob_works:
  assumes "store_ok ok s" "works s" "r \<noteq> []" "length r \<le> 32768" "length p \<le> 2147483617"
  shows "fst (EnqueueJob B s r p) = Inr ()"
proof -
  have "fst (seal_then s p (\<lambda>enc d. change_bucket d bktQueue (\<lambda>b.
      res_bind (Store.put B b (bytes_of_string r) enc) (\<lambda>b1. Inr ((), b1))))) = Inr ()"
  proof (rule seal_then_works [OF assms(1,2)])
    fix b enc assume "ok b" and "length (enc :: bytes) = length p + 29"
    with put_works [of b "bytes_of_string r" enc] assms(3-)
    obtain b' where "Store.put B b (bytes_of_string r) enc = Inr b'"
      by (auto simp: key_fits_def value_fits_def)
    then show "\<exists>b'. res_bind (Store.put B b (bytes_of_string r) enc) (\<lambda>b1. Inr ((), b1)) = Inr ((), b')" by simp
  qed simp
  with assms(3) show ?thesis by (simp add: EnqueueJob_def)
qed

lemma BufferLog_works:
  assumes "store_ok ok s" "works s" "length p \<le> 2147483617"
  shows "fst (BufferLog B s t p) = Inr ()"
  unfolding BufferLog_def
proof (rule seal_then_works [OF assms(1,2)])
  fix b enc assume b: "ok b" and enc: "length (enc :: bytes) = length p + 29"
  obtain n b1 where n: "bk_next_sequence B b = (n, b1)" by fastforce
  with next_sequence_effect [OF b] have "ok b1" by blast
  moreover have "key_fits (log_key t n)"
    using length_log_key [of t n] by (auto simp: key_fits_def simp del: length_log_key)
  ultimately obtain b2 where "Store.put B b1 (log_key t n) enc = Inr b2"
    using put_works [of b1 "log_key t n" enc] enc assms(3) by (auto simp: value_fits_def)
  with n show "\<exists>b'. (case bk_next_sequence B b of (sq, b1) \<Rightarrow>
      res_bind (Store.put B b1 (log_key t sq) enc) (\<lambda>b2. Inr ((), b2))) = Inr ((), b')"
    by simp
qed simp

lemma DrainLogs_works:
  assumes "logs_hold B ok s q xs" "unat q + length xs < 2 ^ 64" "works s"
  shows "\<exists>out s'. DrainLogs B s m = (Inr out, s')"
proof -
  obtain b where b: "store_ok ok s" "st_db s bktLogs = Some b" "ok b" using assms(1) by (auto simp: logs_hold_def)
  let ?out = "take (nat m) (sort_key fst (tagged q xs))"
  have "open_items (st_aead s) (nat m) (bk_items B b) = Inr ?out"
    by (rule open_items_decoded [OF logs_hold_items [OF assms(1,2) b(2)]])
  moreover obtain b' where "delete_keys B b (map fst ?out) = Inr b'" using delete_keys_effect [OF b(3)] by blast
  ultimately show ?thesis using b assms(3)
    by (simp add: DrainLogs_def db_update_def change_bucket_def in_bucket_def works_def store_ok_def)
qed

lemma SaveConfig_works:
  assumes "store_ok ok s" "works s" "length raw \<le> 2147483617"
  shows "fst (SaveConfig B s v raw) = Inr ()"
  unfolding SaveConfig_def
proof (rule seal_then_works [OF assms(1,2)])
  fix b enc assume b: "ok b" and enc: "length (enc :: bytes) = length raw + 29"
  obtain b1 where b1: "Store.put B b keyConfigCurrent enc = Inr b1" "ok b1"
    using put_works [OF b, of keyConfigCurrent enc] enc assms(3)
    by (auto simp: key_fits_def value_fits_def keyConfigCurrent_def)
  obtain b2 where "Store.put B b1 keyConfigVersion (u64Bytes v) = Inr b2"
    using put_works [OF b1(2), of keyConfigVersion "u64Bytes v"]
    by (auto simp: key_fits_def value_fits_def keyConfigVersion_def u64Bytes_def)
  with b1 show "\<exists>b'. res_bind (Store.put B b keyConfigCurrent enc) (\<lambda>b1.
       res_bind (Store.put B b1 keyConfigVersion (u64Bytes v)) (\<lambda>b2. Inr ((), b2))) = Inr ((), b')" by simp
qed simp

end

section \<open>A concrete store\<close>

text \<open>An open store over the reference bucket, on which the properties are evaluated.\<close>

definition example_store :: "ref_bucket Store" where
  "example_store =
     \<lparr>st_path = ''state.db'', st_db = create_buckets ref_bolt Map.empty core_buckets, st_open = True,
      st_aead = gcm_aead (aes256 (replicate 32 0)), st_rand = (\<lambda>i. Some (of_nat i)), st_rands = 0,
      st_disk = (\<lambda>_. True), st_txs = 1\<rparr>"

abbreviation ref_ok :: "ref_bucket \<Rightarrow> bool" where
  "ref_ok \<equiv> \<lambda>b. key_sorted (fst b)"

lemma example_bucket [simp]:
  "st_db example_store bktConfig = Some ([], 0)" "st_db example_store bktQueue = Some ([], 0)"
  "st_db example_store bktRegistry = Some ([], 0)" "st_db example_store bktLogs = Some ([], 0)"
  by (simp_all add: example_store_def core_buckets_def bucket_names ref_bolt_def)

lemma example_store_ok [simp]: "store_ok ref_ok example_store"
  by (auto simp: store_ok_def buckets_ok_def core_buckets_def key_sorted_def)
     (simp_all add: example_store_def gcm.aead_laws_axioms)

lemma example_queue_inv [simp]: "queue_inv ref_bolt ref_ok example_store"
  by (simp add: queue_inv_def) (simp add: ref_bolt_def)

lemma example_works [simp]: "works example_store"
  by (simp add: works_def example_store_def)

lemma example_Open:
  "Store_Open ref_bolt (\<lambda>_ _ _ n. Some (replicate n 0)) (\<lambda>_ _. Some Map.empty)
     (\<lambda>i. Some (of_nat i)) (\<lambda>_. True) ''state.db'' 0 ''key'' = Inr example_store"
  by (simp add: Store_Open_def example_store_def deriveStateKey_def newGCM_def aes_new_gcm_def stateKeyLen_def
      ensureBuckets_def db_update_def Ext_def Let_def)

section \<open>Properties\<close>

text \<open>C19: The state file is never misused: after a successful \<open>Open\<close> of any intact file no sequence of
  operations, failing ones included, dereferences a missing bucket, and the store stays in order.\<close>

theorem store_never_panics:
  assumes "bolt_laws B ok" "Store_Open B hkdf bolt_open rand disk path t key = Inr s"
    and "\<And>p t d n b. bolt_open p t = Some d \<Longrightarrow> d n = Some b \<Longrightarrow> ok b"
  shows "Some Panicked \<notin> set (fst (store_run B s ops)) \<and> store_ok ok (snd (store_run B s ops))"
proof -
  have "store_ok ok s" by (rule bolt_laws.Store_Open_ok [OF assms])
  from bolt_laws.run_ok [OF assms(1) this] show ?thesis by (metis prod.collapse)
qed

theorem store_never_panics_witness:
  "Some Panicked \<notin> set (fst (store_run ref_bolt example_store [OpDequeueJobs 3, OpSaveConfig 1 [2], OpDrainLogs 9]))
     \<and> store_ok ref_ok (snd (store_run ref_bolt example_store [OpDequeueJobs 3, OpSaveConfig 1 [2], OpDrainLogs 9]))"
  by (rule store_never_panics [OF ref_bolt.bolt_laws_axioms example_Open]) auto

text \<open>An operation that reports an error has changed nothing on disk: neither a failed seal, nor a
  refused key, nor a failed commit leaves a partial update behind.\<close>

theorem failed_operation_no_effect:
  assumes "bolt_laws B ok" "store_ok ok s" "store_step B s op = (Some e, s')"
  shows "st_db s' = st_db s"
  using bolt_laws.step_ok_step [OF assms] by (simp add: step_ok_def)

theorem failed_operation_no_effect_witness:
  "st_db (snd (store_step ref_bolt example_store (OpEnqueueJob [] [1]))) = st_db example_store"
  using failed_operation_no_effect [OF ref_bolt.bolt_laws_axioms example_store_ok, of "OpEnqueueJob [] [1]"]
  by (simp add: EnqueueJob_def failed_def)

text \<open>The saved configuration survives: after a successful \<open>SaveConfig\<close>, any further operations
  other than another \<open>SaveConfig\<close> leave \<open>LoadConfig\<close> returning that version and those bytes.\<close>

theorem config_roundtrip:
  assumes "bolt_laws B ok" "store_ok ok s" "SaveConfig B s v raw = (Inr (), s1)"
    and "\<forall>op \<in> set ops. \<not> (\<exists>v' raw'. op = OpSaveConfig v' raw')"
  shows "LoadConfig B (snd (store_run B s1 ops)) = Inr (v, raw)"
proof -
  note saved = bolt_laws.config_saved [OF assms(1-3)]
  have "op_bucket op \<noteq> bktConfig \<or> op = OpLoadConfig" if "op \<in> set ops" for op
    using bspec [OF assms(4) that] by (cases op) auto
  with saved bolt_laws.config_kept [OF assms(1)] show ?thesis by (metis prod.collapse)
qed

lemma example_SaveConfig: "\<exists>s1. SaveConfig ref_bolt example_store 7 [1, 2] = (Inr (), s1)"
  using ref_bolt.SaveConfig_works [OF example_store_ok example_works, of "[1, 2]" 7]
  by (cases "SaveConfig ref_bolt example_store 7 [1, 2]") simp

theorem config_roundtrip_witness:
  "\<exists>s1. SaveConfig ref_bolt example_store 7 [1, 2] = (Inr (), s1)
     \<and> LoadConfig ref_bolt (snd (store_run ref_bolt s1 [OpRecordHeartbeat 5])) = Inr (7, [1, 2])"
proof -
  obtain s1 where s1: "SaveConfig ref_bolt example_store 7 [1, 2] = (Inr (), s1)" using example_SaveConfig by blast
  from config_roundtrip [OF ref_bolt.bolt_laws_axioms example_store_ok s1, of "[OpRecordHeartbeat 5]"] s1 show ?thesis
    by (auto simp del: store_run.simps)
qed

text \<open>C18: The queue is a map of jobs: after any sequence of enqueues and acknowledgements, some of
  which may fail, it holds exactly what the successful ones make of a map keyed by run id (a
  repeated id replaces the payload), and \<open>Pop\<close> returns its first jobs in the order of the ids
  without removing them.\<close>

theorem queue_refines_map:
  assumes "bolt_laws B ok" "queue_inv B ok s"
  shows "map_of (pending_jobs B (snd (queue_run (boltQueue B) s ops))) =
      queue_spec (map_of (pending_jobs B s)) ops (fst (queue_run (boltQueue B) s ops))
    \<and> boltQueue_Pop B (snd (queue_run (boltQueue B) s ops)) n =
        Inr (take (nat n) (pending_jobs B (snd (queue_run (boltQueue B) s ops))))
    \<and> sorted_wrt (<) (map (\<lambda>j. bytes_of_string (fst j)) (pending_jobs B (snd (queue_run (boltQueue B) s ops))))"
proof -
  have laws: "job_queue (boltQueue B) (queue_inv B ok) (pending_jobs B)"
    by (rule bolt_laws.boltQueue_laws [OF assms(1)])
  have run: "queue_inv B ok (snd (queue_run (boltQueue B) s ops))
    \<and> map_of (pending_jobs B (snd (queue_run (boltQueue B) s ops))) =
      queue_spec (map_of (pending_jobs B s)) ops (fst (queue_run (boltQueue B) s ops))"
    using job_queue.run_spec [OF laws assms(2), of ops] by (metis prod.collapse)
  with bolt_laws.queue_pop [OF assms(1)] bolt_laws.queue_sorted [OF assms(1)] show ?thesis by blast
qed

theorem queue_refines_map_witness:
  "boltQueue_Pop ref_bolt (snd (queue_run (boltQueue ref_bolt) example_store [QEnqueue ''b'' [1], QEnqueue ''a'' [2]])) 1 =
     Inr (take (nat 1) (pending_jobs ref_bolt
       (snd (queue_run (boltQueue ref_bolt) example_store [QEnqueue ''b'' [1], QEnqueue ''a'' [2]]))))"
  using queue_refines_map [OF ref_bolt.bolt_laws_axioms example_queue_inv] by blast

text \<open>Buffered logs come out in chronological order: what was buffered into an empty buffer in any
  order is drained sorted by timestamp, with equal timestamps in the order of arrival, up to the
  number asked for; the rest stays, in the same order. (Timestamps compare as unsigned.)\<close>

theorem logs_drained_in_order:
  assumes "bolt_laws B ok" "store_ok ok s" "st_db s bktLogs = Some b" "bk_items B b = []"
    and "unat (bk_sequence B b) + length xs < 2 ^ 64"
    and "store_run B s (map (\<lambda>(t, p). OpBufferLog t p) xs) = (replicate (length xs) None, s1)"
    and "DrainLogs B s1 n = (Inr out, s2)" "0 < n"
  shows "out = take (nat n) (map snd (sort_key fst xs))
    \<and> (\<exists>b'. st_db s2 bktLogs = Some b' \<and> map snd (map (\<lambda>(k, v). (k, state_open (st_aead s2) v)) (bk_items B b'))
          = map Inr (drop (nat n) (map snd (sort_key fst xs))))"
proof -
  obtain b0 where "st_db s bktLogs = Some b0" "ok b0"
    using assms(2) by (auto simp: store_ok_def elim: bucket_exists [of ok _ bktLogs])
  with assms(3) have "ok b" by simp
  then have "logs_hold B ok s (bk_sequence B b) []" using assms(2-4) by (simp add: logs_hold_def)
  from bolt_laws.logs_hold_run [OF assms(1) this, of xs s1] assms(5,6)
  have "logs_hold B ok s1 (bk_sequence B b) xs" by simp
  from bolt_laws.drain_sorted [OF assms(1) this assms(5,7,8)] show ?thesis .
qed

lemma example_BufferLog:
  assumes "store_ok ref_ok s" "st_disk s = (\<lambda>_. True)" "st_rand s = (\<lambda>i. Some (of_nat i))" "length p \<le> 1000"
  shows "\<exists>s'. store_step ref_bolt s (OpBufferLog t p) = (None, s') \<and> store_ok ref_ok s'
    \<and> st_disk s' = (\<lambda>_. True) \<and> st_rand s' = (\<lambda>i. Some (of_nat i))"
proof -
  have "fst (BufferLog ref_bolt s t p) = Inr ()"
    by (rule ref_bolt.BufferLog_works) (use assms in \<open>simp_all add: works_def\<close>)
  then obtain s' where s': "BufferLog ref_bolt s t p = (Inr (), s')" by (metis prod.collapse)
  have "changes_bucket bktLogs s (\<lambda>_ _ _. True) (Inr (), s')"
    using ref_bolt.BufferLog_changes [of s p t] assms(1) s'
    by (auto simp: store_ok_def elim: changes_bucket_mono)
  moreover have "store_ok ref_ok s'"
    using ref_bolt.step_ok_step [OF assms(1), of "OpBufferLog t p"] s' by (simp add: failed_def step_ok_def)
  ultimately show ?thesis using s' assms(2,3) by (simp add: changes_bucket_def failed_def)
qed

theorem logs_drained_in_order_witness:
  "\<exists>s1 s2. store_run ref_bolt example_store [OpBufferLog 5 [1], OpBufferLog 3 [2], OpBufferLog 5 [3]] = (replicate 3 None, s1)
     \<and> DrainLogs ref_bolt s1 2 = (Inr [[2], [1]], s2)"
proof -
  let ?xs = "[(5, [1]), (3, [2]), (5, [3])] :: (int64 \<times> bytes) list"
  obtain s1 where s1: "store_run ref_bolt example_store (map (\<lambda>(t, p). OpBufferLog t p) ?xs) = (replicate (length ?xs) None, s1)"
    and inv: "store_ok ref_ok s1" "st_disk s1 = (\<lambda>_. True)" "st_rand s1 = (\<lambda>i. Some (of_nat i))"
  proof -
    obtain a where a: "store_step ref_bolt example_store (OpBufferLog 5 [1]) = (None, a)" "store_ok ref_ok a"
      "st_disk a = (\<lambda>_. True)" "st_rand a = (\<lambda>i. Some (of_nat i))"
      using example_BufferLog [OF example_store_ok, of "[1]" 5] by (auto simp: example_store_def)
    obtain b where b: "store_step ref_bolt a (OpBufferLog 3 [2]) = (None, b)" "store_ok ref_ok b"
      "st_disk b = (\<lambda>_. True)" "st_rand b = (\<lambda>i. Some (of_nat i))"
      using example_BufferLog [OF a(2-4), of "[2]" 3] by auto
    obtain c where c: "store_step ref_bolt b (OpBufferLog 5 [3]) = (None, c)" "store_ok ref_ok c"
      "st_disk c = (\<lambda>_. True)" "st_rand c = (\<lambda>i. Some (of_nat i))"
      using example_BufferLog [OF b(2-4), of "[3]" 5] by auto
    from a b c show thesis by (intro that [of c]) (simp_all del: store_step.simps)
  qed
  have room: "unat (bk_sequence ref_bolt ([], 0)) + length ?xs < 2 ^ 64" by (simp add: ref_bolt_def)
  have empty: "bk_items ref_bolt ([], 0) = []" by (simp add: ref_bolt_def)
  have "logs_hold ref_bolt ref_ok example_store (bk_sequence ref_bolt ([], 0)) []"
    by (simp add: logs_hold_def) (simp add: ref_bolt_def key_sorted_def)
  from ref_bolt.logs_hold_run [OF this, of ?xs s1] s1 room
  have "logs_hold ref_bolt ref_ok s1 (bk_sequence ref_bolt ([], 0)) ?xs" by simp
  from ref_bolt.DrainLogs_works [OF this room, of 2] inv
  obtain out s2 where d: "DrainLogs ref_bolt s1 2 = (Inr out, s2)" by (auto simp: works_def)
  have "out = [[2], [1]]"
    using logs_drained_in_order [OF ref_bolt.bolt_laws_axioms example_store_ok example_bucket(4) empty room s1 d] by simp
  with s1 d show ?thesis by (auto simp: eval_nat_numeral simp del: store_step.simps)
qed

text \<open>The heartbeat time is not encrypted: after \<open>RecordHeartbeat\<close> the registry bucket holds its
  eight bytes as they are, with no envelope around them.\<close>

theorem heartbeat_stored_in_clear:
  assumes "bolt_laws B ok" "store_ok ok s" "RecordHeartbeat B s ts = (Inr (), s')"
  shows "\<exists>b. st_db s' bktRegistry = Some b \<and> bk_get B b keyHeartbeat = Some (put_u64 ts)
    \<and> LastHeartbeat B s' = Inr ts"
proof -
  have "changes_bucket bktRegistry s (\<lambda>b x b'. ok b' \<and> bk_get B b' keyHeartbeat = Some (u64Bytes ts)
    \<and> bk_get B b' keySessionID = bk_get B b keySessionID) (Inr (), s')"
    using bolt_laws.RecordHeartbeat_changes [OF assms(1), of s ts] assms(2,3) by (simp add: store_ok_def)
  then obtain b where "st_db s' bktRegistry = Some b" "bk_get B b keyHeartbeat = Some (put_u64 ts)" "st_open s'"
    using assms(2) by (auto simp: changes_bucket_def u64Bytes_def store_ok_def)
  then show ?thesis by (simp add: LastHeartbeat_def db_view_def in_bucket_def bytesToU64_def)
qed

theorem heartbeat_stored_in_clear_witness:
  "\<exists>s' b. RecordHeartbeat ref_bolt example_store 77 = (Inr (), s') \<and> st_db s' bktRegistry = Some b
     \<and> bk_get ref_bolt b keyHeartbeat = Some (put_u64 77)"
proof -
  have "fst (RecordHeartbeat ref_bolt example_store 77) = Inr ()"
    by (simp add: RecordHeartbeat_def db_update_def change_bucket_def in_bucket_def Let_def)
       (simp add: example_store_def Store.put_def ref_bolt_def ref_put_def keyHeartbeat_def u64Bytes_def)
  then obtain s' where s': "RecordHeartbeat ref_bolt example_store 77 = (Inr (), s')" by (metis prod.collapse)
  with heartbeat_stored_in_clear [OF ref_bolt.bolt_laws_axioms example_store_ok s'] show ?thesis by blast
qed

end
