(* ===== verification/Proto_Types.thy ===== *)
theory Proto_Types
  imports Complex_Main Go_Strings
begin

text \<open>
  The messages between agent and server: the Go structs generated from the protobuf schema
  (\<open>packages/proto/gen/go/backupv1\<close>) with the fields the schema declares; the generated
  bookkeeping fields and methods are left out. A pointer to a message is an option, a oneof
  wrapper a constructor of \<open>payload\<close>. Marshalling is done by the protobuf runtime, which is not
  part of the repository: the record \<open>codec\<close> with the laws of locale \<open>proto_codec\<close>.
\<close>

section \<open>common.proto\<close>

datatype JobStatus = JOB_STATUS_UNSPECIFIED | QUEUED | RUNNING | SUCCESS | FAILED | CANCELLED

datatype DbType = DB_UNSPECIFIED | POSTGRESQL | MYSQL | MARIADB | MONGODB | REDIS | SQLITE

datatype ConnectionStrategy = TCP | DOCKER_EXEC | UNIX_SOCKET

datatype CheckType = HTTP | HTTPS | TCP_CHECK

datatype LogLevel = TRACE | DEBUG | INFO | WARN | ERROR

record AgentMetrics =
  am_CpuPercent :: rat
  am_MemUsedBytes :: uint64
  am_MemTotalBytes :: uint64
  am_DiskUsedBytes :: uint64
  am_DiskTotalBytes :: uint64
  am_QueueDepth :: uint32

record PortBinding =
  pb_ContainerPort :: uint32
  pb_HostPort :: uint32
  pb_Protocol :: string

record S3UploadCreds =
  up_PresignedPutUrl :: string
  up_ExpiresAtMs :: uint64
  up_FinalS3Key :: string

record RetryPolicy =
  rp_MaxAttempts :: uint32
  rp_BackoffSeconds :: "uint32 list"

record MaintenanceWindow =
  mw_StartUtc :: string
  mw_EndUtc :: string

record AdvancedSettings =
  as_MaxParallelJobs :: uint32
  as_LogLevel :: string
  as_AutoUpdateEnabled :: bool

section \<open>agent_to_server.proto\<close>

record Register =
  rg_AgentVersion :: string
  rg_Hostname :: string
  rg_Os :: string
  rg_Arch :: string
  rg_DockerVersion :: string
  rg_Capabilities :: "string list"
  rg_LastKnownConfigVersion :: uint64

record Heartbeat =
  hb_ConfigVersion :: uint64
  hb_Metrics :: "AgentMetrics option"
  hb_ActiveJobIds :: "string list"

record DiscoveredContainer =
  dc_ContainerId :: string
  dc_Name :: string
  dc_Image :: string
  dc_DetectedDbType :: string
  dc_Networks :: "string list"
  dc_EnvHints :: "string \<rightharpoonup> string"
  dc_Ports :: "PortBinding list"

record DiscoveryReport =
  dr_Containers :: "DiscoveredContainer list"

record JobUpdate =
  ju_JobId :: string
  ju_Status :: JobStatus
  ju_ProgressPercent :: uint32
  ju_CurrentStep :: string
  ju_ErrorMessage :: string
  ju_RunId :: string

record BackupCompleted =
  bc_JobId :: string
  bc_RunId :: string
  bc_S3Key :: string
  bc_SizeBytes :: uint64
  bc_Sha256 :: string
  bc_DurationMs :: uint64
  bc_DekKmsId :: string
  bc_EncryptedDek :: bytes
  bc_Compression :: string
  bc_DbEngineVersion :: string

record HealthCheckResult =
  hr_CheckId :: string
  hr_TsMs :: uint64
  hr_Ok :: bool
  hr_LatencyMs :: uint32
  hr_Error :: string
  hr_StatusCode :: uint32

record LogEvent =
  le_TsMs :: uint64
  le_Level :: LogLevel
  le_JobId :: string
  le_Message :: string
  le_Fields :: "string \<rightharpoonup> string"

record RestoreUpdate =
  ru_RestoreId :: string
  ru_Status :: JobStatus
  ru_ProgressPercent :: uint32
  ru_CurrentStep :: string
  ru_ErrorMessage :: string

record AckMsg =
  ack_CorrelationId :: string
  ack_Accepted :: bool
  ack_Reason :: string

section \<open>server_to_agent.proto\<close>

record ConnectionConfig =
  cc_Host :: string
  cc_Port :: uint32
  cc_Database :: string
  cc_Username :: string
  cc_PasswordSecretRef :: string
  cc_ContainerId :: string
  cc_Strategy :: ConnectionStrategy

record Target =
  tg_Id :: string
  tg_Type :: DbType
  tg_DisplayName :: string
  tg_Connection :: "ConnectionConfig option"

record BackupJobSpec =
  bj_Id :: string
  bj_TargetId :: string
  bj_Cron :: string
  bj_RetentionDays :: uint32
  bj_Compression :: string
  bj_EncryptionEnabled :: bool
  bj_PreHooks :: "string list"
  bj_PostHooks :: "string list"
  bj_Retry :: "RetryPolicy option"
  bj_TimeoutSec :: uint32

record HealthCheckSpec =
  hc_Id :: string
  hc_Name :: string
  hc_Type :: CheckType
  hc_Target :: string
  hc_IntervalSec :: uint32
  hc_TimeoutSec :: uint32
  hc_ExpectedStatus :: uint32

record AgentConfig =
  ac_Version :: uint64
  ac_Targets :: "Target list"
  ac_Jobs :: "BackupJobSpec list"
  ac_HealthChecks :: "HealthCheckSpec list"
  ac_Maintenance :: "MaintenanceWindow option"
  ac_Advanced :: "AdvancedSettings option"

record RegisterAck =
  ra_SessionId :: string
  ra_Config :: "AgentConfig option"
  ra_HeartbeatIntervalSec :: uint32
  ra_ServerTimeIso :: string

record ConfigUpdate =
  cu_Config :: "AgentConfig option"

record RunBackupMsg =
  rb_JobId :: string
  rb_RunId :: string
  rb_ManualTrigger :: bool
  rb_UploadCreds :: "S3UploadCreds option"
  rb_EncryptedDek :: bytes

record CancelJob =
  cj_JobId :: string

record RunHealthCheck =
  rh_CheckId :: string

record SelfUpdate =
  su_TargetVersion :: string
  su_BinaryUrl :: string
  su_Sha256 :: string
  su_CosignSignature :: bytes
  su_Force :: bool

record Ping =
  pg_TsMs :: uint64

section \<open>envelope.proto\<close>

datatype payload =
    PRegister "Register option"
  | PHeartbeat "Heartbeat option"
  | PDiscovery "DiscoveryReport option"
  | PJobUpdate "JobUpdate option"
  | PBackupCompleted "BackupCompleted option"
  | PHealthResult "HealthCheckResult option"
  | PLog "LogEvent option"
  | PRestoreUpdate "RestoreUpdate option"
  | PAck "AckMsg option"
  | PRegisterAck "RegisterAck option"
  | PConfigUpdate "ConfigUpdate option"
  | PRunBackup "RunBackupMsg option"
  | PCancelJob "CancelJob option"
  | PRunHealthCheck "RunHealthCheck option"
  | PSelfUpdate "SelfUpdate option"
  | PPing "Ping option"

record Envelope =
  env_Seq :: uint64
  env_TsMs :: uint64
  env_CorrelationId :: string
  env_Payload :: "payload option"

section \<open>The protobuf runtime\<close>

record codec =
  marshal_env :: "Envelope \<Rightarrow> bytes option"
  unmarshal_env :: "bytes \<Rightarrow> Envelope option"
  marshal_cfg :: "AgentConfig \<Rightarrow> bytes option"
  unmarshal_cfg :: "bytes \<Rightarrow> AgentConfig option"

locale proto_codec =
  fixes P :: codec
  assumes env_roundtrip: "marshal_env P e = Some b \<Longrightarrow> unmarshal_env P b = Some e"
    and cfg_roundtrip: "marshal_cfg P c = Some b \<Longrightarrow> unmarshal_cfg P b = Some c"

text \<open>
  An instance, to see that the laws can hold: it encodes envelopes without a payload or with a
  \<open>Ping\<close>, and configurations that have only a version, and fails on all others.
\<close>

definition ref_payload :: "payload option \<Rightarrow> bytes option" where
  "ref_payload p = (case p of None \<Rightarrow> Some (0 # put_u64 0) | Some (PPing (Some g)) \<Rightarrow> Some (1 # put_u64 (pg_TsMs g)) | _ \<Rightarrow> None)"

definition ref_codec :: codec where
  "ref_codec =
     \<lparr>marshal_env = (\<lambda>e. map_option (\<lambda>p. p @ put_u64 (env_Seq e) @ put_u64 (env_TsMs e) @ bytes_of_string (env_CorrelationId e))
        (ref_payload (env_Payload e))),
      unmarshal_env = (\<lambda>b. if length b < 25 then None else Some
        \<lparr>env_Seq = get_u64 (drop 9 b), env_TsMs = get_u64 (drop 17 b), env_CorrelationId = string_of_bytes (drop 25 b),
         env_Payload = (if hd b = 0 then None else Some (PPing (Some \<lparr>pg_TsMs = get_u64 (drop 1 b)\<rparr>)))\<rparr>),
      marshal_cfg = (\<lambda>c. if c = \<lparr>ac_Version = ac_Version c, ac_Targets = [], ac_Jobs = [], ac_HealthChecks = [],
          ac_Maintenance = None, ac_Advanced = None\<rparr> then Some (put_u64 (ac_Version c)) else None),
      unmarshal_cfg = (\<lambda>b. Some \<lparr>ac_Version = get_u64 b, ac_Targets = [], ac_Jobs = [], ac_HealthChecks = [],
          ac_Maintenance = None, ac_Advanced = None\<rparr>)\<rparr>"

lemma get_u64_append [simp]: "get_u64 (put_u64 v @ b) = v"
  by (simp add: get_u64_def be_val_put_u64)

lemma ref_payload_cases:
  assumes "ref_payload p = Some b"
  obtains "p = None" "b = 0 # put_u64 0" | g where "p = Some (PPing (Some g))" "b = 1 # put_u64 (pg_TsMs g)"
  using assms by (auto simp: ref_payload_def split: option.splits payload.splits)

interpretation ref_codec: proto_codec ref_codec
proof
  fix e b assume "marshal_env ref_codec e = Some b"
  then obtain p where p: "ref_payload (env_Payload e) = Some p" and
    b: "b = p @ put_u64 (env_Seq e) @ put_u64 (env_TsMs e) @ bytes_of_string (env_CorrelationId e)"
    by (auto simp: ref_codec_def)
  from p have len: "length p = 9" by (rule ref_payload_cases) simp_all
  have parts: "drop 9 b = put_u64 (env_Seq e) @ put_u64 (env_TsMs e) @ bytes_of_string (env_CorrelationId e)"
    "drop 17 b = put_u64 (env_TsMs e) @ bytes_of_string (env_CorrelationId e)"
    "drop 25 b = bytes_of_string (env_CorrelationId e)" "\<not> length b < 25"
    by (simp_all add: b len)
  from p have "(if hd b = 0 then None else Some (PPing (Some \<lparr>pg_TsMs = get_u64 (drop 1 b)\<rparr>))) = env_Payload e"
    by (rule ref_payload_cases) (simp_all add: b)
  with parts show "unmarshal_env ref_codec b = Some e"
    by (simp add: ref_codec_def)
next
  fix c b assume "marshal_cfg ref_codec c = Some b"
  then show "unmarshal_cfg ref_codec b = Some c"
    by (cases c) (auto simp: ref_codec_def split: if_splits)
qed

section \<open>Helpers of internal/proto\<close>

text \<open>\<open>NewEnvelope\<close>, with the clock's milliseconds as an argument.\<close>

definition NewEnvelope :: "uint64 \<Rightarrow> Envelope" where
  "NewEnvelope now_ms = \<lparr>env_Seq = 0, env_TsMs = now_ms, env_CorrelationId = [], env_Payload = None\<rparr>"

definition NowMillis :: "int \<Rightarrow> uint64" where
  "NowMillis unix_ms = word_of_int unix_ms"

end
