(* ===== verification/Backoff.thy ===== *)
theory Backoff
  imports Go_Float
begin

text \<open>
  \<open>internal/wss/backoff.go\<close>: the reconnect schedule. Durations are nanoseconds; the result of
  \<open>rng.Float64()\<close>, a number in [0, 1), is an argument of the step.
\<close>

definition Second :: int where "Second = 1000000000"

record Backoff =
  bo_Initial :: int
  bo_Max :: int
  bo_Factor :: rat
  bo_JitterPC :: rat
  bo_current :: int

definition NewBackoff :: Backoff where
  "NewBackoff = \<lparr>bo_Initial = 1 * Second, bo_Max = 60 * Second, bo_Factor = 2, bo_JitterPC = fl64 (1 / 5), bo_current = 0\<rparr>"

definition withJitter :: "Backoff \<Rightarrow> rat \<Rightarrow> int \<Rightarrow> int" where
  "withJitter b r d =
     (if bo_JitterPC b \<le> 0 then d
      else let jitter = fl64 (bo_JitterPC b * fl64 (fl64 (r * 2) - 1))
           in trunc (fl64 (fl64 (of_int d) * fl64 (1 + jitter))))"

definition Backoff_Next :: "Backoff \<Rightarrow> rat \<Rightarrow> int \<times> Backoff" where
  "Backoff_Next b r =
     (let cur = (if bo_current b = 0 then bo_Initial b
                 else let c = trunc (fl64 (fl64 (of_int (bo_current b)) * bo_Factor b))
                      in if c > bo_Max b then bo_Max b else c);
          b1 = b\<lparr>bo_current := cur\<rparr>
      in (withJitter b1 r cur, b1))"

definition Backoff_Reset :: "Backoff \<Rightarrow> Backoff" where
  "Backoff_Reset b = b\<lparr>bo_current := 0\<rparr>"

text \<open>The delays of successive calls of \<open>Next\<close>, for the random numbers drawn.\<close>

fun backoff_delays :: "Backoff \<Rightarrow> rat list \<Rightarrow> int list \<times> Backoff" where
  "backoff_delays b [] = ([], b)"
| "backoff_delays b (r # rs) =
     (let (d, b1) = Backoff_Next b r; (ds, b2) = backoff_delays b1 rs in (d # ds, b2))"

section \<open>The schedule without jitter\<close>

definition scheduled :: "nat \<Rightarrow> int" where
  "scheduled k = min (60 * Second) (2 ^ k * Second)"

lemma scheduled_0: "scheduled 0 = Second"
  by (simp add: scheduled_def Second_def)

lemma scheduled_bounds: "Second \<le> scheduled k" "scheduled k \<le> 60 * Second"
  by (simp_all add: scheduled_def Second_def)

lemma scheduled_Suc: "scheduled (Suc k) = min (60 * Second) (2 * scheduled k)"
  by (auto simp: scheduled_def Second_def min_def)

definition spec_backoff :: "int \<Rightarrow> Backoff" where
  "spec_backoff c = NewBackoff\<lparr>bo_current := c\<rparr>"

lemma Next_current:
  "snd (Backoff_Next (spec_backoff 0) r) = spec_backoff (scheduled 0)"
  "snd (Backoff_Next (spec_backoff (scheduled k)) r) = spec_backoff (scheduled (Suc k))"
proof -
  show "snd (Backoff_Next (spec_backoff 0) r) = spec_backoff (scheduled 0)"
    by (simp add: Backoff_Next_def spec_backoff_def NewBackoff_def scheduled_0 Let_def)
  have b: "0 < scheduled k" "scheduled k \<le> 60000000000"
    using scheduled_bounds [of k] by (simp_all add: Second_def)
  have "fl64 (of_int (scheduled k)) = of_int (scheduled k)"
    using b by (intro fl64_of_int) simp
  moreover have "fl64 (of_int (scheduled k) * 2) = of_int (scheduled k * 2)"
    using b fl64_of_int [of "scheduled k * 2"] by simp
  ultimately have "trunc (fl64 (fl64 (of_int (scheduled k)) * 2)) = 2 * scheduled k"
    by (simp only: trunc_of_int mult.commute)
  with b show "snd (Backoff_Next (spec_backoff (scheduled k)) r) = spec_backoff (scheduled (Suc k))"
    by (simp add: Backoff_Next_def spec_backoff_def NewBackoff_def scheduled_Suc Let_def min_def)
qed

lemma Next_delay:
  "Backoff_Next b r = (withJitter (snd (Backoff_Next b r)) r (bo_current (snd (Backoff_Next b r))), snd (Backoff_Next b r))"
  by (simp add: Backoff_Next_def Let_def)

lemma bo_current_spec [simp]: "bo_current (spec_backoff c) = c"
  by (simp add: spec_backoff_def)

section \<open>The jitter stays within a fifth, up to rounding\<close>

lemma fl64_fifth: "199 / 1000 \<le> fl64 (1 / 5)" "fl64 (1 / 5) \<le> 200001 / 1000000"
  using fl64_near [of "1 / 5" 1] by simp_all

lemma jitter_bound:
  assumes "0 \<le> r" "r < 1"
  shows "\<bar>fl64 (fl64 (1 / 5) * fl64 (fl64 (r * 2) - 1))\<bar> \<le> 2001 / 10000"
proof -
  have a: "r * 2 - 2 / 1000000000 \<le> fl64 (r * 2)" "fl64 (r * 2) \<le> r * 2 + 2 / 1000000000"
    using fl64_near [of "r * 2" 2] assms by simp_all
  then have b: "\<bar>fl64 (r * 2) - 1\<bar> \<le> 2" using assms by linarith
  from fl64_near [OF b] a assms have d: "\<bar>fl64 (fl64 (r * 2) - 1)\<bar> \<le> 10001 / 10000" by linarith
  have "\<bar>fl64 (1 / 5) * fl64 (fl64 (r * 2) - 1)\<bar> \<le> 200001 / 1000000 * (10001 / 10000)"
    unfolding abs_mult by (intro mult_mono d) (use fl64_fifth in linarith)+
  then have e: "\<bar>fl64 (1 / 5) * fl64 (fl64 (r * 2) - 1)\<bar> \<le> 20005 / 100000" by simp
  then have "\<bar>fl64 (1 / 5) * fl64 (fl64 (r * 2) - 1)\<bar> \<le> 1" by linarith
  from fl64_near [OF this] e show ?thesis by linarith
qed

lemma withJitter_bounds:
  assumes "0 \<le> r" "r < 1" "Second \<le> d" "d \<le> 60 * Second"
  shows "79 * d \<le> 100 * withJitter (spec_backoff c) r d \<and> 100 * withJitter (spec_backoff c) r d \<le> 121 * d"
proof -
  define j where "j = fl64 (fl64 (1 / 5) * fl64 (fl64 (r * 2) - 1))"
  have j: "\<bar>j\<bar> \<le> 2001 / 10000" unfolding j_def by (rule jitter_bound [OF assms(1,2)])
  have dd: "1000000000 \<le> d" "d \<le> 60000000000" using assms(3,4) by (simp_all add: Second_def)
  then have dr: "1000000000 \<le> (of_int d :: rat)" "(of_int d :: rat) \<le> 60000000000" by linarith+
  have fd: "fl64 (of_int d) = of_int d" using dd by (intro fl64_of_int) simp
  have "\<bar>1 + j\<bar> \<le> 2" using j by linarith
  from fl64_near [OF this] j have m: "799 / 1000 \<le> fl64 (1 + j)" "fl64 (1 + j) \<le> 1201 / 1000" by linarith+
  define p where "p = of_int d * fl64 (1 + j)"
  have p: "of_int d * (799 / 1000) \<le> p" "p \<le> of_int d * (1201 / 1000)"
    unfolding p_def using dr m by (auto intro!: mult_left_mono)
  then have "\<bar>p\<bar> \<le> 100000000000" using dr by linarith
  from fl64_near [OF this] have h: "p - 100 \<le> fl64 p" "fl64 p \<le> p + 100" by simp_all
  have W: "withJitter (spec_backoff c) r d = trunc (fl64 p)"
    using fl64_fifth by (simp add: withJitter_def spec_backoff_def NewBackoff_def j_def p_def fd Let_def)
  have "0 \<le> fl64 p" using h p dr by linarith
  then have "withJitter (spec_backoff c) r d = \<lfloor>fl64 p\<rfloor>" by (simp add: W trunc_def)
  then have w: "of_int (withJitter (spec_backoff c) r d) \<le> fl64 p" "fl64 p < of_int (withJitter (spec_backoff c) r d) + 1"
    by linarith+
  with dr h p have "of_int (79 * d) \<le> (of_int (100 * withJitter (spec_backoff c) r d) :: rat)"
    unfolding of_int_mult of_int_numeral by linarith
  moreover from dr w h p have "(of_int (100 * withJitter (spec_backoff c) r d) :: rat) \<le> of_int (121 * d)"
    unfolding of_int_mult of_int_numeral by linarith
  ultimately show ?thesis by (simp only: of_int_le_iff)
qed

section \<open>Properties\<close>

lemma backoff_delays_bounds:
  assumes "\<forall>r \<in> set rs. 0 \<le> r \<and> r < 1"
  shows "length (fst (backoff_delays (spec_backoff (scheduled k)) rs)) = length rs \<and>
    (\<forall>i < length rs. 79 * scheduled (k + i + 1) \<le> 100 * fst (backoff_delays (spec_backoff (scheduled k)) rs) ! i
       \<and> 100 * fst (backoff_delays (spec_backoff (scheduled k)) rs) ! i \<le> 121 * scheduled (k + i + 1))"
  using assms
proof (induction rs arbitrary: k)
  case (Cons r rs)
  let ?b = "spec_backoff (scheduled k)"
  have d: "Backoff_Next ?b r = (withJitter (spec_backoff (scheduled (Suc k))) r (scheduled (Suc k)), spec_backoff (scheduled (Suc k)))"
    by (subst Next_delay) (simp add: Next_current)
  obtain ds b' where r: "backoff_delays (spec_backoff (scheduled (Suc k))) rs = (ds, b')" by fastforce
  have "79 * scheduled (Suc k) \<le> 100 * withJitter (spec_backoff (scheduled (Suc k))) r (scheduled (Suc k))
      \<and> 100 * withJitter (spec_backoff (scheduled (Suc k))) r (scheduled (Suc k)) \<le> 121 * scheduled (Suc k)"
    using Cons.prems scheduled_bounds [of "Suc k"] by (intro withJitter_bounds) simp_all
  with Cons.IH [of "Suc k"] Cons.prems show ?case
    by (auto simp: d r less_Suc_eq_0_disj)
qed simp

lemma length_backoff_delays [simp]: "length (fst (backoff_delays b rs)) = length rs"
  by (induction rs arbitrary: b) (simp_all add: case_prod_beta' Let_def)

text \<open>The n-th call of \<open>Next\<close> on a fresh \<open>Backoff\<close>.\<close>

lemma backoff_schedule:
  assumes "\<forall>r \<in> set rs. 0 \<le> r \<and> r < 1" "n < length rs"
  shows "79 * min (60 * Second) (2 ^ n * Second) \<le> 100 * fst (backoff_delays NewBackoff rs) ! n
    \<and> 100 * fst (backoff_delays NewBackoff rs) ! n \<le> 121 * min (60 * Second) (2 ^ n * Second)"
proof -
  obtain r rs' where rs: "rs = r # rs'" using assms(2) by (cases rs) auto
  have nb: "NewBackoff = spec_backoff 0" by (simp add: spec_backoff_def NewBackoff_def)
  have d: "Backoff_Next NewBackoff r = (withJitter (spec_backoff (scheduled 0)) r (scheduled 0), spec_backoff (scheduled 0))"
    unfolding nb by (subst Next_delay) (simp add: Next_current)
  have first: "79 * scheduled 0 \<le> 100 * withJitter (spec_backoff (scheduled 0)) r (scheduled 0)
      \<and> 100 * withJitter (spec_backoff (scheduled 0)) r (scheduled 0) \<le> 121 * scheduled 0"
    using assms(1) rs scheduled_bounds [of 0] by (intro withJitter_bounds) simp_all
  obtain ds b' where r: "backoff_delays (spec_backoff (scheduled 0)) rs' = (ds, b')" by fastforce
  have "fst (backoff_delays NewBackoff rs) = withJitter (spec_backoff (scheduled 0)) r (scheduled 0) # ds"
    by (simp add: rs d r)
  moreover have "79 * scheduled (i + 1) \<le> 100 * ds ! i \<and> 100 * ds ! i \<le> 121 * scheduled (i + 1)" if "i < length rs'" for i
    using backoff_delays_bounds [of rs' 0] assms(1) rs r that by simp
  ultimately have "79 * scheduled n \<le> 100 * fst (backoff_delays NewBackoff rs) ! n
      \<and> 100 * fst (backoff_delays NewBackoff rs) ! n \<le> 121 * scheduled n"
    using first assms(2) rs by (cases n) auto
  then show ?thesis by (simp add: scheduled_def)
qed

end
