(* ===== verification/Wss.thy ===== *)
theory Wss
  imports Proto_Types Job_Queue Backoff
begin

text \<open>
  \<open>internal/wss/client.go\<close> and \<open>loops.go\<close>: the connection to the control plane. The client's
  state is one record; the methods are functions on it. The persistent side is seen through the
  \<open>Queue\<close> interface and the few \<open>Store\<close> methods the client calls, both of which may be nil. What
  the network does (dialling, frames read, writes that fail) and the clock are arguments. The
  goroutines of a live connection become the steps of \<open>live_step\<close>: each takes or adds one
  message on the \<open>out\<close> channel or handles one inbound frame, which is what they do atomically.
\<close>

section \<open>Configuration and environment\<close>

record WssConfig =
  wc_ServerURL :: string
  wc_AgentKey :: string
  wc_AgentVersion :: string
  wc_Hostname :: string
  wc_OS :: string
  wc_Arch :: string
  wc_DockerVersion :: string
  wc_Capabilities :: "string list"
  wc_AllowInsecure :: bool

text \<open>A callback is \<open>None\<close> where the field is nil; its result says whether it returned an error.\<close>

record Handlers =
  h_OnConfigUpdate :: "(ConfigUpdate option \<Rightarrow> bool) option"
  h_OnRunBackup :: "(RunBackupMsg option \<Rightarrow> bool) option"
  h_OnCancelJob :: "(CancelJob option \<Rightarrow> bool) option"
  h_OnRunHealthCheck :: "(RunHealthCheck option \<Rightarrow> bool) option"
  h_OnSelfUpdate :: "(SelfUpdate option \<Rightarrow> bool) option"

datatype callback =
    CbConfigUpdate "ConfigUpdate option"
  | CbRunBackup "RunBackupMsg option"
  | CbCancelJob "CancelJob option"
  | CbRunHealthCheck "RunHealthCheck option"
  | CbSelfUpdate "SelfUpdate option"

text \<open>The methods of \<open>*state.Store\<close> the client calls; it ignores the errors of the writes.\<close>

record 's StateOps =
  so_SaveSession :: "'s \<Rightarrow> string \<Rightarrow> int64 \<Rightarrow> 's"
  so_SaveConfig :: "'s \<Rightarrow> uint64 \<Rightarrow> bytes \<Rightarrow> 's"
  so_RecordHeartbeat :: "'s \<Rightarrow> int64 \<Rightarrow> 's"
  so_LoadConfig :: "'s \<Rightarrow> (uint64 \<times> bytes) option"

definition store_ops :: "'b bolt \<Rightarrow> 'b Store StateOps" where
  "store_ops B =
     \<lparr>so_SaveSession = (\<lambda>s i t. snd (SaveSession B s i t)), so_SaveConfig = (\<lambda>s v r. snd (SaveConfig B s v r)),
      so_RecordHeartbeat = (\<lambda>s t. snd (RecordHeartbeat B s t)),
      so_LoadConfig = (\<lambda>s. case LoadConfig B s of Inl e \<Rightarrow> None | Inr x \<Rightarrow> Some x)\<rparr>"

record 's World =
  w_codec :: codec
  w_state :: "'s StateOps option"
  w_queue :: "'s queue option"
  w_handlers :: "Handlers option"
  w_metrics :: "AgentMetrics option option"
  w_hostname :: "string option"
  w_goos :: string
  w_goarch :: string

text \<open>
  \<open>cl_out\<close> is the content of the per-connection channel, \<open>None\<close> while disconnected;
  \<open>cl_wire\<close> and \<open>cl_calls\<close> record the messages written and the callbacks invoked.
\<close>

record 's Client =
  cl_cfg :: WssConfig
  cl_disk :: 's
  cl_out :: "Envelope list option"
  cl_seq :: uint64
  cl_configVersion :: uint64
  cl_sessionID :: string
  cl_reconnectCount :: uint64
  cl_wire :: "Envelope list"
  cl_calls :: "callback list"

definition outCap :: nat where "outCap = 64"

definition NewClient :: "'s World \<Rightarrow> WssConfig \<Rightarrow> 's \<Rightarrow> 's Client" where
  "NewClient w cfg d =
     (let cfg1 = (if wc_Hostname cfg = []
                  then (case w_hostname w of Some h \<Rightarrow> cfg\<lparr>wc_Hostname := h\<rparr> | None \<Rightarrow> cfg) else cfg);
          cfg2 = (if wc_OS cfg = [] then cfg1\<lparr>wc_OS := w_goos w\<rparr> else cfg1);
          cfg3 = (if wc_Arch cfg = [] then cfg2\<lparr>wc_Arch := w_goarch w\<rparr> else cfg2);
          v = (case w_state w of None \<Rightarrow> 0 | Some st \<Rightarrow> (case so_LoadConfig st d of Some (v, _) \<Rightarrow> v | None \<Rightarrow> 0))
      in \<lparr>cl_cfg = cfg3, cl_disk = d, cl_out = None, cl_seq = 0, cl_configVersion = v, cl_sessionID = [],
          cl_reconnectCount = 0, cl_wire = [], cl_calls = []\<rparr>)"

section \<open>Sending\<close>

datatype send_err = NilEnvelope | MarshalEnvelope | QueueNotConfigured | EnqueueErr store_err

definition stamp :: "uint64 \<Rightarrow> 's Client \<Rightarrow> Envelope \<Rightarrow> Envelope \<times> 's Client" where
  "stamp now c e =
     (let (e1, c1) = (if env_Seq e = 0 then (e\<lparr>env_Seq := cl_seq c + 1\<rparr>, c\<lparr>cl_seq := cl_seq c + 1\<rparr>) else (e, c))
      in (if env_TsMs e1 = 0 then e1\<lparr>env_TsMs := now\<rparr> else e1, c1))"

definition queue_key :: "Envelope \<Rightarrow> string" where
  "queue_key e =
     (if env_CorrelationId e = [] then ''seq-'' @ FormatUint (unat (env_Seq e)) else env_CorrelationId e)"

definition persist_env :: "'s World \<Rightarrow> 's Client \<Rightarrow> Envelope \<Rightarrow> send_err option \<times> 's Client" where
  "persist_env w c e =
     (case marshal_env (w_codec w) e of
        None \<Rightarrow> (Some MarshalEnvelope, c)
      | Some raw \<Rightarrow>
          (case w_queue w of
             None \<Rightarrow> (Some QueueNotConfigured, c)
           | Some Q \<Rightarrow>
               (case Enqueue Q (cl_disk c) (queue_key e) raw of
                  (err, d) \<Rightarrow> (map_option EnqueueErr err, c\<lparr>cl_disk := d\<rparr>))))"

definition Client_Send :: "'s World \<Rightarrow> uint64 \<Rightarrow> 's Client \<Rightarrow> Envelope option \<Rightarrow> send_err option \<times> 's Client" where
  "Client_Send w now c env =
     (case env of
        None \<Rightarrow> (Some NilEnvelope, c)
      | Some e0 \<Rightarrow>
          let (e, c1) = stamp now c e0
          in case cl_out c1 of
              None \<Rightarrow> persist_env w c1 e
            | Some out \<Rightarrow>
                if length out < outCap then (None, c1\<lparr>cl_out := Some (out @ [e])\<rparr>)
                else persist_env w c1 e)"

section \<open>Connecting\<close>

datatype url_err = ParseServerURL | MustBeHttps | UnsupportedScheme string

definition endpoint :: string where "endpoint = ''/v1/agents/connect''"

definition buildWSURL :: "(string \<Rightarrow> url option) \<Rightarrow> string \<Rightarrow> bool \<Rightarrow> url_err + url" where
  "buildWSURL url_parse raw allowInsecure =
     (case url_parse raw of
        None \<Rightarrow> Inl ParseServerURL
      | Some u \<Rightarrow>
          res_bind
            (if u_Scheme u = ''http'' then
               (if \<not> allowInsecure then Inl MustBeHttps else Inr (u\<lparr>u_Scheme := ''ws''\<rparr>))
             else if u_Scheme u = ''https'' then Inr (u\<lparr>u_Scheme := ''wss''\<rparr>)
             else if u_Scheme u = ''ws'' \<or> u_Scheme u = ''wss'' then Inr u
             else Inl (UnsupportedScheme (u_Scheme u)))
            (\<lambda>u1. Inr (if \<not> HasSuffix (u_Path u1) endpoint
                       then u1\<lparr>u_Path := TrimRight (u_Path u1) ''/'' @ endpoint\<rparr> else u1)))"

text \<open>A frame: whether it is binary, and its bytes.\<close>

type_synonym frame = "bool \<times> bytes"

datatype handshake_err =
    MarshalRegister | WriteRegister | ReadRegisterAck | AckNotBinary | UnmarshalAck | NotRegisterAck

definition register_env :: "uint64 \<Rightarrow> 's Client \<Rightarrow> Envelope" where
  "register_env now c =
     (NewEnvelope now)\<lparr>env_Seq := cl_seq c + 1,
        env_Payload := Some (PRegister (Some
          \<lparr>rg_AgentVersion = wc_AgentVersion (cl_cfg c), rg_Hostname = wc_Hostname (cl_cfg c),
           rg_Os = wc_OS (cl_cfg c), rg_Arch = wc_Arch (cl_cfg c),
           rg_DockerVersion = wc_DockerVersion (cl_cfg c), rg_Capabilities = wc_Capabilities (cl_cfg c),
           rg_LastKnownConfigVersion = cl_configVersion c\<rparr>))\<rparr>"

definition handshake ::
  "'s World \<Rightarrow> uint64 \<Rightarrow> bool \<Rightarrow> frame option \<Rightarrow> 's Client \<Rightarrow> (handshake_err + RegisterAck) \<times> 's Client" where
  "handshake w now write_ok reply c =
     (let env = register_env now c; c1 = c\<lparr>cl_seq := cl_seq c + 1\<rparr>
      in case marshal_env (w_codec w) env of
          None \<Rightarrow> (Inl MarshalRegister, c1)
        | Some raw \<Rightarrow>
            if \<not> write_ok then (Inl WriteRegister, c1)
            else
              let c2 = c1\<lparr>cl_wire := cl_wire c1 @ [env]\<rparr>
              in case reply of
                  None \<Rightarrow> (Inl ReadRegisterAck, c2)
                | Some (binary, data) \<Rightarrow>
                    if \<not> binary then (Inl AckNotBinary, c2)
                    else (case unmarshal_env (w_codec w) data of
                        None \<Rightarrow> (Inl UnmarshalAck, c2)
                      | Some ackEnv \<Rightarrow>
                          (case env_Payload ackEnv of
                             Some (PRegisterAck (Some a)) \<Rightarrow> (Inr a, c2)
                           | _ \<Rightarrow> (Inl NotRegisterAck, c2))))"

definition call :: "callback \<Rightarrow> 's Client \<Rightarrow> 's Client" where
  "call cb c = c\<lparr>cl_calls := cl_calls c @ [cb]\<rparr>"

text \<open>What \<open>runOnce\<close> does with the acknowledgement; \<open>unix_ms\<close> is the clock.\<close>

definition apply_ack :: "'s World \<Rightarrow> int64 \<Rightarrow> RegisterAck \<Rightarrow> 's Client \<Rightarrow> 's Client" where
  "apply_ack w unix_ms a c0 =
     (let c1 = c0\<lparr>cl_sessionID := ra_SessionId a\<rparr>;
          c2 = (case ra_Config a of
                  Some cfg \<Rightarrow> if ac_Version cfg > cl_configVersion c1
                              then c1\<lparr>cl_configVersion := ac_Version cfg\<rparr> else c1
                | None \<Rightarrow> c1);
          c3 = (case w_state w of
                  None \<Rightarrow> c2
                | Some st \<Rightarrow>
                    let d1 = so_SaveSession st (cl_disk c2) (ra_SessionId a) unix_ms;
                        d2 = (case ra_Config a of
                                None \<Rightarrow> d1
                              | Some cfg \<Rightarrow> (case marshal_cfg (w_codec w) cfg of
                                    None \<Rightarrow> d1 | Some raw \<Rightarrow> so_SaveConfig st d1 (ac_Version cfg) raw))
                    in c2\<lparr>cl_disk := d2\<rparr>)
      in case (ra_Config a, w_handlers w) of
          (Some cfg, Some h) \<Rightarrow>
            (if h_OnConfigUpdate h \<noteq> None then call (CbConfigUpdate (Some \<lparr>cu_Config = Some cfg\<rparr>)) c3 else c3)
        | _ \<Rightarrow> c3)"

datatype connect_err = DialURL url_err | DialFailed | HandshakeFailed handshake_err

text \<open>The periods and time-outs of \<open>client.go\<close>, in nanoseconds.\<close>

definition heartbeatInterval :: int where "heartbeatInterval = 30 * 1000000000"
definition readIdleTimeout :: int where "readIdleTimeout = 90 * 1000000000"
definition writeTimeout :: int where "writeTimeout = 10 * 1000000000"
definition registerTimeout :: int where "registerTimeout = 15 * 1000000000"

text \<open>As the comments want it: three missed pings end a connection, and a write gives up before the peer does.\<close>

lemma timeouts_fit: "readIdleTimeout = 3 * heartbeatInterval" "writeTimeout < readIdleTimeout" "writeTimeout < heartbeatInterval"
  by (simp_all add: readIdleTimeout_def heartbeatInterval_def writeTimeout_def)

text \<open>\<open>dial\<close>: the request for the WebSocket, and the limit set on what is read from it.\<close>

record dial_request =
  dr_URL :: url
  dr_Header :: "(string \<times> string) list"
  dr_Timeout :: int
  dr_ReadLimit :: int

definition dial :: "(string \<Rightarrow> url option) \<Rightarrow> bool \<Rightarrow> WssConfig \<Rightarrow> connect_err + dial_request" where
  "dial url_parse dial_ok cfg =
     (case buildWSURL url_parse (wc_ServerURL cfg) (wc_AllowInsecure cfg) of
        Inl e \<Rightarrow> Inl (DialURL e)
      | Inr u \<Rightarrow>
          if \<not> dial_ok then Inl DialFailed
          else Inr \<lparr>dr_URL = u, dr_Header = [(''Authorization'', ''Bearer '' @ wc_AgentKey cfg)],
                    dr_Timeout = 15 * 1000000000, dr_ReadLimit = 4 * 1024 * 1024\<rparr>)"

text \<open>\<open>runOnce\<close> up to the point where the channel is in place; \<open>dial_ok\<close> is \<open>websocket.Dial\<close>.\<close>

definition connect ::
  "'s World \<Rightarrow> (string \<Rightarrow> url option) \<Rightarrow> bool \<Rightarrow> uint64 \<Rightarrow> bool \<Rightarrow> frame option \<Rightarrow> int64 \<Rightarrow> 's Client
     \<Rightarrow> connect_err option \<times> 's Client" where
  "connect w url_parse dial_ok now write_ok reply unix_ms c =
     (case dial url_parse dial_ok (cl_cfg c) of
        Inl e \<Rightarrow> (Some e, c)
      | Inr ws \<Rightarrow>
          (case handshake w now write_ok reply c of
             (Inl e, c1) \<Rightarrow> (Some (HandshakeFailed e), c1)
           | (Inr a, c1) \<Rightarrow> (None, (apply_ack w unix_ms a c1)\<lparr>cl_out := Some []\<rparr>)))"

lemma connect_cases:
  "connect w url_parse dial_ok now write_ok reply unix_ms c =
     (case buildWSURL url_parse (wc_ServerURL (cl_cfg c)) (wc_AllowInsecure (cl_cfg c)) of
        Inl e \<Rightarrow> (Some (DialURL e), c)
      | Inr u \<Rightarrow>
          if \<not> dial_ok then (Some DialFailed, c)
          else (case handshake w now write_ok reply c of
              (Inl e, c1) \<Rightarrow> (Some (HandshakeFailed e), c1)
            | (Inr a, c1) \<Rightarrow> (None, (apply_ack w unix_ms a c1)\<lparr>cl_out := Some []\<rparr>)))"
  by (simp add: connect_def dial_def split: sum.split)

section \<open>Replaying the queue\<close>

text \<open>
  \<open>replayQueue\<close> runs before the goroutine that drains the channel is started. \<open>ReplayBlocked\<close>
  is the send on a full channel, which can only end with the context; \<open>done i\<close> says that the
  context is cancelled and the \<open>select\<close> of the i-th job takes that branch.
\<close>

datatype replay_end = ReplayDone | ReplayCancelled | ReplayBlocked

fun replay_loop :: "'s World \<Rightarrow> 's queue \<Rightarrow> (nat \<Rightarrow> bool) \<Rightarrow> nat \<Rightarrow> job list \<Rightarrow> 's Client \<Rightarrow> replay_end \<times> 's Client" where
  "replay_loop w Q ctx_done i [] c = (ReplayDone, c)"
| "replay_loop w Q ctx_done i ((r, p) # js) c =
     (case unmarshal_env (w_codec w) p of
        None \<Rightarrow> replay_loop w Q ctx_done (i + 1) js (c\<lparr>cl_disk := snd (Ack Q (cl_disk c) r)\<rparr>)
      | Some env \<Rightarrow>
          (if ctx_done i then (ReplayCancelled, c)
           else case cl_out c of
               None \<Rightarrow> (ReplayBlocked, c)
             | Some out \<Rightarrow>
                 if length out < outCap
                 then replay_loop w Q ctx_done (i + 1) js
                        (c\<lparr>cl_out := Some (out @ [env]), cl_disk := snd (Ack Q (cl_disk c) r)\<rparr>)
                 else (ReplayBlocked, c)))"

definition replayQueue :: "'s World \<Rightarrow> (nat \<Rightarrow> bool) \<Rightarrow> 's Client \<Rightarrow> replay_end \<times> 's Client" where
  "replayQueue w ctx_done c =
     (case w_queue w of
        None \<Rightarrow> (ReplayDone, c)
      | Some Q \<Rightarrow>
          (case Pop Q (cl_disk c) 100 of
             Inl e \<Rightarrow> (ReplayDone, c)
           | Inr jobs \<Rightarrow> replay_loop w Q ctx_done 0 jobs c))"

section \<open>The loops of a live connection\<close>

datatype loop_err = ReadFailed | UnmarshalFrame | WriteFrame

definition cb_err :: "bool \<Rightarrow> callback \<Rightarrow> 's Client \<Rightarrow> bool \<times> 's Client" where
  "cb_err b cb c = (b, call cb c)"

text \<open>\<open>dispatch\<close>: whether it returned an error (which the read loop only logs), and the client.\<close>

definition dispatch :: "'s World \<Rightarrow> uint64 \<Rightarrow> Envelope \<Rightarrow> 's Client \<Rightarrow> bool \<times> 's Client" where
  "dispatch w now env c =
     (case env_Payload env of
        None \<Rightarrow> (True, c)
      | Some p \<Rightarrow>
        (case p of
           PConfigUpdate m \<Rightarrow>
             let c1 = (case Option.bind m cu_Config of
                         None \<Rightarrow> c
                       | Some cfg \<Rightarrow>
                           let c' = (case (marshal_cfg (w_codec w) cfg, w_state w) of
                                       (Some raw, Some st) \<Rightarrow> c\<lparr>cl_disk := so_SaveConfig st (cl_disk c) (ac_Version cfg) raw\<rparr>
                                     | _ \<Rightarrow> c)
                           in c'\<lparr>cl_configVersion := ac_Version cfg\<rparr>)
             in (case Option.bind (w_handlers w) h_OnConfigUpdate of
                   Some f \<Rightarrow> cb_err (f m) (CbConfigUpdate m) c1 | None \<Rightarrow> (False, c1))
         | PRunBackup m \<Rightarrow>
             (case Option.bind (w_handlers w) h_OnRunBackup of
                Some f \<Rightarrow> cb_err (f m) (CbRunBackup m) c | None \<Rightarrow> (False, c))
         | PCancelJob m \<Rightarrow>
             (case Option.bind (w_handlers w) h_OnCancelJob of
                Some f \<Rightarrow> cb_err (f m) (CbCancelJob m) c | None \<Rightarrow> (False, c))
         | PRunHealthCheck m \<Rightarrow>
             (case Option.bind (w_handlers w) h_OnRunHealthCheck of
                Some f \<Rightarrow> cb_err (f m) (CbRunHealthCheck m) c | None \<Rightarrow> (False, c))
         | PSelfUpdate m \<Rightarrow>
             (case Option.bind (w_handlers w) h_OnSelfUpdate of
                Some f \<Rightarrow> cb_err (f m) (CbSelfUpdate m) c | None \<Rightarrow> (False, c))
         | PPing m \<Rightarrow>
             (case Client_Send w now c (Some ((NewEnvelope now)\<lparr>env_CorrelationId := env_CorrelationId env,
                     env_Payload := Some (PAck (Some \<lparr>ack_CorrelationId = env_CorrelationId env,
                       ack_Accepted = True, ack_Reason = []\<rparr>))\<rparr>)) of
                (e, c1) \<Rightarrow> (e \<noteq> None, c1))
         | PRegisterAck m \<Rightarrow> (False, c)
         | _ \<Rightarrow> (True, c)))"

text \<open>One frame in \<open>readLoop\<close>; \<open>None\<close> is a failed or timed-out read.\<close>

definition read_step :: "'s World \<Rightarrow> uint64 \<Rightarrow> frame option \<Rightarrow> 's Client \<Rightarrow> loop_err option \<times> 's Client" where
  "read_step w now fr c =
     (case fr of
        None \<Rightarrow> (Some ReadFailed, c)
      | Some (binary, data) \<Rightarrow>
          if \<not> binary then (None, c)
          else (case unmarshal_env (w_codec w) data of
              None \<Rightarrow> (Some UnmarshalFrame, c)
            | Some env \<Rightarrow> (None, snd (dispatch w now env c))))"

text \<open>One message in \<open>writeLoop\<close>: taken from the channel, stamped, marshalled, written.\<close>

definition write_step :: "'s World \<Rightarrow> uint64 \<Rightarrow> bool \<Rightarrow> 's Client \<Rightarrow> loop_err option \<times> 's Client" where
  "write_step w now write_ok c =
     (case cl_out c of
        Some (e0 # out) \<Rightarrow>
          let (e, c1) = stamp now (c\<lparr>cl_out := Some out\<rparr>) e0
          in (case marshal_env (w_codec w) e of
                None \<Rightarrow> (None, c1)
              | Some raw \<Rightarrow>
                  if write_ok then (None, c1\<lparr>cl_wire := cl_wire c1 @ [e]\<rparr>) else (Some WriteFrame, c1))
      | _ \<Rightarrow> (None, c))"

text \<open>\<open>emitHeartbeat\<close>; a full channel makes it wait, which is no step here.\<close>

definition emitHeartbeat :: "'s World \<Rightarrow> uint64 \<Rightarrow> int64 \<Rightarrow> 's Client \<Rightarrow> 's Client" where
  "emitHeartbeat w now unix_ms c =
     (case cl_out c of
        Some out \<Rightarrow>
          if length out < outCap then
            let env = (NewEnvelope now)\<lparr>env_Payload := Some (PHeartbeat (Some
                  \<lparr>hb_ConfigVersion = cl_configVersion c, hb_Metrics = Option.bind (w_metrics w) id, hb_ActiveJobIds = []\<rparr>))\<rparr>;
                c1 = c\<lparr>cl_out := Some (out @ [env])\<rparr>
            in (case w_state w of None \<Rightarrow> c1 | Some st \<Rightarrow> c1\<lparr>cl_disk := so_RecordHeartbeat st (cl_disk c1) unix_ms\<rparr>)
          else c
      | None \<Rightarrow> c)"

text \<open>\<open>heartbeatLoop\<close> by itself: one heartbeat after the handshake, then one per tick until the context ends.\<close>

datatype hb_event = HbTick uint64 int64 | HbCtxDone

fun heartbeat_ticks :: "'s World \<Rightarrow> hb_event list \<Rightarrow> 's Client \<Rightarrow> 's Client" where
  "heartbeat_ticks w [] c = c"
| "heartbeat_ticks w (HbCtxDone # ts) c = c"
| "heartbeat_ticks w (HbTick now ms # ts) c = heartbeat_ticks w ts (emitHeartbeat w now ms c)"

definition heartbeatLoop :: "'s World \<Rightarrow> uint64 \<Rightarrow> int64 \<Rightarrow> hb_event list \<Rightarrow> 's Client \<Rightarrow> 's Client" where
  "heartbeatLoop w now ms ts c = heartbeat_ticks w ts (emitHeartbeat w now ms c)"

text \<open>\<open>payloadName\<close>: the type name of the payload, for log lines.\<close>

definition payloadName :: "Envelope option \<Rightarrow> string" where
  "payloadName env =
     (case Option.bind env env_Payload of
        None \<Rightarrow> ''empty''
      | Some p \<Rightarrow> ''*backupv1.Envelope_'' @
          (case p of
             PRegister m \<Rightarrow> ''Register'' | PHeartbeat m \<Rightarrow> ''Heartbeat'' | PDiscovery m \<Rightarrow> ''Discovery''
           | PJobUpdate m \<Rightarrow> ''JobUpdate'' | PBackupCompleted m \<Rightarrow> ''BackupCompleted'' | PHealthResult m \<Rightarrow> ''HealthResult''
           | PLog m \<Rightarrow> ''Log'' | PRestoreUpdate m \<Rightarrow> ''RestoreUpdate'' | PAck m \<Rightarrow> ''Ack''
           | PRegisterAck m \<Rightarrow> ''RegisterAck'' | PConfigUpdate m \<Rightarrow> ''ConfigUpdate'' | PRunBackup m \<Rightarrow> ''RunBackup''
           | PCancelJob m \<Rightarrow> ''CancelJob'' | PRunHealthCheck m \<Rightarrow> ''RunHealthCheck'' | PSelfUpdate m \<Rightarrow> ''SelfUpdate''
           | PPing m \<Rightarrow> ''Ping''))"

text \<open>The end of \<open>runOnce\<close>: the connection and its channel are dropped.\<close>

definition disconnect :: "'s Client \<Rightarrow> 's Client" where
  "disconnect c = c\<lparr>cl_out := None\<rparr>"

datatype live_event =
    EvSend uint64 "Envelope option"
  | EvFrame uint64 "frame option"
  | EvWrite uint64 bool
  | EvTick uint64 int64

fun live_step :: "'s World \<Rightarrow> live_event \<Rightarrow> 's Client \<Rightarrow> loop_err option \<times> 's Client" where
  "live_step w (EvSend now e) c = (None, snd (Client_Send w now c e))"
| "live_step w (EvFrame now fr) c = read_step w now fr c"
| "live_step w (EvWrite now b) c = write_step w now b c"
| "live_step w (EvTick now ms) c = (None, emitHeartbeat w now ms c)"

text \<open>A connection runs until a loop fails; then it is dropped.\<close>

fun live_run :: "'s World \<Rightarrow> live_event list \<Rightarrow> 's Client \<Rightarrow> 's Client" where
  "live_run w [] c = c"
| "live_run w (ev # evs) c =
     (case live_step w ev c of (None, c1) \<Rightarrow> live_run w evs c1 | (Some e, c1) \<Rightarrow> disconnect c1)"

text \<open>The heartbeats of \<open>heartbeatLoop\<close> are tick events of the connection.\<close>

lemma heartbeat_ticks_live:
  "heartbeat_ticks w (map (\<lambda>(now, ms). HbTick now ms) ts) c = live_run w (map (\<lambda>(now, ms). EvTick now ms) ts) c"
  by (induction ts arbitrary: c) auto

lemma heartbeatLoop_live:
  "heartbeatLoop w now ms (map (\<lambda>(now, ms). HbTick now ms) ts) c = live_run w (map (\<lambda>(now, ms). EvTick now ms) ((now, ms) # ts)) c"
  by (simp add: heartbeatLoop_def heartbeat_ticks_live)

section \<open>One connection, and the reconnect loop\<close>

text \<open>
  What the environment does during one iteration of \<open>Start\<close>: dialling, the handshake, the
  context during the replay, the interleaved steps of the three loops, the random number of the
  jitter. \<open>StuckInReplay\<close> is a \<open>runOnce\<close> that does not return before the agent shuts down.
\<close>

record attempt =
  at_dial_ok :: bool
  at_now :: uint64
  at_write_ok :: bool
  at_reply :: "frame option"
  at_unix_ms :: int64
  at_done :: "nat \<Rightarrow> bool"
  at_events :: "live_event list"
  at_rand :: rat

datatype run_end = NotConnected connect_err | Disconnected | StuckInReplay

definition runOnce :: "'s World \<Rightarrow> (string \<Rightarrow> url option) \<Rightarrow> attempt \<Rightarrow> 's Client \<Rightarrow> run_end \<times> 's Client" where
  "runOnce w url_parse a c =
     (case connect w url_parse (at_dial_ok a) (at_now a) (at_write_ok a) (at_reply a) (at_unix_ms a) c of
        (Some e, c1) \<Rightarrow> (NotConnected e, c1)
      | (None, c1) \<Rightarrow>
          (case replayQueue w (at_done a) c1 of
             (ReplayBlocked, c2) \<Rightarrow> (StuckInReplay, c2)
           | (_, c2) \<Rightarrow> (Disconnected, disconnect (live_run w (at_events a) c2))))"

text \<open>
  \<open>Start\<close> for the given iterations, returning the delays it sleeps. The \<open>Backoff\<close> is a local of
  \<open>Start\<close> that \<open>runOnce\<close> does not see.
\<close>

fun Start_loop ::
  "'s World \<Rightarrow> (string \<Rightarrow> url option) \<Rightarrow> Backoff \<Rightarrow> attempt list \<Rightarrow> 's Client \<Rightarrow> int list \<times> 's Client" where
  "Start_loop w url_parse bo [] c = ([], c)"
| "Start_loop w url_parse bo (a # as) c =
     (case runOnce w url_parse a c of
        (StuckInReplay, c1) \<Rightarrow> ([], c1)
      | (_, c1) \<Rightarrow>
          let (delay, bo1) = Backoff_Next bo (at_rand a);
              (ds, c2) = Start_loop w url_parse bo1 as (c1\<lparr>cl_reconnectCount := cl_reconnectCount c1 + 1\<rparr>)
          in (delay # ds, c2))"

definition Client_Start ::
  "'s World \<Rightarrow> (string \<Rightarrow> url option) \<Rightarrow> attempt list \<Rightarrow> 's Client \<Rightarrow> int list \<times> 's Client" where
  "Client_Start w url_parse as c = Start_loop w url_parse NewBackoff as c"

definition SessionID :: "'s Client \<Rightarrow> string" where
  "SessionID c = cl_sessionID c"

definition ConfigVersion :: "'s Client \<Rightarrow> uint64" where
  "ConfigVersion c = cl_configVersion c"

definition ReconnectCount :: "'s Client \<Rightarrow> uint64" where
  "ReconnectCount c = cl_reconnectCount c"

end
