(* ===== verification/Wss_Props.thy ===== *)
theory Wss_Props
  imports Wss State_Props
begin

text \<open>
  Properties of the connection: what the replay of the queue keeps and what it can lose, what is
  persisted while disconnected, the URL that is dialled, the configuration version after the
  handshake and the delays of the reconnect loop. The queue is any that fulfils \<open>job_queue\<close>.
\<close>

section \<open>The replay loop\<close>

text \<open>Whatever happens, an acknowledged job was put on the channel or could not be decoded.\<close>

lemma replay_loop_keeps:
  assumes Q: "job_queue Q ok pending"
  shows "ok (cl_disk c) \<Longrightarrow> cl_out c = Some out \<Longrightarrow> distinct (map fst js) \<Longrightarrow> set js \<subseteq> set (pending (cl_disk c)) \<Longrightarrow>
    replay_loop w Q ctx_done i js c = (res, c') \<Longrightarrow>
    ok (cl_disk c') \<and> cl_wire c' = cl_wire c
    \<and> (\<exists>new. cl_out c' = Some (out @ new)
      \<and> (\<forall>j \<in> set (pending (cl_disk c)). j \<in> set (pending (cl_disk c'))
           \<or> (j \<in> set js \<and> (case unmarshal_env (w_codec w) (snd j) of None \<Rightarrow> True | Some e \<Rightarrow> e \<in> set new))))"
proof (induction js arbitrary: i c out)
  case Nil
  then show ?case by auto
next
  case (Cons j js)
  obtain r p where j: "j = (r, p)" by fastforce
  obtain e d where ack: "Ack Q (cl_disk c) r = (e, d)" by fastforce
  from job_queue.ack [OF Q Cons.prems(1) ack] have d: "ok d"
    "pending d = (if e = None then filter (\<lambda>j. fst j \<noteq> r) (pending (cl_disk c)) else pending (cl_disk c))" by simp_all
  have others: "set js \<subseteq> set (pending d)" using Cons.prems(3,4) d(2) j by (force simp: image_iff)
  have kept: "k \<in> set (pending d) \<or> k = j" if "k \<in> set (pending (cl_disk c))" for k
  proof -
    have "j \<in> set (pending (cl_disk c))" using Cons.prems(4) by simp
    with that job_queue.ids_distinct [OF Q Cons.prems(1)] have "fst k = fst j \<Longrightarrow> k = j"
      by (simp add: distinct_map inj_on_def)
    with that d(2) j show ?thesis by auto
  qed
  show ?case
  proof (cases "unmarshal_env (w_codec w) p")
    case None
    let ?c = "c\<lparr>cl_disk := d\<rparr>"
    have "replay_loop w Q ctx_done (i + 1) js ?c = (res, c')"
      using Cons.prems(5) None ack j by simp
    from Cons.IH [OF _ _ _ _ this] d(1) others Cons.prems(2,3) obtain new where
      "ok (cl_disk c')" "cl_wire c' = cl_wire c" "cl_out c' = Some (out @ new)"
      "\<forall>k \<in> set (pending d). k \<in> set (pending (cl_disk c'))
         \<or> (k \<in> set js \<and> (case unmarshal_env (w_codec w) (snd k) of None \<Rightarrow> True | Some e \<Rightarrow> e \<in> set new))"
      by auto
    with kept None j show ?thesis by fastforce
  next
    case (Some env)
    show ?thesis
    proof (cases "ctx_done i \<or> \<not> length out < outCap")
      case True
      with Cons.prems(2,5) Some j have "c' = c" by (auto split: if_splits)
      with Cons.prems(1,2) show ?thesis by auto
    next
      case False
      let ?c = "c\<lparr>cl_out := Some (out @ [env]), cl_disk := d\<rparr>"
      have "replay_loop w Q ctx_done (i + 1) js ?c = (res, c')"
        using Cons.prems(2,5) False Some ack j by simp
      from Cons.IH [OF _ _ _ _ this] d(1) others Cons.prems(3) obtain new where
        new: "ok (cl_disk c')" "cl_wire c' = cl_wire c" "cl_out c' = Some ((out @ [env]) @ new)"
        "\<forall>k \<in> set (pending d). k \<in> set (pending (cl_disk c'))
           \<or> (k \<in> set js \<and> (case unmarshal_env (w_codec w) (snd k) of None \<Rightarrow> True | Some e \<Rightarrow> e \<in> set new))"
        by auto
      have "\<forall>k \<in> set (pending (cl_disk c)). k \<in> set (pending (cl_disk c'))
           \<or> (k \<in> set (j # js) \<and> (case unmarshal_env (w_codec w) (snd k) of None \<Rightarrow> True | Some e \<Rightarrow> e \<in> set (env # new)))"
      proof
        fix k assume "k \<in> set (pending (cl_disk c))"
        from kept [OF this] show "k \<in> set (pending (cl_disk c'))
           \<or> (k \<in> set (j # js) \<and> (case unmarshal_env (w_codec w) (snd k) of None \<Rightarrow> True | Some e \<Rightarrow> e \<in> set (env # new)))"
          using new(4) Some j by (auto split: option.splits)
      qed
      with new(1-3) show ?thesis by (intro conjI exI [of _ "env # new"]) simp_all
    qed
  qed
qed

text \<open>With working acknowledgements and no cancellation the loop moves as many jobs as fit.\<close>

lemma replay_loop_moves:
  assumes Q: "job_queue Q ok pending" and acks: "\<And>d r. ok d \<Longrightarrow> fst (Ack Q d r) = None"
  shows "ok (cl_disk c) \<Longrightarrow> cl_out c = Some out \<Longrightarrow> pending (cl_disk c) = js @ rest \<Longrightarrow>
    map (\<lambda>j. unmarshal_env (w_codec w) (snd j)) js = map Some es \<Longrightarrow> length out \<le> outCap \<Longrightarrow>
    replay_loop w Q (\<lambda>_. False) i js c =
      (if length out + length js \<le> outCap then ReplayDone else ReplayBlocked,
       snd (replay_loop w Q (\<lambda>_. False) i js c))
    \<and> cl_out (snd (replay_loop w Q (\<lambda>_. False) i js c)) = Some (out @ take (outCap - length out) es)
    \<and> pending (cl_disk (snd (replay_loop w Q (\<lambda>_. False) i js c))) = drop (outCap - length out) js @ rest
    \<and> cl_wire (snd (replay_loop w Q (\<lambda>_. False) i js c)) = cl_wire c"
proof (induction js arbitrary: i c out es)
  case Nil
  then show ?case by simp
next
  case (Cons j js)
  obtain r p where j: "j = (r, p)" by fastforce
  from Cons.prems(4) j obtain e es' where es: "es = e # es'" "unmarshal_env (w_codec w) p = Some e"
    "map (\<lambda>j. unmarshal_env (w_codec w) (snd j)) js = map Some es'" by (cases es) auto
  show ?case
  proof (cases "length out < outCap")
    case False
    with Cons.prems j es show ?thesis by simp
  next
    case True
    obtain d where ack: "Ack Q (cl_disk c) r = (None, d)" using acks [OF Cons.prems(1)] by (metis prod.collapse)
    from job_queue.ack_head [OF Q Cons.prems(1) _ ack] Cons.prems(3) j
    have d: "ok d" "pending d = js @ rest" by simp_all
    let ?c = "c\<lparr>cl_out := Some (out @ [e]), cl_disk := d\<rparr>"
    have step: "replay_loop w Q (\<lambda>_. False) i (j # js) c = replay_loop w Q (\<lambda>_. False) (i + 1) js ?c"
      using True Cons.prems(2) j es(2) ack by simp
    from True obtain n where n: "outCap - length out = Suc n" "outCap - Suc (length out) = n"
      by (metis Suc_diff_Suc)
    from Cons.IH [of ?c "out @ [e]" es' "i + 1"] d es True show ?thesis
      unfolding step using n by simp
  qed
qed

section \<open>The replay of a bolt queue\<close>

text \<open>The jobs a replay works on.\<close>

definition replayed :: "'b bolt \<Rightarrow> 'b Store \<Rightarrow> job list" where
  "replayed B d = take 100 (pending_jobs B d)"

definition decodable :: "'s World \<Rightarrow> job list \<Rightarrow> bool" where
  "decodable w js \<longleftrightarrow> (\<forall>j \<in> set js. unmarshal_env (w_codec w) (snd j) \<noteq> None)"

definition decoded :: "'s World \<Rightarrow> job list \<Rightarrow> Envelope list" where
  "decoded w js = map (\<lambda>j. the (unmarshal_env (w_codec w) (snd j))) js"

lemma decodable_decoded: "decodable w js \<Longrightarrow> map (\<lambda>j. unmarshal_env (w_codec w) (snd j)) js = map Some (decoded w js)"
  by (simp add: decodable_def decoded_def)

context bolt_laws
begin

lemma replayQueue_loop:
  assumes "queue_inv B ok (cl_disk c)" "w_queue w = Some (boltQueue B)"
  shows "replayQueue w ctx_done c = replay_loop w (boltQueue B) ctx_done 0 (replayed B (cl_disk c)) c"
proof -
  have "Pop (boltQueue B) (cl_disk c) 100 = Inr (take (nat 100) (pending_jobs B (cl_disk c)))"
    by (rule job_queue.pop [OF boltQueue_laws assms(1)])
  then show ?thesis using assms(2) by (simp add: replayQueue_def replayed_def)
qed

lemma replay_moves:
  assumes "queue_inv B ok (cl_disk c)" "st_disk (cl_disk c) = (\<lambda>_. True)" "w_queue w = Some (boltQueue B)"
    and "cl_out c = Some []" "decodable w (replayed B (cl_disk c))"
  shows "fst (replayQueue w (\<lambda>_. False) c) =
      (if length (replayed B (cl_disk c)) \<le> outCap then ReplayDone else ReplayBlocked)
    \<and> cl_out (snd (replayQueue w (\<lambda>_. False) c)) = Some (take outCap (decoded w (replayed B (cl_disk c))))
    \<and> pending_jobs B (cl_disk (snd (replayQueue w (\<lambda>_. False) c))) =
        drop outCap (replayed B (cl_disk c)) @ drop 100 (pending_jobs B (cl_disk c))
    \<and> cl_wire (snd (replayQueue w (\<lambda>_. False) c)) = cl_wire c"
proof -
  have acks: "queue_inv B ok d \<and> st_disk d = (\<lambda>_. True) \<Longrightarrow> fst (Ack (boltQueue B) d r) = None" for d r
    using ack_reliable [of d r] by (simp add: boltQueue_def)
  note moves = replay_loop_moves [OF boltQueue_reliable acks, of c "[]" "replayed B (cl_disk c)"
      "drop 100 (pending_jobs B (cl_disk c))" w "decoded w (replayed B (cl_disk c))" 0]
  have "pending_jobs B (cl_disk c) = replayed B (cl_disk c) @ drop 100 (pending_jobs B (cl_disk c))"
    by (simp add: replayed_def)
  from moves [OF _ _ _ this] assms decodable_decoded [OF assms(5)] show ?thesis
    by (auto simp: replayQueue_loop prod_eq_iff)
qed

end

section \<open>Sending while disconnected\<close>

lemma stamp_id: "cl_disk (snd (stamp now c e)) = cl_disk c \<and> cl_out (snd (stamp now c e)) = cl_out c
    \<and> cl_wire (snd (stamp now c e)) = cl_wire c"
  by (simp add: stamp_def)

lemma stamp_body [simp]:
  "env_CorrelationId (fst (stamp now c e)) = env_CorrelationId e" "env_Payload (fst (stamp now c e)) = env_Payload e"
  by (simp_all add: stamp_def)

lemma persist_env_effect:
  assumes laws: "job_queue Q ok pending" and "proto_codec (w_codec w)" "ok (cl_disk c)" "w_queue w = Some Q"
    and run: "persist_env w c e = (None, c')"
  obtains raw where "unmarshal_env (w_codec w) raw = Some e" "ok (cl_disk c')" "cl_out c' = cl_out c"
    "map_of (pending (cl_disk c')) = (map_of (pending (cl_disk c)))(queue_key e \<mapsto> raw)"
proof -
  from run assms(4) obtain raw d where raw: "marshal_env (w_codec w) e = Some raw"
    "Enqueue Q (cl_disk c) (queue_key e) raw = (None, d)" "c' = c\<lparr>cl_disk := d\<rparr>"
    by (auto simp: persist_env_def split: option.splits prod.splits)
  from job_queue.enqueue [OF laws assms(3) raw(2)] proto_codec.env_roundtrip [OF assms(2) raw(1)] raw(3)
  show thesis by (intro that [of raw]) simp_all
qed

lemma offline_send_effect:
  assumes "job_queue Q ok pending" "proto_codec (w_codec w)" "ok (cl_disk c)" "w_queue w = Some Q"
    and "cl_out c = None" "Client_Send w now c (Some e) = (None, c')"
  obtains raw where "unmarshal_env (w_codec w) raw = Some (fst (stamp now c e))" "ok (cl_disk c')" "cl_out c' = None"
    "map_of (pending (cl_disk c')) = (map_of (pending (cl_disk c)))(queue_key (fst (stamp now c e)) \<mapsto> raw)"
proof -
  obtain e1 c1 where s: "stamp now c e = (e1, c1)" by fastforce
  with stamp_id [of now c e] have c1: "cl_disk c1 = cl_disk c" "cl_out c1 = cl_out c" by simp_all
  with assms(5,6) s have run: "persist_env w c1 e1 = (None, c')" by (simp add: Client_Send_def)
  have "ok (cl_disk c1)" using assms(3) c1 by simp
  from persist_env_effect [OF assms(1,2) this assms(4) run] obtain raw where
    "unmarshal_env (w_codec w) raw = Some e1" "ok (cl_disk c')" "cl_out c' = cl_out c1"
    "map_of (pending (cl_disk c')) = (map_of (pending (cl_disk c1)))(queue_key e1 \<mapsto> raw)" .
  with c1 s assms(5) show thesis by (intro that [of raw]) simp_all
qed

section \<open>The examples of the witnesses\<close>

definition example_cfg :: WssConfig where
  "example_cfg = \<lparr>wc_ServerURL = ''https://example'', wc_AgentKey = [], wc_AgentVersion = [], wc_Hostname = ''h'', wc_OS = ''linux'',
     wc_Arch = ''amd64'', wc_DockerVersion = [], wc_Capabilities = [], wc_AllowInsecure = False\<rparr>"

definition example_world :: "codec \<Rightarrow> ref_bucket Store World" where
  "example_world P = \<lparr>w_codec = P, w_state = Some (store_ops ref_bolt), w_queue = Some (boltQueue ref_bolt), w_handlers = None,
     w_metrics = None, w_hostname = None, w_goos = ''linux'', w_goarch = ''amd64''\<rparr>"

definition example_client :: "ref_bucket Store \<Rightarrow> ref_bucket Store Client" where
  "example_client d = \<lparr>cl_cfg = example_cfg, cl_disk = d, cl_out = None, cl_seq = 0, cl_configVersion = 0, cl_sessionID = [],
     cl_reconnectCount = 0, cl_wire = [], cl_calls = []\<rparr>"

lemma example_client_simps [simp]:
  "cl_disk (example_client d) = d" "cl_out (example_client d) = None" "cl_seq (example_client d) = 0"
  "cl_configVersion (example_client d) = 0" "cl_wire (example_client d) = []" "cl_cfg (example_client d) = example_cfg"
  by (simp_all add: example_client_def)

lemma example_world_simps [simp]:
  "w_codec (example_world P) = P" "w_queue (example_world P) = Some (boltQueue ref_bolt)"
  "w_state (example_world P) = Some (store_ops ref_bolt)" "w_handlers (example_world P) = None"
  by (simp_all add: example_world_def)

text \<open>A store whose queue holds \<open>n\<close> sealed jobs.\<close>

definition full_store :: "nat \<Rightarrow> bytes \<Rightarrow> ref_bucket Store" where
  "full_store n v = example_store\<lparr>st_db := (st_db example_store)(bktQueue \<mapsto> (map (\<lambda>i. ([of_nat i], v)) [0..<n], 0))\<rparr>"

lemma full_store_queue:
  assumes "n \<le> 256" "state_open (st_aead example_store) v = Inr p"
  shows "queue_inv ref_bolt ref_ok (full_store n v)" "st_disk (full_store n v) = (\<lambda>_. True)"
    "map snd (pending_jobs ref_bolt (full_store n v)) = replicate n p"
proof -
  let ?items = "map (\<lambda>i. ([of_nat i], v)) [0..<n] :: (bytes \<times> bytes) list"
  have sorted: "key_sorted ?items"
    using assms(1) by (auto simp: key_sorted_def sorted_wrt_map comp_def word_less_nat_alt unat_of_nat
        intro!: sorted_wrt_mono_rel [OF _ sorted_wrt_upt])
  have "buckets_ok ref_ok (st_db (full_store n v))"
    using example_store_ok sorted unfolding store_ok_def full_store_def by (simp add: buckets_ok_upd)
  moreover have "bk_items ref_bolt (xs, k) = xs" for xs k by (simp add: ref_bolt_def)
  ultimately show "queue_inv ref_bolt ref_ok (full_store n v)"
    using example_store_ok assms(2) by (auto simp: queue_inv_def store_ok_def full_store_def)
  show "st_disk (full_store n v) = (\<lambda>_. True)" by (simp add: full_store_def example_store_def)
  show "map snd (pending_jobs ref_bolt (full_store n v)) = replicate n p"
    using assms(2) by (simp add: pending_jobs_def full_store_def comp_def map_replicate_const ref_bolt_def)
qed

lemma example_sealed: "\<exists>v. state_open (st_aead example_store) v = Inr p"
proof -
  have "aead_laws (st_aead example_store)" using example_store_ok by (simp add: store_ok_def)
  moreover obtain v where "state_seal (st_aead example_store) (Some 0) p = Inr v" by (simp add: state_seal_def Let_def)
  ultimately show ?thesis using aead_laws.state_open_seal by blast
qed

text \<open>A codec that reads every byte string as the same envelope.\<close>

definition const_codec :: codec where
  "const_codec = \<lparr>marshal_env = (\<lambda>_. None), unmarshal_env = (\<lambda>_. Some (NewEnvelope 1)),
     marshal_cfg = (\<lambda>_. None), unmarshal_cfg = (\<lambda>_. None)\<rparr>"

lemma const_codec_decodable [simp]: "decodable (example_world const_codec) js"
  by (simp add: decodable_def const_codec_def)

lemma length_pending_full:
  assumes "n \<le> 100" "state_open (st_aead example_store) v = Inr p"
  shows "length (replayed ref_bolt (full_store n v)) = n"
proof -
  have "length (pending_jobs ref_bolt (full_store n v)) = n"
    using full_store_queue(3) [OF _ assms(2), of n] assms(1) by (simp flip: length_map [of snd])
  with assms(1) show ?thesis by (simp add: replayed_def)
qed

section \<open>The loops of a live connection\<close>

text \<open>What \<open>stamp\<close> does not touch of a message.\<close>

definition body :: "Envelope \<Rightarrow> string \<times> payload option" where
  "body e = (env_CorrelationId e, env_Payload e)"

lemma body_stamp [simp]: "body (fst (stamp now c e)) = body e"
  by (simp add: body_def)

lemma stamp_simps [simp]:
  "cl_out (snd (stamp now c e)) = cl_out c" "cl_wire (snd (stamp now c e)) = cl_wire c"
  using stamp_id [of now c e] by simp_all

lemma call_simps [simp]: "cl_out (call cb c) = cl_out c" "cl_wire (call cb c) = cl_wire c"
  by (simp_all add: call_def)

text \<open>A step adds at the end of the channel, or moves its head to the end of the wire.\<close>

definition fifo_step :: "'s Client \<Rightarrow> 's Client \<Rightarrow> bool" where
  "fifo_step c c' \<longleftrightarrow> (\<forall>out. cl_out c = Some out \<and> length out \<le> outCap \<longrightarrow>
     (\<exists>out' new. cl_out c' = Some out' \<and> length out' \<le> outCap
        \<and> map body (cl_wire c' @ out') = map body (cl_wire c @ out) @ new))"

lemma fifo_step_same: "cl_out c' = cl_out c \<Longrightarrow> cl_wire c' = cl_wire c \<Longrightarrow> fifo_step c c'"
  by (simp add: fifo_step_def)

lemma fifo_step_trans: "fifo_step a b \<Longrightarrow> fifo_step b c \<Longrightarrow> fifo_step a c"
  unfolding fifo_step_def by fastforce

lemma fifo_persist: "fifo_step c (snd (persist_env w c e))"
  by (rule fifo_step_same) (auto simp: persist_env_def split: option.splits prod.splits)

lemma fifo_Send: "fifo_step c (snd (Client_Send w now c e))"
proof (cases e)
  case (Some e0)
  obtain e1 c1 where s: "stamp now c e0 = (e1, c1)" by fastforce
  with stamp_simps [of now c e0] have c1: "cl_out c1 = cl_out c" "cl_wire c1 = cl_wire c" by simp_all
  then have "fifo_step c c1" by (rule fifo_step_same)
  from fifo_step_trans [OF this fifo_persist] c1 show ?thesis
    by (auto simp: Client_Send_def Some s split: option.splits) (simp add: fifo_step_def)
qed (simp add: Client_Send_def fifo_step_same)

lemma fifo_dispatch: "fifo_step c (snd (dispatch w now env c))"
proof -
  have same: "fifo_step c (snd (cb_err b cb c'))" if "cl_out c' = cl_out c" "cl_wire c' = cl_wire c" for b cb c'
    using that by (intro fifo_step_same) (simp_all add: cb_err_def)
  have nop: "fifo_step c c" by (simp add: fifo_step_same)
  show ?thesis
  proof (cases "env_Payload env")
    case None
    then show ?thesis by (simp add: dispatch_def nop)
  next
    case (Some p)
    show ?thesis
    proof (cases p)
      case (PPing m)
      show ?thesis using fifo_Send unfolding dispatch_def Some PPing option.case payload.case
        by (simp only: prod.case_distrib [of snd] snd_conv) (simp add: case_prod_beta' fifo_Send)
    next
      case (PConfigUpdate m)
      show ?thesis unfolding dispatch_def Some PConfigUpdate option.case payload.case Let_def
        by (auto simp: cb_err_def split: option.split intro!: fifo_step_same)
    qed (auto simp: dispatch_def Some intro!: same nop split: option.split)
  qed
qed

lemma fifo_live_step:
  assumes total: "\<And>e. marshal_env (w_codec w) e \<noteq> None" and "live_step w ev c = (None, c')"
  shows "fifo_step c c'"
proof (cases ev)
  case (EvSend now e)
  with assms(2) fifo_Send [of c w now e] show ?thesis by simp
next
  case (EvFrame now fr)
  with assms(2) fifo_dispatch [of c w now] fifo_step_same [of c c] show ?thesis
    by (auto simp: read_step_def split: option.splits if_splits prod.splits)
next
  case (EvTick now ms)
  with assms(2) have "c' = emitHeartbeat w now ms c" by simp
  then show ?thesis by (auto simp: emitHeartbeat_def fifo_step_def Let_def split: option.splits)
next
  case (EvWrite now b)
  show ?thesis
  proof (cases "cl_out c")
    case (Some out)
    show ?thesis
    proof (cases out)
      case Nil
      with assms(2) EvWrite Some show ?thesis by (auto simp: write_step_def fifo_step_same)
    next
      case (Cons e0 out')
      obtain e c1 where s: "stamp now (c\<lparr>cl_out := Some out'\<rparr>) e0 = (e, c1)" by fastforce
      with stamp_simps [of now "c\<lparr>cl_out := Some out'\<rparr>" e0] body_stamp [of now "c\<lparr>cl_out := Some out'\<rparr>" e0]
      have "cl_out c1 = Some out'" "cl_wire c1 = cl_wire c" "body e = body e0" by simp_all
      with total [of e] assms(2) EvWrite Some Cons s show ?thesis
        by (auto simp: write_step_def fifo_step_def split: if_splits)
    qed
  qed (use assms(2) EvWrite in \<open>auto simp: write_step_def fifo_step_same\<close>)
qed

lemma live_run_cases:
  "(\<And>e. marshal_env (w_codec w) e \<noteq> None) \<Longrightarrow> fifo_step c (live_run w evs c) \<or> cl_out (live_run w evs c) = None"
proof (induction evs arbitrary: c)
  case (Cons ev evs)
  obtain r c1 where s: "live_step w ev c = (r, c1)" by fastforce
  show ?case
  proof (cases r)
    case None
    with s have "live_run w (ev # evs) c = live_run w evs c1" by simp
    moreover have "fifo_step c c1" using s None by (intro fifo_live_step [OF Cons.prems]) simp
    ultimately show ?thesis using Cons.IH [OF Cons.prems, of c1] fifo_step_trans by metis
  qed (use s in \<open>simp add: disconnect_def\<close>)
qed (simp add: fifo_step_same)

section \<open>The reconnect loop\<close>

lemma Start_loop_delays:
  "\<exists>n \<le> length as. fst (Start_loop w url_parse bo as c) = fst (backoff_delays bo (map at_rand (take n as)))"
proof (induction as arbitrary: bo c)
  case (Cons a as)
  obtain e c1 where r: "runOnce w url_parse a c = (e, c1)" by fastforce
  obtain d bo1 where b: "Backoff_Next bo (at_rand a) = (d, bo1)" by fastforce
  from Cons.IH [of bo1 "c1\<lparr>cl_reconnectCount := cl_reconnectCount c1 + 1\<rparr>"] obtain n where
    n: "n \<le> length as" "fst (Start_loop w url_parse bo1 as (c1\<lparr>cl_reconnectCount := cl_reconnectCount c1 + 1\<rparr>))
      = fst (backoff_delays bo1 (map at_rand (take n as)))" by blast
  show ?case
  proof (cases "e = StuckInReplay")
    case True
    with r show ?thesis by (intro exI [of _ 0]) simp
  next
    case False
    with n r b show ?thesis
      by (intro exI [of _ "Suc n"]) (cases e; simp add: case_prod_beta' Let_def)
  qed
qed simp

section \<open>A replay after an offline send\<close>

context bolt_laws
begin

lemma replay_after_enqueue:
  assumes inv: "queue_inv B ok d" "queue_inv B ok d'" and disk: "st_disk d' = (\<lambda>_. True)"
    and w: "w_queue w = Some (boltQueue B)"
    and upd: "map_of (pending_jobs B d') = (map_of (pending_jobs B d))(k \<mapsto> raw)"
    and dec: "decodable w (pending_jobs B d)" "unmarshal_env (w_codec w) raw = Some e"
    and len: "length (pending_jobs B d) < 64" and c: "cl_disk c = d'" "cl_out c = Some []"
  obtains c2 out where "replayQueue w (\<lambda>_. False) c = (ReplayDone, c2)" "pending_jobs B (cl_disk c2) = []"
    "cl_out c2 = Some out" "e \<in> set out"
    "\<And>j. j \<in> set (pending_jobs B d) \<Longrightarrow> fst j \<noteq> k \<Longrightarrow> the (unmarshal_env (w_codec w) (snd j)) \<in> set out"
proof -
  note ids = job_queue.ids_distinct [OF boltQueue_laws]
  have size: "length (pending_jobs B x) = card (dom (map_of (pending_jobs B x)))" if "queue_inv B ok x" for x
    using ids [OF that] by (simp add: dom_map_of_conv_image_fst distinct_card flip: set_map)
  have "card (dom (map_of (pending_jobs B d'))) \<le> Suc (card (dom (map_of (pending_jobs B d))))"
    unfolding upd by (simp add: card_insert_le_m1 card_insert_if finite_dom_map_of)
  with len size [OF inv(1)] size [OF inv(2)] have len': "length (pending_jobs B d') \<le> 64" by simp
  have jobs: "j \<in> set (pending_jobs B d') \<longleftrightarrow> j = (k, raw) \<or> (fst j \<noteq> k \<and> j \<in> set (pending_jobs B d))" for j
  proof -
    have "j \<in> set (pending_jobs B d') \<longleftrightarrow> map_of (pending_jobs B d') (fst j) = Some (snd j)"
      "j \<in> set (pending_jobs B d) \<longleftrightarrow> map_of (pending_jobs B d) (fst j) = Some (snd j)"
      using map_of_eq_Some_iff [OF ids [OF inv(2)], of "fst j" "snd j"]
        map_of_eq_Some_iff [OF ids [OF inv(1)], of "fst j" "snd j"] by simp_all
    then show ?thesis unfolding upd by (cases j) auto
  qed
  have dec': "decodable w (pending_jobs B d')"
    using dec jobs by (auto simp: decodable_def)
  have r: "replayed B d' = pending_jobs B d'" using len' by (simp add: replayed_def)
  have "cl_disk c = d'" "decodable w (replayed B d')" using c dec' r by simp_all
  with replay_moves [of c w] inv(2) disk w c(2) r len'
  have moved: "fst (replayQueue w (\<lambda>_. False) c) = ReplayDone"
    "cl_out (snd (replayQueue w (\<lambda>_. False) c)) = Some (decoded w (pending_jobs B d'))"
    "pending_jobs B (cl_disk (snd (replayQueue w (\<lambda>_. False) c))) = []"
    by (simp_all add: outCap_def decoded_def)
  have "(k, raw) \<in> set (pending_jobs B d')" using jobs by simp
  then have "e \<in> set (decoded w (pending_jobs B d'))" using dec(2) by (force simp: decoded_def)
  moreover have "the (unmarshal_env (w_codec w) (snd j)) \<in> set (decoded w (pending_jobs B d'))"
    if "j \<in> set (pending_jobs B d)" "fst j \<noteq> k" for j
    using that jobs [of j] by (auto simp: decoded_def)
  ultimately show thesis using moved by (intro that [of "snd (replayQueue w (\<lambda>_. False) c)"]) (simp_all add: prod_eq_iff)
qed

end

lemma Send_disk:
  assumes "bolt_laws B ok" "queue_inv B ok (cl_disk c)" "w_queue w = Some (boltQueue B)" "cl_out c = None"
  shows "st_disk (cl_disk (snd (Client_Send w now c (Some e)))) = st_disk (cl_disk c)"
proof -
  obtain e1 c1 where s: "stamp now c e = (e1, c1)" by fastforce
  with stamp_id [of now c e] have c1: "cl_disk c1 = cl_disk c" "cl_out c1 = cl_out c" by simp_all
  with s assms(3,4) bolt_laws.queue_disk(1) [OF assms(1,2)] show ?thesis
    by (auto simp: Client_Send_def persist_env_def boltQueue_def split: option.splits prod.splits) (metis snd_conv)
qed

text \<open>A store over the reference bucket on which writes succeed.\<close>

definition healthy :: "ref_bucket Store \<Rightarrow> bool" where
  "healthy s \<longleftrightarrow> queue_inv ref_bolt ref_ok s \<and> st_disk s = (\<lambda>_. True) \<and> st_rand s = (\<lambda>i. Some (of_nat i))"

lemma healthy_example [simp]: "healthy example_store"
  by (simp add: healthy_def) (simp add: example_store_def)

lemma healthy_works: "healthy s \<Longrightarrow> store_ok ref_ok s \<and> works s"
  by (simp add: healthy_def works_def queue_inv_def)

lemma FormatUint_1 [simp]: "FormatUint (Suc 0) = ''1''"
  by (simp add: FormatUint.simps digit_char_def char_of_def bit_0)

definition sent_client :: "ref_bucket Store \<Rightarrow> ref_bucket Store Client" where
  "sent_client d = snd (Client_Send (example_world ref_codec) 3 (NewClient (example_world ref_codec) example_cfg d) (Some (NewEnvelope 5)))"

lemma example_send:
  assumes "healthy d"
  shows "Client_Send (example_world ref_codec) 3 (NewClient (example_world ref_codec) example_cfg d) (Some (NewEnvelope 5))
      = (None, sent_client d) \<and> healthy (cl_disk (sent_client d))"
proof -
  let ?w = "example_world ref_codec" and ?c = "NewClient (example_world ref_codec) example_cfg d"
  let ?e = "(NewEnvelope 5)\<lparr>env_Seq := 1\<rparr>"
  obtain raw where raw: "marshal_env ref_codec ?e = Some raw" "length raw \<le> 1000"
    by (simp add: ref_codec_def ref_payload_def NewEnvelope_def)
  have c: "cl_out ?c = None" "cl_disk ?c = d" "cl_seq ?c = 0"
    by (simp_all add: NewClient_def Let_def)
  have key: "queue_key ?e = ''seq-1''"
    by (simp add: queue_key_def NewEnvelope_def)
  have "fst (EnqueueJob ref_bolt d ''seq-1'' raw) = Inr ()"
    using healthy_works [OF assms] raw(2) by (intro ref_bolt.EnqueueJob_works) simp_all
  then obtain d1 where d1: "EnqueueJob ref_bolt d ''seq-1'' raw = (Inr (), d1)" by (metis prod.collapse)
  then have q: "boltQueue_Enqueue ref_bolt d ''seq-1'' raw = (None, d1)" by (simp add: boltQueue_Enqueue_def err_of_def)
  have st: "stamp 3 ?c (NewEnvelope 5) = (?e, ?c\<lparr>cl_seq := 1\<rparr>)"
    using c(3) by (simp add: stamp_def NewEnvelope_def)
  have run: "Client_Send ?w 3 ?c (Some (NewEnvelope 5)) = (None, ?c\<lparr>cl_seq := 1, cl_disk := d1\<rparr>)"
    using c raw(1) key q by (simp add: Client_Send_def st persist_env_def boltQueue_def)
  have ok: "queue_inv ref_bolt ref_ok d" using assms by (simp add: healthy_def)
  have "queue_inv ref_bolt ref_ok d1" using ref_bolt.queue_enqueue [OF ok q] by simp
  moreover have "st_disk d1 = st_disk d" using ref_bolt.queue_disk(1) [OF ok, of "''seq-1''" raw] q by simp
  moreover have "st_rand d1 = st_rand d"
    using ref_bolt.EnqueueJob_changes [of d "''seq-1''" raw] ok d1
    by (simp add: queue_inv_def store_ok_def changes_bucket_def)
  ultimately have "healthy d1" using assms by (simp add: healthy_def)
  with run show ?thesis by (simp add: sent_client_def)
qed

section \<open>Properties\<close>

text \<open>C24: Replaying the queue never loses a job that the disk failed to acknowledge or that was not yet
  reached: whatever writes fail and whenever the context is cancelled, every job pending before is
  still pending, or was put on the channel of the connection, or could not be decoded.\<close>

theorem replay_keeps_jobs:
  assumes "bolt_laws B ok" "queue_inv B ok (cl_disk c)" "w_queue w = Some (boltQueue B)" "cl_out c = Some out"
    and "replayQueue w ctx_done c = (res, c')"
  shows "\<exists>new. cl_out c' = Some (out @ new)
    \<and> (\<forall>j \<in> set (pending_jobs B (cl_disk c)). j \<in> set (pending_jobs B (cl_disk c'))
         \<or> (case unmarshal_env (w_codec w) (snd j) of None \<Rightarrow> True | Some e \<Rightarrow> e \<in> set new))"
proof -
  have laws: "job_queue (boltQueue B) (queue_inv B ok) (pending_jobs B)" by (rule bolt_laws.boltQueue_laws [OF assms(1)])
  have "replay_loop w (boltQueue B) ctx_done 0 (replayed B (cl_disk c)) c = (res, c')"
    using bolt_laws.replayQueue_loop [OF assms(1-3)] assms(5) by simp
  from replay_loop_keeps [OF laws assms(2,4) _ _ this] job_queue.ids_distinct [OF laws assms(2)]
  show ?thesis by (fastforce simp: replayed_def take_map [symmetric] dest: in_set_takeD intro: distinct_take)
qed

theorem replay_keeps_jobs_witness:
  "\<exists>v c' new. pending_jobs ref_bolt (full_store 3 v) \<noteq> []
    \<and> replayQueue (example_world const_codec) (\<lambda>i. i = 1) ((example_client (full_store 3 v))\<lparr>cl_out := Some []\<rparr>) = (ReplayCancelled, c')
    \<and> cl_out c' = Some ([] @ new)"
proof -
  obtain v :: bytes where v: "state_open (st_aead example_store) v = Inr [1]" using example_sealed by blast
  define c where "c = (example_client (full_store 3 v))\<lparr>cl_out := Some []\<rparr>"
  have inv: "queue_inv ref_bolt ref_ok (cl_disk c)" using full_store_queue(1) [OF _ v, of 3] by (simp add: c_def)
  obtain j1 j2 j3 where js: "replayed ref_bolt (full_store 3 v) = [j1, j2, j3]"
    using length_pending_full [OF _ v, of 3] by (auto simp: eval_nat_numeral length_Suc_conv)
  have "fst (replayQueue (example_world const_codec) (\<lambda>i. i = 1) c) = ReplayCancelled"
    using ref_bolt.replayQueue_loop [OF inv, of "example_world const_codec"] js
    by (cases j1; cases j2) (simp add: c_def const_codec_def outCap_def)
  then obtain c' where r: "replayQueue (example_world const_codec) (\<lambda>i. i = 1) c = (ReplayCancelled, c')"
    by (metis prod.collapse)
  have "pending_jobs ref_bolt (full_store 3 v) \<noteq> []" using js by (auto simp: replayed_def)
  with replay_keeps_jobs [OF ref_bolt.bolt_laws_axioms inv _ _ r, of "[]"] r show ?thesis by (auto simp: c_def)
qed

text \<open>With a working disk and at most 64 pending jobs the replay completes: it returns, every
  pending job is on the channel, in the order of the keys, and the queue is empty.\<close>

theorem replay_completes:
  assumes "bolt_laws B ok" "queue_inv B ok (cl_disk c)" "st_disk (cl_disk c) = (\<lambda>_. True)"
    and "w_queue w = Some (boltQueue B)" "cl_out c = Some []"
    and "decodable w (pending_jobs B (cl_disk c))" "length (pending_jobs B (cl_disk c)) \<le> 64"
  shows "\<exists>c'. replayQueue w (\<lambda>_. False) c = (ReplayDone, c') \<and> pending_jobs B (cl_disk c') = []
    \<and> cl_out c' = Some (decoded w (pending_jobs B (cl_disk c)))"
proof -
  have r: "replayed B (cl_disk c) = pending_jobs B (cl_disk c)" using assms(7) by (simp add: replayed_def)
  from bolt_laws.replay_moves [OF assms(1-5)] assms(6,7) show ?thesis
    by (cases "replayQueue w (\<lambda>_. False) c") (simp add: r outCap_def decoded_def)
qed

theorem replay_completes_witness:
  "\<exists>v c'. length (pending_jobs ref_bolt (full_store 64 v)) = 64
    \<and> replayQueue (example_world const_codec) (\<lambda>_. False) ((example_client (full_store 64 v))\<lparr>cl_out := Some []\<rparr>) = (ReplayDone, c')
    \<and> pending_jobs ref_bolt (cl_disk c') = []"
proof -
  obtain v :: bytes where v: "state_open (st_aead example_store) v = Inr [1]" using example_sealed by blast
  define c where "c = (example_client (full_store 64 v))\<lparr>cl_out := Some []\<rparr>"
  have "length (pending_jobs ref_bolt (full_store 64 v)) = 64"
    using full_store_queue(3) [OF _ v, of 64] by (simp flip: length_map [of snd])
  moreover have "\<exists>c'. replayQueue (example_world const_codec) (\<lambda>_. False) c = (ReplayDone, c')
      \<and> pending_jobs ref_bolt (cl_disk c') = []
      \<and> cl_out c' = Some (decoded (example_world const_codec) (pending_jobs ref_bolt (cl_disk c)))"
    using full_store_queue(1,2) [OF _ v, of 64] calculation
    by (intro replay_completes [OF ref_bolt.bolt_laws_axioms]) (simp_all add: c_def)
  ultimately show ?thesis unfolding c_def by blast
qed

text \<open>C25: With more than 64 pending jobs the connection never becomes live: \<open>replayQueue\<close> runs before
  the loop that drains the channel is started, so after 64 jobs it waits on a full channel until
  the agent is stopped. Those 64 jobs are already acknowledged; nothing was written to the
  connection, and once the channel is dropped they are neither on disk nor sent.\<close>

theorem replay_blocks_and_loses:
  assumes "bolt_laws B ok" "queue_inv B ok (cl_disk c)" "st_disk (cl_disk c) = (\<lambda>_. True)"
    and "w_queue w = Some (boltQueue B)" "cl_out c = Some []"
    and "decodable w (pending_jobs B (cl_disk c))" "64 < length (pending_jobs B (cl_disk c))"
  shows "\<exists>c'. replayQueue w (\<lambda>_. False) c = (ReplayBlocked, c')
    \<and> pending_jobs B (cl_disk (disconnect c')) = drop 64 (pending_jobs B (cl_disk c))
    \<and> cl_wire (disconnect c') = cl_wire c \<and> cl_out (disconnect c') = None"
proof -
  have "decodable w (replayed B (cl_disk c))" using assms(6) by (auto simp: decodable_def replayed_def dest: in_set_takeD)
  from bolt_laws.replay_moves [OF assms(1-5) this] have moved:
    "fst (replayQueue w (\<lambda>_. False) c) = ReplayBlocked" "cl_wire (snd (replayQueue w (\<lambda>_. False) c)) = cl_wire c"
    "pending_jobs B (cl_disk (snd (replayQueue w (\<lambda>_. False) c)))
      = drop 64 (take 100 (pending_jobs B (cl_disk c))) @ drop 100 (pending_jobs B (cl_disk c))"
    using assms(7) by (simp_all add: replayed_def outCap_def)
  have "drop 64 (take 100 xs) @ drop 100 xs = drop 64 xs" for xs :: "job list"
    using append_take_drop_id [of 36 "drop 64 xs"] by (simp add: drop_take)
  with moved show ?thesis by (cases "replayQueue w (\<lambda>_. False) c") (simp add: disconnect_def)
qed

theorem replay_blocks_and_loses_witness:
  "\<exists>v c'. replayQueue (example_world const_codec) (\<lambda>_. False) ((example_client (full_store 65 v))\<lparr>cl_out := Some []\<rparr>) = (ReplayBlocked, c')
    \<and> length (pending_jobs ref_bolt (full_store 65 v)) = 65
    \<and> length (pending_jobs ref_bolt (cl_disk (disconnect c'))) = 1 \<and> cl_wire (disconnect c') = []"
proof -
  obtain v :: bytes where v: "state_open (st_aead example_store) v = Inr [1]" using example_sealed by blast
  define c where "c = (example_client (full_store 65 v))\<lparr>cl_out := Some []\<rparr>"
  have len: "length (pending_jobs ref_bolt (full_store 65 v)) = 65"
    using full_store_queue(3) [OF _ v, of 65] by (simp flip: length_map [of snd])
  have "\<exists>c'. replayQueue (example_world const_codec) (\<lambda>_. False) c = (ReplayBlocked, c')
      \<and> pending_jobs ref_bolt (cl_disk (disconnect c')) = drop 64 (pending_jobs ref_bolt (cl_disk c))
      \<and> cl_wire (disconnect c') = cl_wire c \<and> cl_out (disconnect c') = None"
    using full_store_queue(1,2) [OF _ v, of 65] len
    by (intro replay_blocks_and_loses [OF ref_bolt.bolt_laws_axioms]) (simp_all add: c_def)
  then obtain c' where "replayQueue (example_world const_codec) (\<lambda>_. False) c = (ReplayBlocked, c')"
    "pending_jobs ref_bolt (cl_disk (disconnect c')) = drop 64 (pending_jobs ref_bolt (cl_disk c))"
    "cl_wire (disconnect c') = cl_wire c" by blast
  with len show ?thesis unfolding c_def by (intro exI [of _ v] exI [of _ c']) simp
qed

text \<open>C23: A message accepted while disconnected reaches the next connection: when \<open>Send\<close> returns no error
  with no connection, then after the next replay (with fewer than 64 jobs pending before and a
  working disk) the stamped message is on the channel, together with every earlier pending message
  of another key, and the queue is empty.\<close>

theorem offline_send_delivered:
  assumes "bolt_laws B ok" "proto_codec (w_codec w)" "w_queue w = Some (boltQueue B)"
    and "queue_inv B ok (cl_disk c)" "st_disk (cl_disk c) = (\<lambda>_. True)" "cl_out c = None"
    and "decodable w (pending_jobs B (cl_disk c))" "length (pending_jobs B (cl_disk c)) < 64"
    and "Client_Send w now c (Some e) = (None, c1)"
  shows "\<exists>c2 out. replayQueue w (\<lambda>_. False) (c1\<lparr>cl_out := Some []\<rparr>) = (ReplayDone, c2)
    \<and> pending_jobs B (cl_disk c2) = [] \<and> cl_out c2 = Some out \<and> fst (stamp now c e) \<in> set out
    \<and> (\<forall>j \<in> set (pending_jobs B (cl_disk c)). fst j \<noteq> queue_key (fst (stamp now c e)) \<longrightarrow>
         the (unmarshal_env (w_codec w) (snd j)) \<in> set out)"
proof -
  note laws = bolt_laws.boltQueue_laws [OF assms(1)]
  obtain raw where raw: "unmarshal_env (w_codec w) raw = Some (fst (stamp now c e))" "queue_inv B ok (cl_disk c1)"
    "map_of (pending_jobs B (cl_disk c1)) = (map_of (pending_jobs B (cl_disk c)))(queue_key (fst (stamp now c e)) \<mapsto> raw)"
    by (rule offline_send_effect [OF laws assms(2,4,3,6,9)])
  have "st_disk (cl_disk c1) = (\<lambda>_. True)" using Send_disk [OF assms(1,4,3,6), of now e] assms(5,9) by simp
  then obtain c2 out where
    "replayQueue w (\<lambda>_. False) (c1\<lparr>cl_out := Some []\<rparr>) = (ReplayDone, c2)" "pending_jobs B (cl_disk c2) = []"
    "cl_out c2 = Some out" "fst (stamp now c e) \<in> set out"
    "\<And>j. j \<in> set (pending_jobs B (cl_disk c)) \<Longrightarrow> fst j \<noteq> queue_key (fst (stamp now c e)) \<Longrightarrow>
       the (unmarshal_env (w_codec w) (snd j)) \<in> set out"
    by (rule bolt_laws.replay_after_enqueue [OF assms(1,4) raw(2) _ assms(3) raw(3) assms(7) raw(1) assms(8),
          of "c1\<lparr>cl_out := Some []\<rparr>"]) simp_all
  then show ?thesis by blast
qed

theorem offline_send_delivered_witness:
  "\<exists>c2. replayQueue (example_world ref_codec) (\<lambda>_. False) ((sent_client example_store)\<lparr>cl_out := Some []\<rparr>) = (ReplayDone, c2)
    \<and> pending_jobs ref_bolt (cl_disk c2) = []"
proof -
  let ?c = "NewClient (example_world ref_codec) example_cfg example_store"
  have c: "cl_out ?c = None" "cl_disk ?c = example_store" by (simp_all add: NewClient_def Let_def)
  have empty: "pending_jobs ref_bolt example_store = []" by (simp add: pending_jobs_def) (simp add: ref_bolt_def)
  have send: "Client_Send (example_world ref_codec) 3 ?c (Some (NewEnvelope 5)) = (None, sent_client example_store)"
    using example_send by simp
  have disk: "st_disk example_store = (\<lambda>_. True)" by (simp add: example_store_def)
  show ?thesis
    using offline_send_delivered [OF ref_bolt.bolt_laws_axioms _ _ _ _ c(1) _ _ send]
    by (fastforce simp: c(2) empty disk decodable_def ref_codec.proto_codec_axioms)
qed

text \<open>Messages without a correlation id overwrite each other across restarts: the sequence counter
  starts at zero in every process, so the first message a fresh agent persists is always stored
  under \<open>seq-1\<close>, and the message an earlier process left there is gone.\<close>

theorem restarted_agent_overwrites:
  assumes "bolt_laws B ok" "proto_codec (w_codec w)" "w_queue w = Some (boltQueue B)" "queue_inv B ok d"
    and "Client_Send w t1 (NewClient w cfg d) (Some e1) = (None, c1)"
    and "Client_Send w t2 (NewClient w cfg (cl_disk c1)) (Some e2) = (None, c2)"
    and "env_Seq e1 = 0" "env_CorrelationId e1 = []" "env_Seq e2 = 0" "env_CorrelationId e2 = []"
  shows "\<exists>raw e. map_of (pending_jobs B (cl_disk c2)) = (map_of (pending_jobs B d))(''seq-1'' \<mapsto> raw)
    \<and> unmarshal_env (w_codec w) raw = Some e \<and> body e = body e2"
proof -
  note laws = bolt_laws.boltQueue_laws [OF assms(1)]
  have new: "cl_out (NewClient w cfg x) = None" "cl_disk (NewClient w cfg x) = x" "cl_seq (NewClient w cfg x) = 0" for x
    by (simp_all add: NewClient_def Let_def)
  have key: "queue_key (fst (stamp t (NewClient w cfg x) e)) = ''seq-1''"
    if "env_Seq e = 0" "env_CorrelationId e = []" for t x e
    using that by (simp add: queue_key_def stamp_def new Let_def)
  have ok: "queue_inv B ok (cl_disk (NewClient w cfg d))" using assms(4) new by simp
  obtain raw1 where r1: "queue_inv B ok (cl_disk c1)"
    "map_of (pending_jobs B (cl_disk c1)) = (map_of (pending_jobs B d))(''seq-1'' \<mapsto> raw1)"
    by (rule offline_send_effect [OF laws assms(2) ok assms(3) new(1) assms(5)]) (use key [OF assms(7,8)] new in auto)
  have ok1: "queue_inv B ok (cl_disk (NewClient w cfg (cl_disk c1)))" using r1 new by simp
  obtain raw2 where "unmarshal_env (w_codec w) raw2 = Some (fst (stamp t2 (NewClient w cfg (cl_disk c1)) e2))"
    "map_of (pending_jobs B (cl_disk c2)) = (map_of (pending_jobs B (cl_disk c1)))(''seq-1'' \<mapsto> raw2)"
    by (rule offline_send_effect [OF laws assms(2) ok1 assms(3) new(1) assms(6)]) (use key [OF assms(9,10)] new in auto)
  with r1(2) show ?thesis by (metis body_stamp fun_upd_upd)
qed

theorem restarted_agent_overwrites_witness:
  "map_of (pending_jobs ref_bolt (cl_disk (sent_client (cl_disk (sent_client example_store))))) ''seq-1'' \<noteq> None
    \<and> length (pending_jobs ref_bolt example_store) = 0"
proof -
  have "healthy (cl_disk (sent_client example_store))" using example_send by simp
  then have s2: "Client_Send (example_world ref_codec) 3 (NewClient (example_world ref_codec) example_cfg
      (cl_disk (sent_client example_store))) (Some (NewEnvelope 5)) = (None, sent_client (cl_disk (sent_client example_store)))"
    using example_send by blast
  have s1: "Client_Send (example_world ref_codec) 3 (NewClient (example_world ref_codec) example_cfg example_store)
      (Some (NewEnvelope 5)) = (None, sent_client example_store)" using example_send by simp
  have e: "env_Seq (NewEnvelope 5) = 0" "env_CorrelationId (NewEnvelope 5) = []" by (simp_all add: NewEnvelope_def)
  have codec: "proto_codec (w_codec (example_world ref_codec))" by (simp add: ref_codec.proto_codec_axioms)
  have "pending_jobs ref_bolt example_store = []" by (simp add: pending_jobs_def) (simp add: ref_bolt_def)
  with restarted_agent_overwrites [OF ref_bolt.bolt_laws_axioms codec _ example_queue_inv s1 s2 e e] show ?thesis by auto
qed

text \<open>The connection to the server is encrypted unless plain text was asked for: the URL that is dialled
  has the scheme \<open>wss\<close>, or \<open>ws\<close> if the configured URL was \<open>ws\<close> already (whatever
  \<open>AllowInsecure\<close> says) or was \<open>http\<close> with \<open>AllowInsecure\<close>; its host is the configured one and its
  path ends with the endpoint.\<close>

theorem dialled_url:
  assumes "buildWSURL url_parse raw allowInsecure = Inr u"
  shows "\<exists>u0. url_parse raw = Some u0 \<and> u_Host u = u_Host u0 \<and> HasSuffix (u_Path u) endpoint
    \<and> (u_Scheme u = ''wss'' \<or>
       u_Scheme u = ''ws'' \<and> (u_Scheme u0 = ''ws'' \<or> u_Scheme u0 = ''http'' \<and> allowInsecure))"
proof -
  have "HasSuffix (xs @ endpoint) endpoint" for xs by (simp add: HasSuffix_def)
  with assms show ?thesis
    by (auto simp: buildWSURL_def split: option.splits if_splits)
qed

theorem dialled_url_witness:
  "buildWSURL (\<lambda>_. Some \<lparr>u_Scheme = ''ws'', u_Host = ''h'', u_Path = [], u_rest = []\<rparr>) [] False
     = Inr \<lparr>u_Scheme = ''ws'', u_Host = ''h'', u_Path = endpoint, u_rest = []\<rparr>
   \<and> HasSuffix (u_Path \<lparr>u_Scheme = ''ws'', u_Host = ''h'', u_Path = endpoint, u_rest = []\<rparr>) endpoint"
proof -
  have r: "buildWSURL (\<lambda>_. Some \<lparr>u_Scheme = ''ws'', u_Host = ''h'', u_Path = [], u_rest = []\<rparr>) [] False
     = Inr \<lparr>u_Scheme = ''ws'', u_Host = ''h'', u_Path = endpoint, u_rest = []\<rparr>"
    by (simp add: buildWSURL_def HasSuffix_def endpoint_def TrimRight_def)
  from dialled_url [OF r] r show ?thesis by auto
qed

text \<open>A configuration older than the one in memory splits the agent's view of it: on such an
  acknowledgement the version in memory (reported in heartbeats) stays, while the older
  configuration is what is saved and handed to \<open>OnConfigUpdate\<close>, and a restarted agent reports the
  older version.\<close>

theorem stale_ack_splits_version:
  assumes "bolt_laws B ok" "store_ok ok (cl_disk c)" "w_state w = Some (store_ops B)"
    and "ra_Config a = Some cfg" "ac_Version cfg < cl_configVersion c" "marshal_cfg (w_codec w) cfg = Some raw"
    and "w_handlers w = Some h" "h_OnConfigUpdate h \<noteq> None"
    and "SaveConfig B (snd (SaveSession B (cl_disk c) (ra_SessionId a) t)) (ac_Version cfg) raw = (Inr (), d)"
  shows "cl_configVersion (apply_ack w t a c) = cl_configVersion c
    \<and> last (cl_calls (apply_ack w t a c)) = CbConfigUpdate (Some \<lparr>cu_Config = Some cfg\<rparr>)
    \<and> cl_configVersion (NewClient w wcfg (cl_disk (apply_ack w t a c))) = ac_Version cfg"
proof -
  have "store_ok ok (snd (SaveSession B (cl_disk c) (ra_SessionId a) t))"
    using bolt_laws.step_ok_step [OF assms(1,2), of "OpSaveSession (ra_SessionId a) t"]
    by (cases "SaveSession B (cl_disk c) (ra_SessionId a) t") (auto simp: step_ok_def)
  from bolt_laws.config_saved [OF assms(1) this assms(9)]
  have "LoadConfig B d = Inr (ac_Version cfg, raw)" by simp
  moreover have "\<not> cl_configVersion c < ac_Version cfg" using assms(5) by simp
  ultimately show ?thesis
    using assms(3-) by (simp add: apply_ack_def Let_def store_ops_def call_def NewClient_def)
qed

theorem stale_ack_splits_version_witness:
  "\<exists>w c. cl_configVersion c = 9
    \<and> cl_configVersion (apply_ack w 1 \<lparr>ra_SessionId = ''s'', ra_Config = Some \<lparr>ac_Version = 7, ac_Targets = [], ac_Jobs = [],
         ac_HealthChecks = [], ac_Maintenance = None, ac_Advanced = None\<rparr>, ra_HeartbeatIntervalSec = 30, ra_ServerTimeIso = []\<rparr>
         (c :: ref_bucket Store Client)) = 9"
proof -
  define cfg where "cfg = \<lparr>ac_Version = 7, ac_Targets = [], ac_Jobs = [],
         ac_HealthChecks = [], ac_Maintenance = None, ac_Advanced = None\<rparr>"
  define h where "h = \<lparr>h_OnConfigUpdate = Some (\<lambda>_. False), h_OnRunBackup = None, h_OnCancelJob = None,
         h_OnRunHealthCheck = None, h_OnSelfUpdate = None\<rparr>"
  define w where "w = (example_world ref_codec)\<lparr>w_handlers := Some h\<rparr>"
  define c where "c = (example_client example_store)\<lparr>cl_configVersion := 9\<rparr>"
  define a where "a = \<lparr>ra_SessionId = ''s'', ra_Config = Some cfg, ra_HeartbeatIntervalSec = 30, ra_ServerTimeIso = []\<rparr>"
  let ?s = "snd (SaveSession ref_bolt example_store ''s'' 1)"
  have ch: "changes_bucket bktRegistry example_store (\<lambda>_ _ _. True) (SaveSession ref_bolt example_store ''s'' 1)"
    using ref_bolt.SaveSession_changes [of example_store "''s''" 1] example_store_ok
    by (auto simp: store_ok_def elim: changes_bucket_mono)
  have "store_ok ref_ok ?s"
    using ref_bolt.step_ok_step [OF example_store_ok, of "OpSaveSession ''s'' 1"]
    by (cases "SaveSession ref_bolt example_store ''s'' 1") (auto simp: step_ok_def)
  moreover have "works ?s"
    using ch by (cases "SaveSession ref_bolt example_store ''s'' 1")
      (simp add: changes_bucket_def works_def, simp add: example_store_def)
  ultimately have "fst (SaveConfig ref_bolt ?s 7 (put_u64 7)) = Inr ()"
    by (intro ref_bolt.SaveConfig_works) simp_all
  then obtain d where d: "SaveConfig ref_bolt ?s 7 (put_u64 7) = (Inr (), d)" by (metis prod.collapse)
  have "marshal_cfg (w_codec w) cfg = Some (put_u64 7)" by (simp add: w_def cfg_def ref_codec_def)
  then have "cl_configVersion (apply_ack w 1 a c) = cl_configVersion c"
    using stale_ack_splits_version [OF ref_bolt.bolt_laws_axioms, of c w a cfg "put_u64 7" h 1 d example_cfg] d
    by (simp add: w_def c_def a_def cfg_def h_def)
  then show ?thesis unfolding a_def cfg_def by (intro exI [of _ w] exI [of _ c]) (simp add: c_def)
qed

text \<open>C27: The reconnect delays only ever grow to the cap: however the iterations of \<open>Start\<close> end, with
  failed dials or with long healthy connections, the n-th delay is that of the schedule after n
  attempts (1s, 2s, 4s up to 60s, within 21 percent); nothing rewinds it.\<close>

theorem reconnect_delays:
  assumes "\<forall>a \<in> set as. 0 \<le> at_rand a \<and> at_rand a < 1" "n < length (fst (Client_Start w url_parse as c))"
  shows "79 * min (60 * Second) (2 ^ n * Second) \<le> 100 * fst (Client_Start w url_parse as c) ! n
    \<and> 100 * fst (Client_Start w url_parse as c) ! n \<le> 121 * min (60 * Second) (2 ^ n * Second)"
proof -
  obtain k where k: "fst (Client_Start w url_parse as c) = fst (backoff_delays NewBackoff (map at_rand (take k as)))"
    using Start_loop_delays [of as w url_parse NewBackoff c] by (auto simp: Client_Start_def)
  show ?thesis using assms(2) unfolding k
    by (intro backoff_schedule) (use assms(1) in \<open>auto dest: in_set_takeD\<close>)
qed

theorem reconnect_delays_witness:
  "\<exists>w c. length (fst (Client_Start w (\<lambda>_. Some \<lparr>u_Scheme = ''https'', u_Host = [], u_Path = [], u_rest = []\<rparr>)
        (replicate 3 \<lparr>at_dial_ok = True, at_now = 1, at_write_ok = True, at_reply = Some (True, []), at_unix_ms = 1,
           at_done = (\<lambda>_. False), at_events = [], at_rand = 1 / 2\<rparr>) (c :: unit Client))) = 3
     \<and> 79 * (4 * Second) \<le> 100 * fst (Client_Start w (\<lambda>_. Some \<lparr>u_Scheme = ''https'', u_Host = [], u_Path = [], u_rest = []\<rparr>)
        (replicate 3 \<lparr>at_dial_ok = True, at_now = 1, at_write_ok = True, at_reply = Some (True, []), at_unix_ms = 1,
           at_done = (\<lambda>_. False), at_events = [], at_rand = 1 / 2\<rparr>) c) ! 2"
proof -
  define a where "a = \<lparr>at_dial_ok = True, at_now = 1, at_write_ok = True, at_reply = Some (True, []), at_unix_ms = 1,
           at_done = (\<lambda>_. False), at_events = [], at_rand = 1 / 2\<rparr>"
  define up :: "string \<Rightarrow> url option" where
    "up = (\<lambda>_. Some \<lparr>u_Scheme = ''https'', u_Host = [], u_Path = [], u_rest = []\<rparr>)"
  define ack where "ack = (NewEnvelope 1)\<lparr>env_Payload := Some (PRegisterAck (Some
    \<lparr>ra_SessionId = [], ra_Config = None, ra_HeartbeatIntervalSec = 0, ra_ServerTimeIso = []\<rparr>))\<rparr>"
  define w :: "unit World" where "w = \<lparr>w_codec = \<lparr>marshal_env = (\<lambda>_. Some []), unmarshal_env = (\<lambda>_. Some ack),
     marshal_cfg = (\<lambda>_. None), unmarshal_cfg = (\<lambda>_. None)\<rparr>, w_state = None, w_queue = None, w_handlers = None,
     w_metrics = None, w_hostname = None, w_goos = [], w_goarch = []\<rparr>"
  define c where "c = NewClient w example_cfg ()"
  have run: "fst (runOnce w up a c) = Disconnected" for c
    by (simp add: runOnce_def connect_cases buildWSURL_def up_def a_def handshake_def w_def ack_def Let_def replayQueue_def
        split: prod.splits)
  have "length (fst (Start_loop w up bo (replicate k a) c)) = k" for k bo c
  proof (induction k arbitrary: bo c)
    case (Suc k)
    obtain c1 where "runOnce w up a c = (Disconnected, c1)" using run [of c] by (metis prod.collapse)
    with Suc.IH show ?case by (simp add: case_prod_beta' Let_def)
  qed simp
  then have len: "length (fst (Client_Start w up (replicate 3 a) c)) = 3" by (simp add: Client_Start_def)
  have "79 * (4 * Second) \<le> 100 * fst (Client_Start w up (replicate 3 a) c) ! 2"
    using reconnect_delays [of "replicate 3 a" 2 w up c] len by (simp add: a_def Second_def)
  with len show ?thesis unfolding up_def a_def by blast
qed

text \<open>C26: While a connection lives it is a FIFO that loses nothing: after any interleaving of sends, inbound
  frames, writes and heartbeats that leaves it alive (marshalling not failing), what is on the wire
  followed by what is on the channel extends what was there before, in order, and the channel never
  exceeds its 64 places.\<close>

theorem live_connection_fifo:
  assumes "\<forall>e. marshal_env (w_codec w) e \<noteq> None" "cl_out c = Some out" "length out \<le> 64"
    and "cl_out (live_run w evs c) = Some out'"
  shows "length out' \<le> 64
    \<and> (\<exists>new. map body (cl_wire (live_run w evs c) @ out') = map body (cl_wire c @ out) @ new)"
proof -
  have "fifo_step c (live_run w evs c)" using live_run_cases [of w c evs] assms(1,4) by auto
  with assms(2-4) show ?thesis by (auto simp: fifo_step_def outCap_def)
qed

theorem live_connection_fifo_witness:
  "\<exists>w c. cl_wire (live_run w [EvSend 1 (Some (NewEnvelope 2)), EvWrite 1 True, EvTick 1 1] (c :: unit Client)) \<noteq> []
    \<and> (\<exists>new. map body (cl_wire (live_run w [EvSend 1 (Some (NewEnvelope 2)), EvWrite 1 True, EvTick 1 1] c)
         @ the (cl_out (live_run w [EvSend 1 (Some (NewEnvelope 2)), EvWrite 1 True, EvTick 1 1] c)))
       = map body (cl_wire c @ []) @ new)"
proof -
  define w :: "unit World" where "w = \<lparr>w_codec = \<lparr>marshal_env = (\<lambda>_. Some []), unmarshal_env = (\<lambda>_. None),
     marshal_cfg = (\<lambda>_. None), unmarshal_cfg = (\<lambda>_. None)\<rparr>, w_state = None, w_queue = None, w_handlers = None,
     w_metrics = None, w_hostname = None, w_goos = [], w_goarch = []\<rparr>"
  define c where "c = (NewClient w example_cfg ())\<lparr>cl_out := Some []\<rparr>"
  let ?r = "live_run w [EvSend 1 (Some (NewEnvelope 2)), EvWrite 1 True, EvTick 1 1] c"
  have "cl_wire ?r \<noteq> [] \<and> (\<exists>out. cl_out ?r = Some out)"
    by (simp add: w_def c_def NewClient_def example_cfg_def Client_Send_def write_step_def emitHeartbeat_def stamp_def
        NewEnvelope_def outCap_def Let_def)
  moreover have "\<forall>e. marshal_env (w_codec w) e \<noteq> None" "cl_out c = Some []" by (simp_all add: w_def c_def)
  ultimately show ?thesis using live_connection_fifo [of w c "[]" "[EvSend 1 (Some (NewEnvelope 2)), EvWrite 1 True, EvTick 1 1]"]
    by (intro exI [of _ w] exI [of _ c]) (auto simp del: live_run.simps)
qed

end
