(* ===== verification/Discovery.thy ===== *)
theory Discovery
  imports Proto_Types
begin

text \<open>
  \<open>internal/discovery\<close>: the scan of the Docker daemon. The HTTP client is a function from an
  endpoint to its reply (\<open>None\<close> where the request fails), and the JSON decoder a pair of
  functions. A Go map read from JSON is the list of its entries in the order in which \<open>range\<close>
  visits them, which Go leaves open; so every statement holds for every order.
\<close>

section \<open>Tables\<close>

definition dockerAPIVersion :: string where "dockerAPIVersion = ''v1.41''"

definition dbTypeByImagePrefix :: "(string \<times> string) list" where
  "dbTypeByImagePrefix =
     [(''postgres'', ''postgresql''), (''postgis/postgis'', ''postgresql''),
      (''timescale/timescaledb'', ''postgresql''), (''bitnami/postgresql'', ''postgresql''),
      (''mariadb'', ''mariadb''), (''bitnami/mariadb'', ''mariadb''), (''mysql'', ''mysql''),
      (''percona'', ''mysql''), (''bitnami/mysql'', ''mysql''), (''mongo'', ''mongodb''),
      (''bitnami/mongodb'', ''mongodb''), (''redis'', ''redis''), (''bitnami/redis'', ''redis'')]"

definition envHintKeysByDBType :: "(string \<times> string list) list" where
  "envHintKeysByDBType =
     [(''postgresql'', [''POSTGRES_USER'', ''POSTGRES_PASSWORD'', ''POSTGRES_DB'', ''POSTGRESQL_USER'',
         ''POSTGRESQL_PASSWORD'', ''POSTGRESQL_DATABASE'', ''PGUSER'', ''PGPASSWORD'', ''PGDATABASE'']),
      (''mysql'', [''MYSQL_USER'', ''MYSQL_PASSWORD'', ''MYSQL_ROOT_PASSWORD'', ''MYSQL_DATABASE'',
         ''MYSQL_ALLOW_EMPTY_PASSWORD'']),
      (''mariadb'', [''MYSQL_USER'', ''MYSQL_PASSWORD'', ''MYSQL_ROOT_PASSWORD'', ''MYSQL_DATABASE'', ''MARIADB_USER'',
         ''MARIADB_PASSWORD'', ''MARIADB_ROOT_PASSWORD'', ''MARIADB_DATABASE'']),
      (''mongodb'', [''MONGO_INITDB_ROOT_USERNAME'', ''MONGO_INITDB_ROOT_PASSWORD'', ''MONGO_INITDB_DATABASE'']),
      (''redis'', [''REDIS_PASSWORD'', ''REDIS_USERNAME''])]"

definition envHintAllowSet :: "string set" where
  "envHintAllowSet = set (concat (map snd envHintKeysByDBType))"

section \<open>Data\<close>

text \<open>\<open>DiscoveredContainer\<close> and \<open>PortBinding\<close> of \<open>scanner.go\<close>.\<close>

record ScanPort =
  sp_ContainerPort :: uint32
  sp_HostPort :: uint32
  sp_Protocol :: string

record ScanContainer =
  sc_ContainerID :: string
  sc_Name :: string
  sc_Image :: string
  sc_DetectedDBType :: string
  sc_Networks :: "string list"
  sc_EnvHints :: "string \<rightharpoonup> string"
  sc_Ports :: "ScanPort list"

record list_port =
  lp_PrivatePort :: uint32
  lp_PublicPort :: uint32
  lp_Type :: string

record dockerListEntry =
  le_ID :: string
  le_Names :: "string list"
  le_Image :: string
  le_State :: string
  le_Ports :: "list_port list"
  le_Networks :: "string list"

text \<open>In \<open>di_Ports\<close> each key comes with its host bindings, \<open>(HostIp, HostPort)\<close>.\<close>

record dockerInspectResponse =
  di_ID :: string
  di_Name :: string
  di_Running :: bool
  di_Image :: string
  di_Env :: "string list"
  di_NetworkMode :: string
  di_Networks :: "string list"
  di_Ports :: "(string \<times> (string \<times> string) list) list"

section \<open>Recognising databases\<close>

definition normaliseImage :: "string \<Rightarrow> string" where
  "normaliseImage img =
     (let s = ToLower (TrimSpace img);
          s1 = (case Index s ''@'' of Some i \<Rightarrow> take i s | None \<Rightarrow> s)
      in case Index s1 ''/'' of
          Some slash \<Rightarrow>
            if slash > 0 \<and> ContainsAny (take slash s1) ''.:'' then drop (slash + 1) s1 else s1
        | None \<Rightarrow> s1)"

definition isAlnumExtension :: "string \<Rightarrow> string \<Rightarrow> bool" where
  "isAlnumExtension prefix rest =
     (if prefix = ''postgres'' then rest = ''ql''
      else if prefix = ''mysql'' then (if list_all is_digit rest then rest \<noteq> [] else False)
      else False)"

text \<open>The body of the loop of \<open>detectDBType\<close>: does the rule with this prefix return?\<close>

definition rule_matches :: "string \<Rightarrow> string \<Rightarrow> bool" where
  "rule_matches nm prefix \<longleftrightarrow>
     (nm = prefix \<or> HasPrefix nm (prefix @ '':'') \<or> HasPrefix nm (prefix @ ''/''))
   \<or> (\<not> Contains prefix ''/'' \<and> HasPrefix nm prefix
       \<and> (let rest = drop (length prefix) nm
          in rest = [] \<or> rest ! 0 = CHR '':'' \<or> rest ! 0 = CHR ''/'' \<or> isAlnumExtension prefix rest))"

fun first_rule :: "string \<Rightarrow> (string \<times> string) list \<Rightarrow> string" where
  "first_rule nm [] = []"
| "first_rule nm ((prefix, dbType) # rules) = (if rule_matches nm prefix then dbType else first_rule nm rules)"

definition detectDBType :: "string \<Rightarrow> string" where
  "detectDBType img = first_rule (normaliseImage img) dbTypeByImagePrefix"

section \<open>Ports and environment\<close>

text \<open>The loop of \<open>parsePort\<close>, on 32-bit words.\<close>

fun parse_digits :: "uint32 \<Rightarrow> string \<Rightarrow> uint32" where
  "parse_digits v [] = v"
| "parse_digits v (r # s) =
     (if \<not> is_digit r then 0
      else let v' = v * 10 + of_nat (digit_val r) in if v' > 65535 then 0 else parse_digits v' s)"

definition parsePort :: "string \<Rightarrow> uint32" where
  "parsePort s = (if s = [] then 0 else parse_digits 0 s)"

definition defaultProto :: "string \<Rightarrow> string" where
  "defaultProto p = (let q = ToLower (TrimSpace p) in if q = [] then ''tcp'' else q)"

definition parsePortKey :: "string \<Rightarrow> uint32 \<times> string" where
  "parsePortKey key =
     (case Index key ''/'' of
        None \<Rightarrow> (parsePort key, ''tcp'')
      | Some slash \<Rightarrow> (parsePort (take slash key), defaultProto (drop (slash + 1) key)))"

fun portsFromInspect :: "(string \<times> (string \<times> string) list) list \<Rightarrow> ScanPort list" where
  "portsFromInspect [] = []"
| "portsFromInspect ((key, bindings) # rest) =
     (let (port, proto) = parsePortKey key
      in (if port = 0 then []
          else if bindings = [] then [\<lparr>sp_ContainerPort = port, sp_HostPort = 0, sp_Protocol = proto\<rparr>]
          else map (\<lambda>(ip, hp). \<lparr>sp_ContainerPort = port, sp_HostPort = parsePort hp, sp_Protocol = proto\<rparr>) bindings)
         @ portsFromInspect rest)"

fun filterEnv_loop :: "string list \<Rightarrow> (string \<rightharpoonup> string) \<Rightarrow> (string \<rightharpoonup> string)" where
  "filterEnv_loop [] out = out"
| "filterEnv_loop (e # es) out =
     (case IndexByte e (CHR ''='') of
        None \<Rightarrow> filterEnv_loop es out
      | Some eq \<Rightarrow>
          if eq = 0 then filterEnv_loop es out
          else if take eq e \<notin> envHintAllowSet then filterEnv_loop es out
          else filterEnv_loop es (out(take eq e \<mapsto> ''set'')))"

definition filterEnv :: "string list \<Rightarrow> (string \<rightharpoonup> string)" where
  "filterEnv env = filterEnv_loop env Map.empty"

definition buildContainer :: "dockerListEntry \<Rightarrow> dockerInspectResponse \<Rightarrow> string \<Rightarrow> ScanContainer" where
  "buildContainer l det dbType =
     (let n1 = TrimPrefix (di_Name det) ''/'';
          name = (if n1 = [] \<and> le_Names l \<noteq> [] then TrimPrefix (hd (le_Names l)) ''/'' else n1);
          networks = (if di_Networks det = [] then le_Networks l else di_Networks det);
          p1 = portsFromInspect (di_Ports det);
          ports = (if p1 = []
                   then map (\<lambda>p. \<lparr>sp_ContainerPort = lp_PrivatePort p, sp_HostPort = lp_PublicPort p,
                                   sp_Protocol = defaultProto (lp_Type p)\<rparr>) (le_Ports l)
                   else p1)
      in \<lparr>sc_ContainerID = di_ID det, sc_Name = name, sc_Image = di_Image det, sc_DetectedDBType = dbType,
          sc_Networks = networks, sc_EnvHints = filterEnv (di_Env det), sc_Ports = ports\<rparr>)"

section \<open>The scanner\<close>

datatype http_client = UnixClient string | PlainClient

record dockerScanner =
  ds_client :: http_client
  ds_baseURL :: string

definition newDockerScanner :: "string \<Rightarrow> dockerScanner" where
  "newDockerScanner socketPath =
     (if \<not> HasPrefix socketPath ''http://'' \<and> \<not> HasPrefix socketPath ''https://''
      then \<lparr>ds_client = UnixClient socketPath, ds_baseURL = ''http://docker/'' @ dockerAPIVersion\<rparr>
      else \<lparr>ds_client = PlainClient, ds_baseURL = TrimRight socketPath ''/'' @ ''/'' @ dockerAPIVersion\<rparr>)"

definition NewScanner :: "string \<Rightarrow> dockerScanner" where
  "NewScanner socket = newDockerScanner (if socket = [] then ''/var/run/docker.sock'' else socket)"

record daemon =
  dm_get :: "http_client \<Rightarrow> string \<Rightarrow> (int \<times> bytes) option"
  dm_list :: "bytes \<Rightarrow> dockerListEntry list option"
  dm_inspect :: "bytes \<Rightarrow> dockerInspectResponse option"

datatype docker_err = DockerGet | DockerStatus int | ContainerNotFound | DecodeResponse

definition listContainers :: "daemon \<Rightarrow> dockerScanner \<Rightarrow> docker_err + dockerListEntry list" where
  "listContainers d s =
     (case dm_get d (ds_client s) (ds_baseURL s @ ''/containers/json'') of
        None \<Rightarrow> Inl DockerGet
      | Some (status, body) \<Rightarrow>
          if status div 100 \<noteq> 2 then Inl (DockerStatus status)
          else (case dm_list d body of None \<Rightarrow> Inl DecodeResponse | Some entries \<Rightarrow> Inr entries))"

definition inspectContainer :: "daemon \<Rightarrow> dockerScanner \<Rightarrow> string \<Rightarrow> docker_err + dockerInspectResponse" where
  "inspectContainer d s id' =
     (case dm_get d (ds_client s) (ds_baseURL s @ ''/containers/'' @ PathEscape id' @ ''/json'') of
        None \<Rightarrow> Inl DockerGet
      | Some (status, body) \<Rightarrow>
          if status = 404 then Inl ContainerNotFound
          else if status div 100 \<noteq> 2 then Inl (DockerStatus status)
          else (case dm_inspect d body of None \<Rightarrow> Inl DecodeResponse | Some details \<Rightarrow> Inr details))"

fun scan_loop :: "daemon \<Rightarrow> dockerScanner \<Rightarrow> dockerListEntry list \<Rightarrow> ScanContainer list" where
  "scan_loop d s [] = []"
| "scan_loop d s (c # cs) =
     (let dbType = detectDBType (le_Image c)
      in if dbType = [] then scan_loop d s cs
         else (case inspectContainer d s (le_ID c) of
             Inl e \<Rightarrow> scan_loop d s cs
           | Inr details \<Rightarrow>
               if \<not> di_Running details then scan_loop d s cs
               else buildContainer c details dbType # scan_loop d s cs))"

definition Scan :: "daemon \<Rightarrow> dockerScanner \<Rightarrow> docker_err + ScanContainer list" where
  "Scan d s = (case listContainers d s of Inl e \<Rightarrow> Inl e | Inr l \<Rightarrow> Inr (scan_loop d s l))"

definition BuildReport :: "ScanContainer list \<Rightarrow> DiscoveryReport" where
  "BuildReport containers =
     \<lparr>dr_Containers = map (\<lambda>c.
        \<lparr>dc_ContainerId = sc_ContainerID c, dc_Name = sc_Name c, dc_Image = sc_Image c,
         dc_DetectedDbType = sc_DetectedDBType c, dc_Networks = sc_Networks c, dc_EnvHints = sc_EnvHints c,
         dc_Ports = map (\<lambda>p. \<lparr>pb_ContainerPort = sp_ContainerPort p, pb_HostPort = sp_HostPort p,
                             pb_Protocol = sp_Protocol p\<rparr>) (sc_Ports c)\<rparr>) containers\<rparr>"

section \<open>Lemmas\<close>

lemma parse_digits_eq:
  "unat v \<le> 65535 \<Longrightarrow> parse_digits v s =
     (if list_all is_digit s \<and> foldl (\<lambda>a c. 10 * a + digit_val c) (unat v) s \<le> 65535
      then of_nat (foldl (\<lambda>a c. 10 * a + digit_val c) (unat v) s) else 0)"
proof (induction s arbitrary: v)
  case Nil
  then show ?case by simp
next
  case (Cons r s)
  have mono: "a \<le> foldl (\<lambda>a c. 10 * a + digit_val c) a s" for a
  proof (induction s arbitrary: a)
    case (Cons x s)
    from Cons.IH [of "10 * a + digit_val x"] show ?case by simp
  qed simp
  show ?case
  proof (cases "is_digit r")
    case False
    then show ?thesis by simp
  next
    case True
    then have d: "digit_val r \<le> 9" unfolding is_digit_def digit_val_def by linarith
    have "unat (v * 10 + of_nat (digit_val r)) = unat v * 10 + digit_val r"
      using Cons.prems d by (simp add: unat_word_ariths unat_of_nat)
    then have u: "unat (v * 10 + of_nat (digit_val r)) = 10 * unat v + digit_val r" by simp
    have gt: "v * 10 + of_nat (digit_val r) > 65535 \<longleftrightarrow> 65535 < 10 * unat v + digit_val r"
      by (simp add: word_less_nat_alt u)
    show ?thesis
    proof (cases "65535 < 10 * unat v + digit_val r")
      case big: True
      with mono [of "10 * unat v + digit_val r"] gt True show ?thesis by (simp add: Let_def)
    next
      case False
      with Cons.IH [of "v * 10 + of_nat (digit_val r)"] gt True u show ?thesis by (simp add: Let_def)
    qed
  qed
qed

text \<open>An entry of the environment without its value.\<close>

definition env_key :: "string \<Rightarrow> string \<times> bool" where
  "env_key e = (case IndexByte e (CHR ''='') of None \<Rightarrow> (e, False) | Some i \<Rightarrow> (take i e, True))"

lemma filterEnv_loop_keys:
  "map env_key es = map env_key es' \<Longrightarrow> filterEnv_loop es out = filterEnv_loop es' out"
proof (induction es arbitrary: es' out)
  case (Cons e es)
  then obtain e' es1 where es': "es' = e' # es1" "env_key e = env_key e'" "map env_key es = map env_key es1"
    by (cases es') auto
  note IH = Cons.IH [OF es'(3)]
  show ?case
  proof (cases "IndexByte e (CHR ''='')")
    case None
    with es'(2) have "IndexByte e' (CHR ''='') = None" by (auto simp: env_key_def split: option.splits)
    with None IH es'(1) show ?thesis by simp
  next
    case (Some i)
    with es'(2) obtain j where j: "IndexByte e' (CHR ''='') = Some j" "take i e = take j e'"
      by (auto simp: env_key_def split: option.splits)
    have "i = j"
      using arg_cong [OF j(2), of length] IndexByte_Some [OF Some] IndexByte_Some [OF j(1)] by simp
    with Some j IH es'(1) show ?thesis by (simp add: fun_upd_def)
  qed
qed simp

lemma filterEnv_values: "filterEnv_loop es out k = Some v \<Longrightarrow> v = ''set'' \<or> out k = Some v"
proof (induction es arbitrary: out)
  case (Cons e es)
  from Cons.prems show ?case
    by (auto split: option.splits if_splits dest!: Cons.IH)
qed simp

text \<open>Two daemons that differ only in the values of environment variables.\<close>

definition same_but_values :: "daemon \<Rightarrow> daemon \<Rightarrow> bool" where
  "same_but_values d d' \<longleftrightarrow> dm_get d = dm_get d' \<and> dm_list d = dm_list d' \<and>
     (\<forall>body. rel_option (\<lambda>x y. y = x\<lparr>di_Env := di_Env y\<rparr> \<and> map env_key (di_Env x) = map env_key (di_Env y))
        (dm_inspect d body) (dm_inspect d' body))"

lemma buildContainer_values:
  "y = x\<lparr>di_Env := di_Env y\<rparr> \<Longrightarrow> map env_key (di_Env x) = map env_key (di_Env y) \<Longrightarrow>
     buildContainer c x t = buildContainer c y t \<and> di_Running x = di_Running y"
  using filterEnv_loop_keys [of "di_Env x" "di_Env y" Map.empty]
  by (cases x; cases y) (simp add: buildContainer_def filterEnv_def)

lemma inspect_values:
  assumes "same_but_values d d'"
  shows "rel_sum (=) (\<lambda>x y. y = x\<lparr>di_Env := di_Env y\<rparr> \<and> map env_key (di_Env x) = map env_key (di_Env y))
    (inspectContainer d s i) (inspectContainer d' s i)"
proof -
  have r: "rel_option (\<lambda>x y. y = x\<lparr>di_Env := di_Env y\<rparr> \<and> map env_key (di_Env x) = map env_key (di_Env y))
        (dm_inspect d body) (dm_inspect d' body)" for body
    using assms by (simp add: same_but_values_def)
  show ?thesis
  proof (cases "dm_get d (ds_client s) (ds_baseURL s @ ''/containers/'' @ PathEscape i @ ''/json'')")
    case None
    with assms show ?thesis by (simp add: inspectContainer_def same_but_values_def)
  next
    case (Some p)
    obtain status body where p: "p = (status, body)" by fastforce
    have get: "dm_get d' (ds_client s) (ds_baseURL s @ ''/containers/'' @ PathEscape i @ ''/json'') = Some (status, body)"
      using assms Some p by (simp add: same_but_values_def)
    show ?thesis
      using r [of body] Some p get
      by (cases "dm_inspect d body"; cases "dm_inspect d' body") (simp_all add: inspectContainer_def)
  qed
qed

lemma scan_loop_values:
  assumes "same_but_values d d'"
  shows "scan_loop d s cs = scan_loop d' s cs"
proof (induction cs)
  case (Cons c cs)
  note r = inspect_values [OF assms, of s "le_ID c"]
  show ?case
  proof (cases "inspectContainer d s (le_ID c)")
    case (Inl e)
    with r have "inspectContainer d' s (le_ID c) = Inl e" by (cases "inspectContainer d' s (le_ID c)") simp_all
    with Inl Cons.IH show ?thesis by (simp add: Let_def)
  next
    case (Inr x)
    with r obtain y where y: "inspectContainer d' s (le_ID c) = Inr y"
      "y = x\<lparr>di_Env := di_Env y\<rparr>" "map env_key (di_Env x) = map env_key (di_Env y)"
      by (cases "inspectContainer d' s (le_ID c)") simp_all
    with buildContainer_values [OF y(2,3), of c] Inr Cons.IH show ?thesis by (simp add: Let_def)
  qed
qed simp

lemma first_rule_type: "first_rule nm rules \<in> insert [] (snd ` set rules)"
  by (induction nm rules rule: first_rule.induct) auto

lemma Index_single: "Index s [c] = IndexByte s c"
  by (induction s) (auto simp: HasPrefix_def)

lemma lower_char_below: "char_code x < 65 \<Longrightarrow> lower_char c = x \<longleftrightarrow> c = x"
  by (auto simp: lower_char_def char_code_def)

lemma ToLower_below: "char_code x < 65 \<Longrightarrow> x \<in> set (ToLower s) \<longleftrightarrow> x \<in> set s"
proof -
  assume "char_code x < 65"
  from lower_char_below [OF this] have "x = lower_char c \<longleftrightarrow> x = c" for c by metis
  then show ?thesis by (simp add: ToLower_def image_iff)
qed

lemma TrimSpace_id: "\<forall>c \<in> set s. \<not> is_space c \<Longrightarrow> TrimSpace s = s"
proof -
  have "dropWhile is_space s = s" if "\<forall>c \<in> set s. \<not> is_space c" for s using that by (cases s) auto
  from this [of s] this [of "rev s"] show "\<forall>c \<in> set s. \<not> is_space c \<Longrightarrow> TrimSpace s = s" by (simp add: TrimSpace_def)
qed

lemma normaliseImage_registry:
  assumes "\<forall>c \<in> set (host @ ''/'' @ img @ dg). \<not> is_space c" "ContainsAny host ''.:''" "CHR ''/'' \<notin> set host"
    and "CHR ''@'' \<notin> set (host @ img)" "dg = [] \<or> (\<exists>d. dg = CHR ''@'' # d)"
  shows "normaliseImage (host @ ''/'' @ img @ dg) = ToLower img"
proof -
  have codes: "char_code (CHR ''@'') < 65" "char_code (CHR ''/'') < 65" "char_code (CHR ''.'') < 65" "char_code (CHR '':'') < 65"
    by (simp_all add: char_code_def)
  have low: "lower_char (CHR ''@'') = CHR ''@''" "lower_char (CHR ''/'') = CHR ''/''"
    using lower_char_below [OF codes(1)] lower_char_below [OF codes(2)] by blast+
  let ?s1 = "ToLower host @ CHR ''/'' # ToLower img"
  have at: "CHR ''@'' \<notin> set ?s1" using assms(4) ToLower_below [OF codes(1)] by auto
  have s: "ToLower (TrimSpace (host @ CHR ''/'' # img @ dg)) = ?s1 @ ToLower dg"
    using TrimSpace_id [OF assms(1)] low by (simp add: ToLower_def)
  have cut: "case_option (?s1 @ ToLower dg) (\<lambda>i. take i (?s1 @ ToLower dg)) (Index (?s1 @ ToLower dg) ''@'') = ?s1"
  proof (cases "dg = []")
    case True
    with at show ?thesis by (simp add: Index_single ToLower_def iffD2 [OF IndexByte_None])
  next
    case False
    with assms(5) obtain d where "dg = CHR ''@'' # d" by auto
    then have "ToLower dg = CHR ''@'' # ToLower d" using low by (simp add: ToLower_def)
    with IndexByte_append [OF at, of "ToLower d"] show ?thesis by (simp add: Index_single)
  qed
  have "Index ?s1 ''/'' = Some (length host)"
    using IndexByte_append [of "CHR ''/''" "ToLower host" "ToLower img"] assms(3) ToLower_below [OF codes(2)]
    by (simp add: Index_single)
  moreover have "ContainsAny (ToLower host) ''.:''" "host \<noteq> []"
    using assms(2) ToLower_below [OF codes(3)] ToLower_below [OF codes(4)] by (auto simp: ContainsAny_def)
  moreover have "normaliseImage (host @ ''/'' @ img @ dg) = (case Index ?s1 ''/'' of
      Some slash \<Rightarrow> if slash > 0 \<and> ContainsAny (take slash ?s1) ''.:'' then drop (slash + 1) ?s1 else ?s1 | None \<Rightarrow> ?s1)"
    unfolding normaliseImage_def Let_def append_Cons append_Nil s cut ..
  ultimately show ?thesis by simp
qed

section \<open>Properties\<close>

text \<open>C37: No secret leaves the host through discovery: two Docker daemons that differ only in the values
  of the containers' environment variables yield the same report, and every hint in it is the word
  \<open>set\<close>.\<close>

theorem discovery_hides_values:
  assumes "same_but_values d d'"
  shows "map_sum id BuildReport (Scan d s) = map_sum id BuildReport (Scan d' s)
    \<and> (filterEnv env k = Some v \<longrightarrow> v = ''set'')"
proof -
  have "listContainers d s = listContainers d' s"
    using assms unfolding listContainers_def same_but_values_def by (simp only:)
  then have "Scan d s = Scan d' s" using scan_loop_values [OF assms] by (simp add: Scan_def cong: sum.case_cong)
  with filterEnv_values [of env Map.empty k v] show ?thesis by (simp add: filterEnv_def)
qed

definition example_inspect :: "string \<Rightarrow> dockerInspectResponse" where
  "example_inspect pw = \<lparr>di_ID = ''1'', di_Name = ''/db'', di_Running = True, di_Image = ''postgres:16'',
     di_Env = [''PGPASSWORD='' @ pw, ''PATH=/bin''], di_NetworkMode = [], di_Networks = [''net''],
     di_Ports = [(''5432/tcp'', [(''0.0.0.0'', ''15432'')])]\<rparr>"

definition example_daemon :: "string \<Rightarrow> daemon" where
  "example_daemon pw = \<lparr>dm_get = (\<lambda>_ _. Some (200, [])),
     dm_list = (\<lambda>_. Some [\<lparr>le_ID = ''1'', le_Names = [], le_Image = ''postgres:16'', le_State = [], le_Ports = [], le_Networks = []\<rparr>]),
     dm_inspect = (\<lambda>_. Some (example_inspect pw))\<rparr>"

theorem discovery_hides_values_witness:
  "map_sum id BuildReport (Scan (example_daemon ''secret'') (NewScanner [])) =
   map_sum id BuildReport (Scan (example_daemon ''other'') (NewScanner []))"
proof -
  have "same_but_values (example_daemon ''secret'') (example_daemon ''other'')"
    by (simp add: same_but_values_def example_daemon_def example_inspect_def env_key_def)
  from discovery_hides_values [OF this, of "NewScanner []" "[]" "[]" "[]"] show ?thesis by blast
qed

text \<open>The port parser is exact: \<open>parsePort\<close>, computed in 32-bit arithmetic, yields the decimal value
  of a non-empty string of digits that is at most 65535, and 0 for every other string; it never
  wraps around.\<close>

theorem parsePort_exact:
  "parsePort s = (if all_digits s \<and> dec_val s \<le> 65535 then of_nat (dec_val s) else 0)"
  using parse_digits_eq [of 0 s] by (simp add: parsePort_def all_digits_def dec_val_def)

text \<open>Where an image comes from does not matter for its type, and the type is one the agent knows:
  with a registry host in front and a digest behind, \<open>detectDBType\<close> yields what it yields for the
  bare image, and always one of the five type names or nothing.\<close>

theorem detect_ignores_registry:
  assumes "\<forall>c \<in> set (host @ ''/'' @ img @ dg). \<not> is_space c" "ContainsAny host ''.:''" "CHR ''/'' \<notin> set host"
    and "CHR ''@'' \<notin> set (host @ img)" "dg = [] \<or> (\<exists>d. dg = CHR ''@'' # d)" "normaliseImage img = ToLower img"
  shows "detectDBType (host @ ''/'' @ img @ dg) = detectDBType img
    \<and> detectDBType img \<in> {[], ''postgresql'', ''mariadb'', ''mysql'', ''mongodb'', ''redis''}"
  using normaliseImage_registry [OF assms(1-5)] assms(6) first_rule_type [of "ToLower img" dbTypeByImagePrefix]
  by (auto simp: detectDBType_def dbTypeByImagePrefix_def)

theorem detect_ignores_registry_witness:
  "detectDBType ''ghcr.io/postgres:16@sha256:ab'' = detectDBType ''postgres:16'' \<and> detectDBType ''postgres:16'' = ''postgresql''"
proof -
  have "normaliseImage ''postgres:16'' = ToLower ''postgres:16''"
    "detectDBType ''postgres:16'' = ''postgresql''"
    "\<forall>c \<in> set (''ghcr.io'' @ ''/'' @ ''postgres:16'' @ ''@sha256:ab''). \<not> is_space c"
    by code_simp+
  with detect_ignores_registry [of "''ghcr.io''" "''postgres:16''" "''@sha256:ab''"] show ?thesis
    by (simp add: ContainsAny_def)
qed

text \<open>Images the table gets wrong: a MongoDB server in Percona's namespace is taken for MySQL, and the
  \<open>postgresql\<close> alias and the official image with its full name are not recognised.\<close>

lemma misdetected_images:
  "detectDBType ''percona/percona-server-mongodb:7.0'' = ''mysql''"
  "detectDBType ''postgresql:16'' = []"
  "detectDBType ''docker.io/library/postgres:16'' = []"
  by code_simp+

end
