(* ===== verification/Drivers.thy ===== *)
theory Drivers
  imports Go_IO Tail_Buffers Proto_Types
begin

text \<open>
  The database drivers of \<open>internal/pipeline\<close>: \<open>pg_dump.go\<close>, \<open>mysqldump.go\<close>, \<open>mongodump.go\<close>,
  \<open>redis.go\<close> and \<open>sqlite.go\<close>, with the \<open>cmdRunner\<close> they share. The operating system (child
  processes, files, the clock, the context's cancellation) is a record of operations on a state
  \<open>'x\<close> that is threaded through; \<open>compress/gzip\<close> and the header block of \<open>archive/tar\<close> are two of
  its fields. Output of commands is ASCII text.
\<close>

section \<open>The operating system\<close>

datatype exec_status = ExecOk | ExecExit int | ExecOther

record exec_result =
  ex_stdout :: bytes
  ex_stderr :: "bytes list"
  ex_status :: exec_status

record 'x os =
  os_exec :: "string \<Rightarrow> string list \<Rightarrow> string list option \<Rightarrow> 'x \<Rightarrow> exec_result \<times> 'x"
  os_environ :: "string list"
  os_now :: "'x \<Rightarrow> int"
  os_sleep :: "int \<Rightarrow> 'x \<Rightarrow> 'x"
  os_cancelled :: "'x \<Rightarrow> bool"
  os_stat :: "string \<Rightarrow> 'x \<Rightarrow> bool"
  os_open :: "string \<Rightarrow> 'x \<Rightarrow> (reader \<times> nat \<times> int) option"
  os_create_temp :: "'x \<Rightarrow> string option \<times> 'x"
  os_remove :: "string \<Rightarrow> 'x \<Rightarrow> 'x"
  os_gzip :: "bytes \<Rightarrow> bytes"
  os_tar_header :: "string \<Rightarrow> nat \<Rightarrow> int \<Rightarrow> bytes option"

section \<open>The command runners\<close>

text \<open>An error of a command: its exit code where it has one, and the captured standard error.\<close>

datatype cmd_err = Exited string int string | CmdFailed string string

record 'x cmdRunner =
  Output :: "'x \<Rightarrow> string \<Rightarrow> string list \<Rightarrow> string list \<Rightarrow> (cmd_err + bytes) \<times> 'x"
  RunStream :: "'x \<Rightarrow> string \<Rightarrow> string list \<Rightarrow> string list \<Rightarrow> writer \<Rightarrow> cmd_err option \<times> writer \<times> 'x"

text \<open>\<open>mergeEnv\<close>: \<open>None\<close> is the nil slice, which inherits the environment.\<close>

definition mergeEnv :: "string list \<Rightarrow> string list \<Rightarrow> string list option" where
  "mergeEnv environ extra = (if extra = [] then None else Some (environ @ extra))"

definition realRunner_Output ::
  "'x os \<Rightarrow> 'x \<Rightarrow> string \<Rightarrow> string list \<Rightarrow> string list \<Rightarrow> (cmd_err + bytes) \<times> 'x" where
  "realRunner_Output os x name args env =
     (case os_exec os name args (mergeEnv (os_environ os) env) x of
        (r, x1) \<Rightarrow>
          (case ex_status r of
             ExecOk \<Rightarrow> (Inr (ex_stdout r), x1)
           | ExecExit n \<Rightarrow> (Inl (Exited name n (TrimSpace (string_of_bytes (concat (ex_stderr r))))), x1)
           | ExecOther \<Rightarrow> (Inl (CmdFailed name []), x1)))"

text \<open>\<open>cmd.Run\<close> with \<open>Stdout = out\<close>: the output is copied into the writer, and a failed copy is an
  error of the command as well.\<close>

definition run_copying ::
  "'x os \<Rightarrow> 'x \<Rightarrow> string \<Rightarrow> string list \<Rightarrow> string list \<Rightarrow> writer \<Rightarrow> exec_status \<times> bytes list \<times> writer \<times> 'x" where
  "run_copying os x name args env out =
     (case os_exec os name args (mergeEnv (os_environ os) env) x of
        (r, x1) \<Rightarrow>
          (case Write out (ex_stdout r) of
             (out1, we) \<Rightarrow>
               (if ex_status r = ExecOk \<and> we \<noteq> None then ExecOther else ex_status r, ex_stderr r, out1, x1)))"

definition realRunner_RunStream ::
  "'x os \<Rightarrow> 'x \<Rightarrow> string \<Rightarrow> string list \<Rightarrow> string list \<Rightarrow> writer \<Rightarrow> cmd_err option \<times> writer \<times> 'x" where
  "realRunner_RunStream os x name args env out =
     (case run_copying os x name args env out of
        (ExecOk, errs, out1, x1) \<Rightarrow> (None, out1, x1)
      | (_, errs, out1, x1) \<Rightarrow> (Some (CmdFailed name (TrimSpace (string_of_bytes (concat errs)))), out1, x1))"

text \<open>\<open>streamWithCancel\<close> keeps the last 4 KB of standard error.\<close>

definition streamWithCancel ::
  "'x os \<Rightarrow> 'x \<Rightarrow> string \<Rightarrow> string list \<Rightarrow> string list \<Rightarrow> writer \<Rightarrow> cmd_err option \<times> writer \<times> 'x" where
  "streamWithCancel os x name args env out =
     (case run_copying os x name args env out of
        (st, errs, out1, x1) \<Rightarrow>
          let tl' = ringBuffer_Tail (foldl ringBuffer_Write (newRingBuffer (4 * 1024)) errs)
          in case st of
              ExecOk \<Rightarrow> (None, out1, x1)
            | ExecExit n \<Rightarrow> (Some (Exited name n tl'), out1, x1)
            | ExecOther \<Rightarrow> (Some (CmdFailed name tl'), out1, x1))"

definition realRunner :: "'x os \<Rightarrow> 'x cmdRunner" where
  "realRunner os = \<lparr>Output = realRunner_Output os, RunStream = realRunner_RunStream os\<rparr>"

definition streamingRunner :: "'x os \<Rightarrow> 'x cmdRunner" where
  "streamingRunner os = \<lparr>Output = realRunner_Output os, RunStream = streamWithCancel os\<rparr>"

section \<open>The Driver interface\<close>

record DumpInfo =
  EngineVersion :: string

datatype drv_err =
    NilTarget
  | VersionProbe cmd_err
  | UnexpectedVersion string
  | SmokeProbe cmd_err
  | DumpExec cmd_err
  | PingFailed cmd_err
  | PingUnexpected string
  | LastSaveFailed cmd_err
  | LastSaveNotInteger string
  | BgsaveFailed cmd_err
  | SaveTimeout
  | CtxDone
  | ConfigGet string cmd_err
  | EmptyDumpPath
  | CannotRead string
  | ArchiveFailed
  | MissingPath
  | CannotStat string
  | CreateTempFailed
  | OpenSnapshot
  | GzipFailed
  | NeverReturns \<comment> \<open>not an error: the call does not return\<close>

record 'x Driver =
  drv_Name :: string
  drv_Validate :: "'x \<Rightarrow> Target option \<Rightarrow> drv_err option \<times> 'x"
  drv_Dump :: "'x \<Rightarrow> Target option \<Rightarrow> writer \<Rightarrow> (drv_err + DumpInfo) \<times> writer \<times> 'x"

text \<open>Flags that are given only if their value is not empty.\<close>

definition opt_flag :: "string \<Rightarrow> string \<Rightarrow> string list" where
  "opt_flag flag v = (if v = [] then [] else [flag, v])"

definition port_flag :: "string \<Rightarrow> uint32 \<Rightarrow> string list" where
  "port_flag flag p = (if p = 0 then [] else [flag, FormatUint (unat p)])"

text \<open>A connection and target with a value, as the guards of all drivers demand.\<close>

definition target_conn :: "Target option \<Rightarrow> ConnectionConfig option" where
  "target_conn t = Option.bind t tg_Connection"

text \<open>The version probe and dump sequence shared by three drivers: stream, then ask for the version.\<close>

definition stream_then_version ::
  "'x cmdRunner \<Rightarrow> 'x \<Rightarrow> string \<Rightarrow> string list \<Rightarrow> string list \<Rightarrow> string \<Rightarrow> (string \<Rightarrow> string) \<Rightarrow> writer
     \<Rightarrow> (drv_err + DumpInfo) \<times> writer \<times> 'x" where
  "stream_then_version R x binary args env dflt parse out =
     (case RunStream R x binary args env out of
        (Some e, out1, x1) \<Rightarrow> (Inl (DumpExec e), out1, x1)
      | (None, out1, x1) \<Rightarrow>
          (case Output R x1 binary [''--version''] [] of
             (Inl e, x2) \<Rightarrow> (Inr \<lparr>EngineVersion = dflt\<rparr>, out1, x2)
           | (Inr v, x2) \<Rightarrow> (Inr \<lparr>EngineVersion = parse (string_of_bytes v)\<rparr>, out1, x2)))"

section \<open>pg_dump\<close>

definition PgDumpMagic :: string where "PgDumpMagic = ''PGDMP''"

definition IsPgDumpMagic :: "bytes \<Rightarrow> bool" where
  "IsPgDumpMagic head \<longleftrightarrow> HasPrefix (string_of_bytes head) PgDumpMagic"

definition pg_connArgs :: "ConnectionConfig \<Rightarrow> string list" where
  "pg_connArgs c =
     opt_flag ''-h'' (cc_Host c) @ port_flag ''-p'' (cc_Port c) @ opt_flag ''-U'' (cc_Username c)
     @ opt_flag ''-d'' (cc_Database c)"

definition pg_env :: "ConnectionConfig \<Rightarrow> string list" where
  "pg_env c = (if cc_PasswordSecretRef c = [] then [] else [''PGPASSWORD='' @ cc_PasswordSecretRef c])"

definition parsePgDumpVersion :: "string \<Rightarrow> string" where
  "parsePgDumpVersion s0 =
     (let s = TrimSpace s0
      in case Index s ''(PostgreSQL)'' of
          Some i \<Rightarrow> ''PostgreSQL '' @ TrimSpace (drop (i + length ''(PostgreSQL)'') s)
        | None \<Rightarrow> s)"

definition pgDump_Validate :: "'x cmdRunner \<Rightarrow> 'x \<Rightarrow> Target option \<Rightarrow> drv_err option \<times> 'x" where
  "pgDump_Validate R x t =
     (case target_conn t of
        None \<Rightarrow> (Some NilTarget, x)
      | Some c \<Rightarrow>
          (case Output R x ''pg_dump'' [''--version''] [] of
             (Inl e, x1) \<Rightarrow> (Some (VersionProbe e), x1)
           | (Inr v, x1) \<Rightarrow>
               if \<not> Contains (ToLower (string_of_bytes v)) ''pg_dump''
               then (Some (UnexpectedVersion (string_of_bytes v)), x1)
               else (case Output R x1 ''pg_dump'' (pg_connArgs c @ [''--schema-only'', ''--no-acl'', ''--no-owner'']) (pg_env c) of
                   (Inl e, x2) \<Rightarrow> (Some (SmokeProbe e), x2)
                 | (Inr _, x2) \<Rightarrow> (None, x2))))"

definition pgDump_Dump ::
  "'x cmdRunner \<Rightarrow> 'x \<Rightarrow> Target option \<Rightarrow> writer \<Rightarrow> (drv_err + DumpInfo) \<times> writer \<times> 'x" where
  "pgDump_Dump R x t out =
     (case target_conn t of
        None \<Rightarrow> (Inl NilTarget, out, x)
      | Some c \<Rightarrow>
          stream_then_version R x ''pg_dump''
            (pg_connArgs c @ [''--format=custom'', ''--no-owner'', ''--no-acl'', ''--serializable-deferrable'', ''--no-comments''])
            (pg_env c) ''PostgreSQL'' parsePgDumpVersion out)"

definition NewPgDump :: "'x os \<Rightarrow> 'x Driver" where
  "NewPgDump os =
     \<lparr>drv_Name = ''pg_dump'', drv_Validate = pgDump_Validate (realRunner os), drv_Dump = pgDump_Dump (realRunner os)\<rparr>"

section \<open>mysqldump\<close>

definition my_connArgs :: "ConnectionConfig \<Rightarrow> string list" where
  "my_connArgs c =
     opt_flag ''-h'' (cc_Host c) @ port_flag ''-P'' (cc_Port c) @ opt_flag ''-u'' (cc_Username c)
     @ (if cc_PasswordSecretRef c = [] then [] else [''--password='' @ cc_PasswordSecretRef c])
     @ (if cc_Database c = [] then [] else [cc_Database c])"

text \<open>The look for a MariaDB version token in \<open>parseMysqldumpVersion\<close>.\<close>

fun mariadb_field :: "string list \<Rightarrow> string option" where
  "mariadb_field [] = None"
| "mariadb_field (f # fs) =
     (if Contains (ToLower f) ''mariadb'' then Some (''MariaDB '' @ hd (SplitByte f (CHR ''-''))) else mariadb_field fs)"

definition parseMysqldumpVersion :: "string \<Rightarrow> string" where
  "parseMysqldumpVersion s0 =
     (let s = TrimSpace s0; low = ToLower s;
          first = (case Index low ''ver '' of
                     None \<Rightarrow> None
                   | Some i \<Rightarrow> (case Fields (drop (i + length ''Ver '') s) of v # vs \<Rightarrow> Some (''MySQL '' @ v) | [] \<Rightarrow> None));
          second = (case Index low ''mariadb'' of
                      None \<Rightarrow> None
                    | Some i \<Rightarrow> mariadb_field (FieldsFunc (\<lambda>r. r = CHR '' '' \<or> r = CHR '','' \<or> char_code r = 9) s))
      in case first of Some v \<Rightarrow> v | None \<Rightarrow> (case second of Some v \<Rightarrow> v | None \<Rightarrow> s))"

definition IsMysqldumpHeader :: "bytes \<Rightarrow> bool" where
  "IsMysqldumpHeader head \<longleftrightarrow>
     (if head = [] then False
      else let low = ToLower (string_of_bytes head)
           in HasPrefix low ''-- mysql dump'' \<or> HasPrefix low ''-- mariadb dump''
            \<or> HasPrefix low ''-- mysqldump'' \<or> HasPrefix low ''-- mariadb-dump'')"

definition mysqldump_Validate :: "'x cmdRunner \<Rightarrow> 'x \<Rightarrow> Target option \<Rightarrow> drv_err option \<times> 'x" where
  "mysqldump_Validate R x t =
     (case target_conn t of
        None \<Rightarrow> (Some NilTarget, x)
      | Some c \<Rightarrow>
          (case Output R x ''mysqldump'' [''--version''] [] of
             (Inl e, x1) \<Rightarrow> (Some (VersionProbe e), x1)
           | (Inr v, x1) \<Rightarrow>
               if \<not> Contains (ToLower (string_of_bytes v)) ''mysqldump''
               then (Some (UnexpectedVersion (string_of_bytes v)), x1)
               else (case Output R x1 ''mysqldump''
                       (my_connArgs c @ [''--no-data'', ''--no-create-info'', ''--skip-triggers'', ''--skip-comments'']) [] of
                   (Inl e, x2) \<Rightarrow> (Some (SmokeProbe e), x2)
                 | (Inr _, x2) \<Rightarrow> (None, x2))))"

definition mysqldump_Dump ::
  "'x cmdRunner \<Rightarrow> 'x \<Rightarrow> Target option \<Rightarrow> writer \<Rightarrow> (drv_err + DumpInfo) \<times> writer \<times> 'x" where
  "mysqldump_Dump R x t out =
     (case target_conn t of
        None \<Rightarrow> (Inl NilTarget, out, x)
      | Some c \<Rightarrow>
          stream_then_version R x ''mysqldump''
            (my_connArgs c @ [''--single-transaction'', ''--routines'', ''--triggers'', ''--events'', ''--quick'',
               ''--hex-blob'', ''--skip-extended-insert'']) [] ''MySQL'' parseMysqldumpVersion out)"

definition NewMysqldump :: "'x os \<Rightarrow> 'x Driver" where
  "NewMysqldump os =
     \<lparr>drv_Name = ''mysqldump'', drv_Validate = mysqldump_Validate (realRunner os), drv_Dump = mysqldump_Dump (realRunner os)\<rparr>"

section \<open>mongodump\<close>

definition mongo_connArgs :: "ConnectionConfig \<Rightarrow> string list" where
  "mongo_connArgs c =
     (if HasPrefix (cc_Host c) ''mongodb://'' \<or> HasPrefix (cc_Host c) ''mongodb+srv://''
      then [''--uri'', cc_Host c]
      else opt_flag ''--host'' (cc_Host c) @ port_flag ''--port'' (cc_Port c) @ opt_flag ''--username'' (cc_Username c)
        @ (if cc_PasswordSecretRef c = [] then []
           else [''--password'', cc_PasswordSecretRef c] @ [''--authenticationDatabase'', ''admin'']))
     @ opt_flag ''--db'' (cc_Database c)"

fun mongo_version_line :: "string list \<Rightarrow> string" where
  "mongo_version_line [] = ''MongoDB''"
| "mongo_version_line (l0 # ls) =
     (let l = TrimSpace l0
      in if HasPrefix (ToLower l) ''mongodump version:''
         then (case SplitN2 l (CHR '':'') of
                 [a, b] \<Rightarrow> ''MongoDB Tools '' @ TrimSpace b
               | _ \<Rightarrow> mongo_version_line ls)
         else mongo_version_line ls)"

definition parseMongodumpVersion :: "string \<Rightarrow> string" where
  "parseMongodumpVersion s = mongo_version_line (SplitByte (TrimSpace s) (char_of (10 :: nat)))"

definition IsMongodumpArchiveMagic :: "bytes \<Rightarrow> bool" where
  "IsMongodumpArchiveMagic head \<longleftrightarrow> take 2 head = [0x1f, 0x8b] \<or> take 4 head = [0x6d, 0xe2, 0x99, 0x81]"

definition mongoDump_Validate :: "'x cmdRunner \<Rightarrow> 'x \<Rightarrow> Target option \<Rightarrow> drv_err option \<times> 'x" where
  "mongoDump_Validate R x t =
     (case target_conn t of
        None \<Rightarrow> (Some NilTarget, x)
      | Some c \<Rightarrow>
          (case Output R x ''mongodump'' [''--version''] [] of
             (Inl e, x1) \<Rightarrow> (Some (VersionProbe e), x1)
           | (Inr v, x1) \<Rightarrow>
               if \<not> Contains (ToLower (string_of_bytes v)) ''mongodump''
               then (Some (UnexpectedVersion (string_of_bytes v)), x1)
               else (None, x1)))"

definition mongoDump_Dump ::
  "'x cmdRunner \<Rightarrow> 'x \<Rightarrow> Target option \<Rightarrow> writer \<Rightarrow> (drv_err + DumpInfo) \<times> writer \<times> 'x" where
  "mongoDump_Dump R x t out =
     (case target_conn t of
        None \<Rightarrow> (Inl NilTarget, out, x)
      | Some c \<Rightarrow>
          stream_then_version R x ''mongodump'' (mongo_connArgs c @ [''--archive'', ''--gzip'']) []
            ''MongoDB'' parseMongodumpVersion out)"

definition NewMongoDump :: "'x os \<Rightarrow> 'x Driver" where
  "NewMongoDump os =
     \<lparr>drv_Name = ''mongodump'', drv_Validate = mongoDump_Validate (realRunner os), drv_Dump = mongoDump_Dump (realRunner os)\<rparr>"

end
