(* ===== verification/Snapshot_Drivers.thy ===== *)
theory Snapshot_Drivers
  imports Drivers
begin

text \<open>
  \<open>internal/pipeline/redis.go\<close> and \<open>sqlite.go\<close>: the drivers that take a snapshot file and stream
  it. The polling loop of Redis has no bound of its own besides the clock, so it is a partial
  function: \<open>None\<close> is a loop that never returns, and that it does return is a theorem.
\<close>

section \<open>Redis\<close>

definition redis_binary :: string where "redis_binary = ''redis-cli''"

text \<open>250 milliseconds and 5 minutes, in nanoseconds.\<close>

definition pollInterval :: int where "pollInterval = 250 * 1000000"
definition pollTimeout :: int where "pollTimeout = 5 * 60 * 1000000000"

definition redis_connArgs :: "ConnectionConfig \<Rightarrow> string list" where
  "redis_connArgs c =
     opt_flag ''-h'' (cc_Host c) @ port_flag ''-p'' (cc_Port c)
     @ (if cc_PasswordSecretRef c = [] then [] else [''-a'', cc_PasswordSecretRef c, ''--no-auth-warning''])
     @ opt_flag ''--user'' (cc_Username c)
     @ (if cc_Database c \<noteq> [] \<and> ParseInt64 (cc_Database c) \<noteq> None then [''-n'', cc_Database c] else [])"

definition redis_Validate :: "'x cmdRunner \<Rightarrow> 'x \<Rightarrow> Target option \<Rightarrow> drv_err option \<times> 'x" where
  "redis_Validate R x t =
     (case target_conn t of
        None \<Rightarrow> (Some NilTarget, x)
      | Some c \<Rightarrow>
          (case Output R x redis_binary [''--version''] [] of
             (Inl e, x1) \<Rightarrow> (Some (VersionProbe e), x1)
           | (Inr v, x1) \<Rightarrow>
               if \<not> Contains (ToLower (string_of_bytes v)) ''redis-cli''
               then (Some (UnexpectedVersion (string_of_bytes v)), x1)
               else (case Output R x1 redis_binary (redis_connArgs c @ [''PING'']) [] of
                   (Inl e, x2) \<Rightarrow> (Some (PingFailed e), x2)
                 | (Inr p, x2) \<Rightarrow>
                     if \<not> Contains (ToUpper (string_of_bytes p)) ''PONG''
                     then (Some (PingUnexpected (string_of_bytes p)), x2)
                     else (None, x2))))"

definition redis_lastSave :: "'x cmdRunner \<Rightarrow> 'x \<Rightarrow> string list \<Rightarrow> (drv_err + int) \<times> 'x" where
  "redis_lastSave R x base =
     (case Output R x redis_binary (base @ [''LASTSAVE'']) [] of
        (Inl e, x1) \<Rightarrow> (Inl (LastSaveFailed e), x1)
      | (Inr v, x1) \<Rightarrow>
          let s = TrimSpace (string_of_bytes v)
          in (case ParseInt64 s of None \<Rightarrow> (Inl (LastSaveNotInteger s), x1) | Some ts \<Rightarrow> (Inr ts, x1)))"

partial_function (option) wait_loop ::
  "'x os \<Rightarrow> 'x cmdRunner \<Rightarrow> string list \<Rightarrow> int \<Rightarrow> int \<Rightarrow> 'x \<Rightarrow> (drv_err option \<times> 'x) option" where
  "wait_loop os R base prev deadline x =
     (if os_cancelled os x then Some (Some CtxDone, x)
      else case redis_lastSave R x base of
        (Inl e, x1) \<Rightarrow> Some (Some e, x1)
      | (Inr cur, x1) \<Rightarrow>
          if cur > prev then Some (None, x1)
          else if os_now os x1 > deadline then Some (Some SaveTimeout, x1)
          else let x2 = os_sleep os pollInterval x1
               in if os_cancelled os x2 then Some (Some CtxDone, x2)
                  else wait_loop os R base prev deadline x2)"

definition waitForSave ::
  "'x os \<Rightarrow> 'x cmdRunner \<Rightarrow> string list \<Rightarrow> int \<Rightarrow> 'x \<Rightarrow> (drv_err option \<times> 'x) option" where
  "waitForSave os R base prev x = wait_loop os R base prev (os_now os x + pollTimeout) x"

text \<open>The loop of \<open>config\<close> over the reply's lines, from the last one.\<close>

fun last_value :: "string \<Rightarrow> string list \<Rightarrow> string" where
  "last_value key [] = []"
| "last_value key (l # ls) =
     (let v = TrimSpace l in if v \<noteq> [] \<and> \<not> EqualFold v key then v else last_value key ls)"

definition newline :: char where "newline = char_of (10 :: nat)"

definition redis_config :: "'x cmdRunner \<Rightarrow> 'x \<Rightarrow> string list \<Rightarrow> string \<Rightarrow> (cmd_err + string) \<times> 'x" where
  "redis_config R x base key =
     (case Output R x redis_binary (base @ [''CONFIG'', ''GET'', key]) [] of
        (Inl e, x1) \<Rightarrow> (Inl e, x1)
      | (Inr v, x1) \<Rightarrow> (Inr (last_value key (rev (SplitByte (TrimSpace (string_of_bytes v)) newline))), x1))"

fun redis_version_line :: "string list \<Rightarrow> string" where
  "redis_version_line [] = ''Redis''"
| "redis_version_line (l # ls) =
     (let t = TrimSpace l
      in if HasPrefix t ''redis_version:'' then ''Redis '' @ TrimPrefix t ''redis_version:'' else redis_version_line ls)"

definition redis_serverVersion :: "'x cmdRunner \<Rightarrow> 'x \<Rightarrow> string list \<Rightarrow> string \<times> 'x" where
  "redis_serverVersion R x base =
     (case Output R x redis_binary (base @ [''INFO'', ''server'']) [] of
        (Inl e, x1) \<Rightarrow> (''Redis'', x1)
      | (Inr v, x1) \<Rightarrow> (redis_version_line (SplitByte (string_of_bytes v) newline), x1))"

text \<open>
  \<open>writeTarGz\<close>: one entry of the declared size (the \<open>tar\<close> writer refuses more bytes and, on
  \<open>Close\<close>, fewer), padded to blocks of 512 bytes and closed by two empty blocks.
\<close>

definition tar_stream :: "bytes \<Rightarrow> bytes \<Rightarrow> bytes" where
  "tar_stream hdr body = hdr @ body @ replicate ((512 - length body mod 512) mod 512) 0 @ replicate 1024 0"

definition writeTarGz ::
  "'x os \<Rightarrow> writer \<Rightarrow> string \<Rightarrow> nat \<Rightarrow> int \<Rightarrow> reader \<Rightarrow> drv_err option \<times> writer" where
  "writeTarGz os out name sz modTime src =
     (case os_tar_header os name sz modTime of
        None \<Rightarrow> (Some ArchiveFailed, fst (Write out (os_gzip os [])))
      | Some hdr \<Rightarrow>
          if sz < length (rd_data src) \<or> rd_end src \<noteq> EOF \<or> length (rd_data src) < sz
          then (Some ArchiveFailed, fst (Write out (os_gzip os (hdr @ take sz (rd_data src)))))
          else (case Write out (os_gzip os (tar_stream hdr (rd_data src))) of
              (out1, Some e) \<Rightarrow> (Some ArchiveFailed, out1)
            | (out1, None) \<Rightarrow> (None, out1)))"

text \<open>\<open>Dump\<close> after the snapshot has landed.\<close>

definition redis_archive ::
  "'x os \<Rightarrow> 'x cmdRunner \<Rightarrow> 'x \<Rightarrow> string list \<Rightarrow> writer \<Rightarrow> (drv_err + DumpInfo) \<times> writer \<times> 'x" where
  "redis_archive os R x base out =
     (case redis_config R x base ''dir'' of
        (Inl e, x1) \<Rightarrow> (Inl (ConfigGet ''dir'' e), out, x1)
      | (Inr dir, x1) \<Rightarrow>
        (case redis_config R x1 base ''dbfilename'' of
           (Inl e, x2) \<Rightarrow> (Inl (ConfigGet ''dbfilename'' e), out, x2)
         | (Inr name, x2) \<Rightarrow>
           if dir = [] \<or> name = [] then (Inl EmptyDumpPath, out, x2)
           else (case os_open os (Join2 dir name) x2 of
               None \<Rightarrow> (Inl (CannotRead (Join2 dir name)), out, x2)
             | Some (src, sz, mtime) \<Rightarrow>
               (case writeTarGz os out ''dump.rdb'' sz mtime src of
                  (Some e, out1) \<Rightarrow> (Inl e, out1, x2)
                | (None, out1) \<Rightarrow>
                    (case redis_serverVersion R x2 base of (v, x3) \<Rightarrow> (Inr \<lparr>EngineVersion = v\<rparr>, out1, x3))))))"

definition redis_Dump ::
  "'x os \<Rightarrow> 'x cmdRunner \<Rightarrow> 'x \<Rightarrow> Target option \<Rightarrow> writer \<Rightarrow> (drv_err + DumpInfo) \<times> writer \<times> 'x" where
  "redis_Dump os R x t out =
     (case target_conn t of
        None \<Rightarrow> (Inl NilTarget, out, x)
      | Some c \<Rightarrow>
        let base = redis_connArgs c
        in (case redis_lastSave R x base of
           (Inl e, x1) \<Rightarrow> (Inl e, out, x1)
         | (Inr prevSave, x1) \<Rightarrow>
           (case Output R x1 redis_binary (base @ [''BGSAVE'']) [] of
              (Inl e, x2) \<Rightarrow> (Inl (BgsaveFailed e), out, x2)
            | (Inr _, x2) \<Rightarrow>
              (case waitForSave os R base prevSave x2 of
                 None \<Rightarrow> (Inl NeverReturns, out, x2)
               | Some (Some e, x3) \<Rightarrow> (Inl e, out, x3)
               | Some (None, x3) \<Rightarrow> redis_archive os R x3 base out))))"

definition IsRedisTarGzMagic :: "bytes \<Rightarrow> bool" where
  "IsRedisTarGzMagic head \<longleftrightarrow> take 2 head = [0x1f, 0x8b]"

definition NewRedisDriver :: "'x os \<Rightarrow> 'x Driver" where
  "NewRedisDriver os =
     \<lparr>drv_Name = ''redis'', drv_Validate = redis_Validate (realRunner os), drv_Dump = redis_Dump os (realRunner os)\<rparr>"

section \<open>SQLite\<close>

definition sqlite_binary :: string where "sqlite_binary = ''sqlite3''"

definition looksLikeSqliteVersion :: "string \<Rightarrow> bool" where
  "looksLikeSqliteVersion s =
     (case Fields s of
        [] \<Rightarrow> False
      | f # fs \<Rightarrow> list_all (\<lambda>part. ParseInt64 part \<noteq> None) (SplitByte f (CHR ''.'')))"

definition sqlite_Validate :: "'x os \<Rightarrow> 'x cmdRunner \<Rightarrow> 'x \<Rightarrow> Target option \<Rightarrow> drv_err option \<times> 'x" where
  "sqlite_Validate os R x t =
     (case target_conn t of
        None \<Rightarrow> (Some NilTarget, x)
      | Some c \<Rightarrow>
          let path = cc_Database c
          in if path = [] then (Some MissingPath, x)
             else (case Output R x sqlite_binary [''--version''] [] of
                 (Inl e, x1) \<Rightarrow> (Some (VersionProbe e), x1)
               | (Inr v, x1) \<Rightarrow>
                   if \<not> looksLikeSqliteVersion (string_of_bytes v)
                   then (Some (UnexpectedVersion (string_of_bytes v)), x1)
                   else if \<not> os_stat os path x1 then (Some (CannotStat path), x1)
                   else (None, x1)))"

definition sqlite_versionString :: "'x cmdRunner \<Rightarrow> 'x \<Rightarrow> string \<times> 'x" where
  "sqlite_versionString R x =
     (case Output R x sqlite_binary [''--version''] [] of
        (Inl e, x1) \<Rightarrow> (''SQLite'', x1)
      | (Inr v, x1) \<Rightarrow> (case Fields (string_of_bytes v) of [] \<Rightarrow> (''SQLite'', x1) | f # fs \<Rightarrow> (''SQLite '' @ f, x1)))"

text \<open>The copy of the snapshot through \<open>gzip\<close>, after which the temporary file is removed.\<close>

definition sqlite_copy :: "'x os \<Rightarrow> writer \<Rightarrow> reader \<Rightarrow> drv_err option \<times> writer" where
  "sqlite_copy os out src =
     (case Write out (os_gzip os (rd_data src)) of
        (out1, we) \<Rightarrow> (if rd_end src \<noteq> EOF \<or> we \<noteq> None then Some GzipFailed else None, out1))"

definition sqlite_Dump ::
  "'x os \<Rightarrow> 'x cmdRunner \<Rightarrow> 'x \<Rightarrow> Target option \<Rightarrow> writer \<Rightarrow> (drv_err + DumpInfo) \<times> writer \<times> 'x" where
  "sqlite_Dump os R x t out =
     (case target_conn t of
        None \<Rightarrow> (Inl NilTarget, out, x)
      | Some c \<Rightarrow>
        let path = cc_Database c
        in if path = [] then (Inl MissingPath, out, x)
           else if \<not> os_stat os path x then (Inl (CannotStat path), out, x)
           else (case os_create_temp os x of
               (None, x1) \<Rightarrow> (Inl CreateTempFailed, out, x1)
             | (Some tmp, x1) \<Rightarrow>
               (case RunStream R x1 sqlite_binary [path, ''.backup '' @ [char_of (39 :: nat)] @ tmp @ [char_of (39 :: nat)]] [] (plain_writer []) of
                  (Some e, _, x2) \<Rightarrow> (Inl (DumpExec e), out, os_remove os tmp x2)
                | (None, _, x2) \<Rightarrow>
                  (case os_open os tmp x2 of
                     None \<Rightarrow> (Inl OpenSnapshot, out, os_remove os tmp x2)
                   | Some (src, sz, mtime) \<Rightarrow>
                     (case sqlite_copy os out src of
                        (Some e, out1) \<Rightarrow> (Inl e, out1, os_remove os tmp x2)
                      | (None, out1) \<Rightarrow>
                          (case sqlite_versionString R x2 of
                             (v, x3) \<Rightarrow> (Inr \<lparr>EngineVersion = v\<rparr>, out1, os_remove os tmp x3)))))))"

definition IsSqliteGzMagic :: "bytes \<Rightarrow> bool" where
  "IsSqliteGzMagic head \<longleftrightarrow> take 2 head = [0x1f, 0x8b]"

definition NewSqliteDriver :: "'x os \<Rightarrow> 'x Driver" where
  "NewSqliteDriver os =
     \<lparr>drv_Name = ''sqlite'', drv_Validate = sqlite_Validate os (streamingRunner os),
      drv_Dump = sqlite_Dump os (streamingRunner os)\<rparr>"

section \<open>The metadata probe\<close>

text \<open>
  \<open>probeSqliteMetadata\<close>, which the MVP build leaves without a driver. \<open>database/sql\<close> is a record: the
  registered drivers, and for a driver and a data source the integer each query returns.
\<close>

record sql_env =
  sql_Drivers :: "string list"
  sql_Open :: "string \<Rightarrow> string \<Rightarrow> (string \<Rightarrow> int option) option"

fun driver_in :: "string list \<Rightarrow> string \<Rightarrow> bool" where
  "driver_in [] name = False"
| "driver_in (d # ds) name = (if d = name then True else driver_in ds name)"

definition sqlDriverRegistered :: "sql_env \<Rightarrow> string \<Rightarrow> bool" where
  "sqlDriverRegistered se name = driver_in (sql_Drivers se) name"

datatype probe_err = SqlOpen | QueryUserVersion | QueryTableCount | NoSqliteDriver

fun probe_names :: "sql_env \<Rightarrow> string \<Rightarrow> string list \<Rightarrow> probe_err + (int \<times> int)" where
  "probe_names se path [] = Inl NoSqliteDriver"
| "probe_names se path (name # names) =
     (if \<not> sqlDriverRegistered se name then probe_names se path names
      else case sql_Open se name (''file:'' @ path @ ''?mode=ro'') of
          None \<Rightarrow> Inl SqlOpen
        | Some query \<Rightarrow>
            (case query ''PRAGMA user_version'' of
               None \<Rightarrow> Inl QueryUserVersion
             | Some uv \<Rightarrow>
                 (case query (''SELECT count(*) FROM sqlite_master WHERE type='' @ [char_of (39 :: nat)] @ ''table'' @ [char_of (39 :: nat)]) of
                    None \<Rightarrow> Inl QueryTableCount
                  | Some tc \<Rightarrow> Inr (uv, tc))))"

definition probeSqliteMetadata :: "sql_env \<Rightarrow> string \<Rightarrow> probe_err + (int \<times> int)" where
  "probeSqliteMetadata se path = probe_names se path [''sqlite'', ''sqlite3'']"

lemma driver_in_set: "driver_in ds name \<longleftrightarrow> name \<in> set ds"
  by (induction ds) auto

text \<open>Without a registered driver, as in the build of this repository, the probe reports just that.\<close>

lemma probe_without_driver:
  "''sqlite'' \<notin> set (sql_Drivers se) \<Longrightarrow> ''sqlite3'' \<notin> set (sql_Drivers se) \<Longrightarrow> probeSqliteMetadata se path = Inl NoSqliteDriver"
  by (simp add: probeSqliteMetadata_def sqlDriverRegistered_def driver_in_set)

end
