(* ===== verification/Driver_Props.thy ===== *)
theory Driver_Props
  imports Snapshot_Drivers
begin

text \<open>
  What the pipeline relies on from a driver, as a locale that all five drivers fulfil, and the
  properties of single drivers: where a password can be seen, that the wait for a Redis snapshot
  ends, and what the Redis archive contains.
\<close>

section \<open>The Driver interface\<close>

locale driver =
  fixes D :: "'x Driver"
  assumes validate_nil: "target_conn t = None \<Longrightarrow> drv_Validate D x t = (Some NilTarget, x)"
    and dump_nil: "target_conn t = None \<Longrightarrow> drv_Dump D x t out = (Inl NilTarget, out, x)"
    and dump_appends: "drv_Dump D x t out = (r, out', x') \<Longrightarrow> \<exists>q. wr_data out' = wr_data out @ q"
begin

text \<open>A dump into an empty writer with a limit writes at most that much, one without a limit too.\<close>

lemma dump_nil_writes_nothing: "target_conn t = None \<Longrightarrow> wr_data (fst (snd (drv_Dump D x t (plain_writer [])))) = []"
  by (simp add: dump_nil)

lemma dump_keeps: "take (length (wr_data out)) (wr_data (fst (snd (drv_Dump D x t out)))) = wr_data out"
  using dump_appends [of x t out] by (metis append_eq_conv_conj prod.collapse)

end

text \<open>Every writer operation of the drivers appends.\<close>

definition appends :: "writer \<Rightarrow> writer \<Rightarrow> bool" where
  "appends w w' \<longleftrightarrow> (\<exists>q. wr_data w' = wr_data w @ q)"

lemma appends_refl [simp]: "appends w w"
  by (simp add: appends_def)

lemma appends_Write: "appends w (fst (Write w p))"
  using Write_grows [of w p] by (cases "Write w p") (auto simp: appends_def)

lemma appends_run_copying: "appends out (fst (snd (snd (run_copying os x name args env out))))"
  using appends_Write by (simp add: run_copying_def case_prod_beta')

lemma appends_real: "appends out (fst (snd (realRunner_RunStream os x name args env out)))"
  using appends_run_copying [of out os x name args env]
  by (cases "run_copying os x name args env out") (simp add: realRunner_RunStream_def split: exec_status.split)

lemma appends_then_version:
  assumes "\<And>x name args env. appends out (fst (snd (RunStream R x name args env out)))"
  shows "appends out (fst (snd (stream_then_version R x b args env d p out)))"
  using assms [of x b args env] by (auto simp: stream_then_version_def split: option.split sum.split prod.splits)

lemma appends_writeTarGz: "appends out (snd (writeTarGz os out name sz mt src))"
  by (auto simp: writeTarGz_def appends_Write split: option.split prod.split) (metis appends_Write fst_conv)+

lemma appends_redis_archive: "appends out (fst (snd (redis_archive os R x base out)))"
proof -
  have "appends out w" if "writeTarGz os out n sz mt src = (e, w)" for e w n sz mt src
    using appends_writeTarGz [of out os n sz mt src] that by simp
  then show ?thesis
    by (auto simp: redis_archive_def split: sum.split option.split prod.split)
qed

lemma appends_redis_Dump: "appends out (fst (snd (redis_Dump os R x t out)))"
  by (auto simp: redis_Dump_def appends_redis_archive Let_def split: option.split sum.split prod.split)

lemma appends_sqlite_Dump: "appends out (fst (snd (sqlite_Dump os R x t out)))"
proof -
  have "appends out w" if "sqlite_copy os out src = (e, w)" for e w src
    using appends_Write [of out "os_gzip os (rd_data src)"] that by (auto simp: sqlite_copy_def split: prod.splits)
  then show ?thesis
    by (auto simp: sqlite_Dump_def Let_def split: option.split sum.split prod.split)
qed

lemma driverI:
  assumes "\<And>t x. target_conn t = None \<Longrightarrow> drv_Validate D x t = (Some NilTarget, x)"
    and "\<And>t x out. target_conn t = None \<Longrightarrow> drv_Dump D x t out = (Inl NilTarget, out, x)"
    and "\<And>x t out. appends out (fst (snd (drv_Dump D x t out)))"
  shows "driver D"
  using assms by unfold_locales (auto simp: appends_def, metis fst_conv snd_conv)

lemma appends_stream_real:
  "appends out (fst (snd (stream_then_version (realRunner os) x b args env d p out)))"
  by (rule appends_then_version) (simp add: realRunner_def appends_real)

interpretation pg: driver "NewPgDump os" for os
  by (rule driverI) (auto simp: NewPgDump_def pgDump_Validate_def pgDump_Dump_def appends_stream_real split: option.split)

interpretation mysql: driver "NewMysqldump os" for os
  by (rule driverI) (auto simp: NewMysqldump_def mysqldump_Validate_def mysqldump_Dump_def appends_stream_real split: option.split)

interpretation mongo: driver "NewMongoDump os" for os
  by (rule driverI) (auto simp: NewMongoDump_def mongoDump_Validate_def mongoDump_Dump_def appends_stream_real split: option.split)

interpretation redis: driver "NewRedisDriver os" for os
  by (rule driverI) (auto simp: NewRedisDriver_def redis_Validate_def redis_Dump_def appends_redis_Dump [unfolded redis_Dump_def])

interpretation sqlite: driver "NewSqliteDriver os" for os
  by (rule driverI) (auto simp: NewSqliteDriver_def sqlite_Validate_def sqlite_Dump_def appends_sqlite_Dump [unfolded sqlite_Dump_def])

section \<open>The wait for a snapshot\<close>

text \<open>A clock that no command turns back and that a sleep advances by at least its length.\<close>

definition clock_advances :: "'x os \<Rightarrow> bool" where
  "clock_advances os \<longleftrightarrow> (\<forall>x name args env. os_now os x \<le> os_now os (snd (os_exec os name args env x)))
     \<and> (\<forall>x d. os_now os x + d \<le> os_now os (os_sleep os d x))"

lemma lastSave_clock:
  assumes "clock_advances os" "redis_lastSave (realRunner os) x base = (r, x1)"
  shows "os_now os x \<le> os_now os x1"
proof -
  have "snd (redis_lastSave (realRunner os) x base)
      = snd (os_exec os redis_binary (base @ [''LASTSAVE'']) (mergeEnv (os_environ os) []) x)"
    by (simp add: redis_lastSave_def realRunner_def realRunner_Output_def Let_def
        split: prod.split sum.split exec_status.split option.split)
  with assms show ?thesis by (simp add: clock_advances_def)
qed

lemma wait_loop_returns:
  assumes "clock_advances os"
  shows "deadline < os_now os x + int n * pollInterval \<Longrightarrow>
    \<exists>res. wait_loop os (realRunner os) base prev deadline x = Some res"
proof (induction n arbitrary: x)
  case 0
  obtain r x1 where s: "redis_lastSave (realRunner os) x base = (r, x1)" by fastforce
  with 0 lastSave_clock [OF assms s] show ?case by (subst wait_loop.simps) (auto split: sum.split)
next
  case (Suc n)
  obtain r x1 where s: "redis_lastSave (realRunner os) x base = (r, x1)" by fastforce
  have "os_now os x1 + pollInterval \<le> os_now os (os_sleep os pollInterval x1)"
    using assms by (simp add: clock_advances_def)
  with Suc.prems lastSave_clock [OF assms s]
  have "deadline < os_now os (os_sleep os pollInterval x1) + int n * pollInterval" by (simp add: algebra_simps)
  with Suc.IH s show ?case by (subst wait_loop.simps) (auto simp: Let_def split: sum.split)
qed

section \<open>A server for the witnesses\<close>

text \<open>
  Its state counts commands: \<open>LASTSAVE\<close> answers with the count, \<open>CONFIG GET\<close> with two lines, the key
  and its value. There is one file.
\<close>

definition snapshot_os :: "int os" where
  "snapshot_os = \<lparr>os_exec = (\<lambda>_ args _ x.
       (\<lparr>ex_stdout = bytes_of_string (if last args = ''LASTSAVE'' then FormatUint (nat x)
            else if last args = ''dir'' then ''dir'' @ [newline] @ ''/data''
            else if last args = ''dbfilename'' then ''dbfilename'' @ [newline] @ ''r.rdb'' else ''ok''), ex_stderr = [],
         ex_status = ExecOk\<rparr>, x + 1)),
     os_environ = [], os_now = id, os_sleep = (+), os_cancelled = (\<lambda>_. False), os_stat = (\<lambda>_ _. True),
     os_open = (\<lambda>p _. if p = ''/data/r.rdb'' then Some (reader_of [1, 2], 2, 0) else None),
     os_create_temp = (\<lambda>x. (None, x)), os_remove = (\<lambda>_ x. x), os_gzip = id,
     os_tar_header = (\<lambda>_ _ _. Some [9])\<rparr>"

definition example_target :: Target where
  "example_target = \<lparr>tg_Id = ''t'', tg_Type = REDIS, tg_DisplayName = [], tg_Connection = Some
     \<lparr>cc_Host = [], cc_Port = 0, cc_Database = [], cc_Username = [], cc_PasswordSecretRef = [], cc_ContainerId = [],
      cc_Strategy = TCP\<rparr>\<rparr>"

section \<open>Properties\<close>

text \<open>C38: The wait for a Redis snapshot ends: with a clock that advances, \<open>waitForSave\<close> returns, whatever
  the server answers.\<close>

theorem redis_wait_returns:
  assumes "clock_advances os"
  shows "\<exists>err x'. waitForSave os (realRunner os) base prev x = Some (err, x')"
proof -
  have "os_now os x + pollTimeout < os_now os x + int 1201 * pollInterval"
    by (simp add: pollTimeout_def pollInterval_def)
  from wait_loop_returns [OF assms this, of base prev] show ?thesis by (auto simp: waitForSave_def)
qed

definition example_os :: "int os" where
  "example_os = \<lparr>os_exec = (\<lambda>_ _ _ x. (\<lparr>ex_stdout = bytes_of_string ''7'', ex_stderr = [], ex_status = ExecOk\<rparr>, x)),
     os_environ = [], os_now = id, os_sleep = (+), os_cancelled = (\<lambda>_. False), os_stat = (\<lambda>_ _. True),
     os_open = (\<lambda>_ _. None), os_create_temp = (\<lambda>x. (None, x)), os_remove = (\<lambda>_ x. x), os_gzip = id,
     os_tar_header = (\<lambda>_ _ _. Some [])\<rparr>"

theorem redis_wait_returns_witness:
  "\<exists>err x'. waitForSave example_os (realRunner example_os) [] 7 0 = Some (err, x')"
  by (rule redis_wait_returns) (simp add: clock_advances_def example_os_def)

text \<open>What the server answered: a time to \<open>LASTSAVE\<close>, and a value to \<open>CONFIG GET\<close>, in the last line that says something besides the key.\<close>

definition saved_at :: "'x cmdRunner \<Rightarrow> string list \<Rightarrow> 'x \<Rightarrow> int \<Rightarrow> 'x \<Rightarrow> bool" where
  "saved_at R base x ts x' \<longleftrightarrow>
     (\<exists>v. Output R x ''redis-cli'' (base @ [''LASTSAVE'']) [] = (Inr v, x') \<and> ParseInt64 (TrimSpace (string_of_bytes v)) = Some ts)"

definition configured :: "'x cmdRunner \<Rightarrow> string list \<Rightarrow> string \<Rightarrow> 'x \<Rightarrow> string \<Rightarrow> 'x \<Rightarrow> bool" where
  "configured R base key x val x' \<longleftrightarrow> val \<noteq> [] \<and>
     (\<exists>v ls ls'. Output R x ''redis-cli'' (base @ [''CONFIG'', ''GET'', key]) [] = (Inr v, x')
        \<and> map TrimSpace (SplitByte (TrimSpace (string_of_bytes v)) newline) = ls @ val # ls'
        \<and> (\<forall>l \<in> set ls'. l = [] \<or> EqualFold l key) \<and> \<not> EqualFold val key)"

lemma lastSave_saved_at: "redis_lastSave R x base = (Inr ts, x') \<Longrightarrow> saved_at R base x ts x'"
  by (auto simp: redis_lastSave_def saved_at_def redis_binary_def Let_def split: prod.splits sum.splits option.splits)

lemma last_value_line:
  "last_value key ls = v \<Longrightarrow> v \<noteq> [] \<Longrightarrow> \<exists>pre post. map TrimSpace ls = pre @ v # post \<and> (\<forall>l \<in> set pre. l = [] \<or> EqualFold l key) \<and> \<not> EqualFold v key"
proof (induction key ls rule: last_value.induct)
  case (2 key l ls)
  show ?case
  proof (cases "TrimSpace l \<noteq> [] \<and> \<not> EqualFold (TrimSpace l) key")
    case True
    with 2(2) show ?thesis by (intro exI [of _ "[]"] exI [of _ "map TrimSpace ls"]) auto
  next
    case False
    with 2 obtain pre post where "map TrimSpace ls = pre @ v # post" "\<forall>l \<in> set pre. l = [] \<or> EqualFold l key" "\<not> EqualFold v key"
      by (auto simp: Let_def)
    with False show ?thesis by (intro exI [of _ "TrimSpace l # pre"] exI [of _ post]) auto
  qed
qed simp

lemma config_configured:
  assumes "redis_config R x base key = (Inr val, x')" "val \<noteq> []"
  shows "configured R base key x val x'"
proof -
  from assms(1) obtain v where v: "Output R x ''redis-cli'' (base @ [''CONFIG'', ''GET'', key]) [] = (Inr v, x')"
    "last_value key (rev (SplitByte (TrimSpace (string_of_bytes v)) newline)) = val"
    by (auto simp: redis_config_def redis_binary_def split: prod.splits sum.splits)
  from last_value_line [OF v(2) assms(2)] obtain pre post where
    "rev (map TrimSpace (SplitByte (TrimSpace (string_of_bytes v)) newline)) = pre @ val # post"
    "\<forall>l \<in> set pre. l = [] \<or> EqualFold l key" "\<not> EqualFold val key"
    by (auto simp: rev_map)
  moreover from this(1) have "map TrimSpace (SplitByte (TrimSpace (string_of_bytes v)) newline) = rev post @ val # rev pre"
    by (metis (no_types) append.assoc append_Cons append_Nil rev.simps(2) rev_append rev_rev_ident)
  ultimately show ?thesis unfolding configured_def using v(1) assms(2) by (metis set_rev)
qed

text \<open>The wait ends without an error only on a \<open>LASTSAVE\<close> that has moved on.\<close>

lemma wait_loop_saved:
  assumes "wait_loop os R base prev deadline x = Some res"
  shows "fst res = None \<longrightarrow> (\<exists>y cur. saved_at R base y cur (snd res) \<and> prev < cur)"
proof (rule wait_loop.raw_induct [where xa = "(((((os, R), base), prev), deadline), x)" and y = res
      and P = "\<lambda>os R base prev deadline x res. fst res = None \<longrightarrow> (\<exists>y cur. saved_at R base y cur (snd res) \<and> prev < cur)",
      unfolded split, OF _ assms])
  fix loop :: "'a os \<Rightarrow> 'a cmdRunner \<Rightarrow> string list \<Rightarrow> int \<Rightarrow> int \<Rightarrow> 'a \<Rightarrow> (drv_err option \<times> 'a) option"
    and os :: "'a os" and R :: "'a cmdRunner" and base prev deadline and x :: 'a and res :: "drv_err option \<times> 'a"
  assume IH: "\<And>os R base prev deadline x res. loop os R base prev deadline x = Some res
      \<Longrightarrow> fst res = None \<longrightarrow> (\<exists>y cur. saved_at R base y cur (snd res) \<and> prev < cur)"
    and body: "(if os_cancelled os x then Some (Some CtxDone, x)
      else case redis_lastSave R x base of
        (Inl e, x1) \<Rightarrow> Some (Some e, x1)
      | (Inr cur, x1) \<Rightarrow>
          if cur > prev then Some (None, x1)
          else if os_now os x1 > deadline then Some (Some SaveTimeout, x1)
          else let x2 = os_sleep os pollInterval x1
               in if os_cancelled os x2 then Some (Some CtxDone, x2) else loop os R base prev deadline x2) = Some res"
  show "fst res = None \<longrightarrow> (\<exists>y cur. saved_at R base y cur (snd res) \<and> prev < cur)"
  proof (cases "redis_lastSave R x base")
    case (Pair r x1)
    show ?thesis
    proof (cases r)
      case (Inl e)
      with Pair body show ?thesis by (auto split: if_splits)
    next
      case (Inr cur)
      show ?thesis
      proof (cases "prev < cur")
        case True
        with Pair Inr body have "res = (if os_cancelled os x then (Some CtxDone, x) else (None, x1))" by (auto split: if_splits)
        moreover from Pair Inr have "saved_at R base x cur x1" by (simp add: lastSave_saved_at)
        ultimately show ?thesis using True by (cases "os_cancelled os x") (simp_all, blast)
      next
        case False
        with Pair Inr body IH show ?thesis by (auto simp: Let_def split: if_splits)
      qed
    qed
  qed
qed

text \<open>C39: A Redis backup is the snapshot that the server took for it: when \<open>Dump\<close> succeeds, the server had
  answered \<open>BGSAVE\<close>, and afterwards \<open>LASTSAVE\<close> with a later time than before; the file opened then
  is the one whose directory and name the server gave, it was read to its end and had the size
  declared in the archive, and what was written is the gzip stream of the archive with exactly
  that content.\<close>

theorem redis_dump_is_snapshot:
  assumes "redis_Dump os R x t (plain_writer []) = (Inr info, w, x')"
  shows "\<exists>c prev x1 ok x2 y cur x3 dir x4 name x5 src sz mtime hdr.
      Option.bind t tg_Connection = Some c \<and> saved_at R (redis_connArgs c) x prev x1
    \<and> Output R x1 ''redis-cli'' (redis_connArgs c @ [''BGSAVE'']) [] = (Inr ok, x2)
    \<and> saved_at R (redis_connArgs c) y cur x3 \<and> prev < cur
    \<and> configured R (redis_connArgs c) ''dir'' x3 dir x4 \<and> configured R (redis_connArgs c) ''dbfilename'' x4 name x5
    \<and> os_open os (Join2 dir name) x5 = Some (src, sz, mtime)
    \<and> rd_end src = EOF \<and> length (rd_data src) = sz \<and> os_tar_header os ''dump.rdb'' sz mtime = Some hdr
    \<and> wr_data w = os_gzip os (tar_stream hdr (rd_data src))"
proof -
  from assms obtain c prev x1 ok x2 x3 where c: "Option.bind t tg_Connection = Some c"
    "redis_lastSave R x (redis_connArgs c) = (Inr prev, x1)"
    "Output R x1 ''redis-cli'' (redis_connArgs c @ [''BGSAVE'']) [] = (Inr ok, x2)"
    "waitForSave os R (redis_connArgs c) prev x2 = Some (None, x3)"
    "redis_archive os R x3 (redis_connArgs c) (plain_writer []) = (Inr info, w, x')"
    by (auto simp: redis_Dump_def target_conn_def redis_binary_def Let_def split: option.splits sum.splits prod.splits)
  from c(5) obtain dir x4 name x5 src sz mtime where o': "redis_config R x3 (redis_connArgs c) ''dir'' = (Inr dir, x4)" "dir \<noteq> []"
    "redis_config R x4 (redis_connArgs c) ''dbfilename'' = (Inr name, x5)" "name \<noteq> []"
    "os_open os (Join2 dir name) x5 = Some (src, sz, mtime)" "writeTarGz os (plain_writer []) ''dump.rdb'' sz mtime src = (None, w)"
    by (auto simp: redis_archive_def split: option.splits sum.splits prod.splits if_splits)
  from o'(6) obtain hdr where h: "os_tar_header os ''dump.rdb'' sz mtime = Some hdr" "rd_end src = EOF"
    "length (rd_data src) = sz" "wr_data w = os_gzip os (tar_stream hdr (rd_data src))"
    by (auto simp: writeTarGz_def split: option.splits prod.splits if_splits)
  obtain y cur where later: "saved_at R (redis_connArgs c) y cur x3" "prev < cur"
    using wait_loop_saved [OF c(4) [unfolded waitForSave_def]] by auto
  from c(1,3) lastSave_saved_at [OF c(2)] later config_configured [OF o'(1,2)] config_configured [OF o'(3,4)] o'(5) h
  show ?thesis by blast
qed

theorem redis_dump_is_snapshot_witness:
  "\<exists>w. redis_Dump snapshot_os (realRunner snapshot_os) 0 (Some example_target) (plain_writer []) = (Inr \<lparr>EngineVersion = ''Redis''\<rparr>, w, 6)
    \<and> (\<exists>prev x1 y cur x3 dir x4 name x5 src sz mtime hdr. saved_at (realRunner snapshot_os) [] 0 prev x1
       \<and> saved_at (realRunner snapshot_os) [] y cur x3 \<and> prev < cur
       \<and> configured (realRunner snapshot_os) [] ''dir'' x3 dir x4 \<and> configured (realRunner snapshot_os) [] ''dbfilename'' x4 name x5
       \<and> os_open snapshot_os (Join2 dir name) x5 = Some (src, sz, mtime) \<and> wr_data w = os_gzip snapshot_os (tar_stream hdr (rd_data src)))"
proof -
  let ?R = "realRunner snapshot_os"
  have "redis_lastSave ?R 2 [] = (Inr 2, 3)" by code_simp
  then have wait: "waitForSave snapshot_os ?R [] 0 2 = Some (None, 3)"
    unfolding waitForSave_def by (subst wait_loop.simps) (simp add: snapshot_os_def)
  have parts: "redis_connArgs (the (tg_Connection example_target)) = []" "redis_lastSave ?R 0 [] = (Inr 0, 1)"
    "Output ?R 1 redis_binary [''BGSAVE''] [] = (Inr (bytes_of_string ''ok''), 2)" by code_simp+
  have arch: "redis_archive snapshot_os ?R 3 [] (plain_writer [])
      = (Inr \<lparr>EngineVersion = ''Redis''\<rparr>, plain_writer (tar_stream [9] [1, 2]), 6)"
    by code_simp
  from wait parts arch have d: "redis_Dump snapshot_os ?R 0 (Some example_target) (plain_writer [])
      = (Inr \<lparr>EngineVersion = ''Redis''\<rparr>, plain_writer (tar_stream [9] [1, 2]), 6)"
    by (simp add: redis_Dump_def target_conn_def example_target_def)
  have base: "Option.bind (Some example_target) tg_Connection = Some c \<Longrightarrow> redis_connArgs c = []" for c
    using parts(1) by (simp add: example_target_def)
  from redis_dump_is_snapshot [OF d] d base show ?thesis by metis
qed

text \<open>A system that records the command lines and whose programs answer by them.\<close>

definition logging_os :: "(string \<Rightarrow> string list \<Rightarrow> exec_result) \<Rightarrow> (string \<times> string list) list os" where
  "logging_os answer = \<lparr>os_exec = (\<lambda>name args env x. (answer name args, x @ [(name, args)])),
     os_environ = [], os_now = (\<lambda>_. 0), os_sleep = (\<lambda>_ x. x), os_cancelled = (\<lambda>_. False), os_stat = (\<lambda>_ _. True),
     os_open = (\<lambda>_ _. None), os_create_temp = (\<lambda>x. (None, x)), os_remove = (\<lambda>_ x. x), os_gzip = id,
     os_tar_header = (\<lambda>_ _ _. None)\<rparr>"

lemma logging_env: "Output (realRunner (logging_os answer)) x n a e = Output (realRunner (logging_os answer)) x n a e'"
  "RunStream (realRunner (logging_os answer)) x n a e out = RunStream (realRunner (logging_os answer)) x n a e' out"
  by (simp_all add: realRunner_def realRunner_Output_def realRunner_RunStream_def run_copying_def logging_os_def)

text \<open>The PostgreSQL password is never on a command line: whatever the programs answer to their
  command lines, two targets that differ only in the password make \<open>Validate\<close> and \<open>Dump\<close> start
  the same programs with the same arguments, in the same order, and end the same way.\<close>

theorem pg_password_not_in_argv:
  "drv_Validate (NewPgDump (logging_os answer)) x (Some (t\<lparr>tg_Connection := Some (c\<lparr>cc_PasswordSecretRef := p\<rparr>)\<rparr>))
     = drv_Validate (NewPgDump (logging_os answer)) x (Some (t\<lparr>tg_Connection := Some (c\<lparr>cc_PasswordSecretRef := p'\<rparr>)\<rparr>))
   \<and> drv_Dump (NewPgDump (logging_os answer)) x (Some (t\<lparr>tg_Connection := Some (c\<lparr>cc_PasswordSecretRef := p\<rparr>)\<rparr>)) out
     = drv_Dump (NewPgDump (logging_os answer)) x (Some (t\<lparr>tg_Connection := Some (c\<lparr>cc_PasswordSecretRef := p'\<rparr>)\<rparr>)) out"
proof -
  have args: "pg_connArgs (c\<lparr>cc_PasswordSecretRef := p\<rparr>) = pg_connArgs (c\<lparr>cc_PasswordSecretRef := p'\<rparr>)"
    by (simp add: pg_connArgs_def)
  show ?thesis
    unfolding NewPgDump_def Driver.simps pgDump_Validate_def pgDump_Dump_def stream_then_version_def target_conn_def
    using args logging_env(1) [of answer _ _ _ "pg_env (c\<lparr>cc_PasswordSecretRef := p\<rparr>)" "pg_env (c\<lparr>cc_PasswordSecretRef := p'\<rparr>)"]
      logging_env(2) [of answer _ _ _ "pg_env (c\<lparr>cc_PasswordSecretRef := p\<rparr>)" _ "pg_env (c\<lparr>cc_PasswordSecretRef := p'\<rparr>)"]
    by (auto split: prod.split sum.split)
qed

text \<open>The other drivers do put it there, and the MySQL driver reports a MariaDB server as MySQL.\<close>

lemma mysql_password_in_argv: "cc_PasswordSecretRef c \<noteq> [] \<Longrightarrow> ''--password='' @ cc_PasswordSecretRef c \<in> set (my_connArgs c)"
  by (simp add: my_connArgs_def)

lemma mariadb_reported_as_mysql:
  "parseMysqldumpVersion ''mysqldump  Ver 10.19 Distrib 10.11.6-MariaDB, for debian-linux-gnu (x86_64)'' = ''MySQL 10.19''"
  by code_simp

end
