(* ===== verification/Runner.thy ===== *)
theory Runner
  imports Encrypt Hooks Drivers
begin

text \<open>
  \<open>internal/pipeline/runner.go\<close>, \<open>compress.go\<close> and \<open>upload.go\<close>: one backup run from the request
  to the report. The four stages run concurrently over \<open>io.Pipe\<close>s; since each only reads what the
  one before it wrote, they are composed in order. What concurrency leaves open are three numbers
  and a choice: after how many bytes the reading end of each pipe was closed with an error (\<open>None\<close>
  where it was not), and which of several errors arrived first. Every statement holds for all of
  them. The zstd encoder, SHA-256, the HTTP client and the temporary file are arguments. \<open>Pipes\<close>
  has the goroutines and their pipes step by step, and \<open>Pipe_Props\<close> compares the two.
\<close>

section \<open>compress.go\<close>

text \<open>\<open>zs_encode\<close>: what the encoder has written once it is closed after the given input.\<close>

record zstd =
  zs_new_ok :: bool
  zs_encode :: "bytes \<Rightarrow> bytes"

datatype comp_err = ZstdNewWriter | ZstdCopy | ZstdWrite

text \<open>\<open>countingWriter\<close>: the bytes that got through to the wrapped writer.\<close>

record countingWriter =
  cw_w :: writer
  cw_n :: nat

definition countingWriter_Write :: "countingWriter \<Rightarrow> bytes \<Rightarrow> countingWriter \<times> wr_err option" where
  "countingWriter_Write c p =
     (case Write (cw_w c) p of
        (w, err) \<Rightarrow> (c\<lparr>cw_w := w, cw_n := cw_n c + (length (wr_data w) - length (wr_data (cw_w c)))\<rparr>, err))"

text \<open>\<open>NewZstdWriter\<close> hands out the encoder itself, or the error of its construction.\<close>

definition NewZstdWriter :: "zstd \<Rightarrow> comp_err + (bytes \<Rightarrow> bytes)" where
  "NewZstdWriter z = (if zs_new_ok z then Inr (zs_encode z) else Inl ZstdNewWriter)"

text \<open>The counts are those of the plain bytes read and of the bytes that reached \<open>out\<close>.\<close>

definition CompressZstd :: "zstd \<Rightarrow> reader \<Rightarrow> writer \<Rightarrow> nat \<times> nat \<times> comp_err option \<times> writer" where
  "CompressZstd z inp out =
     (if \<not> zs_new_ok z then (0, 0, Some ZstdNewWriter, out)
      else case countingWriter_Write \<lparr>cw_w = out, cw_n = 0\<rparr> (zs_encode z (rd_data inp)) of
          (cw, we) \<Rightarrow>
            let n = length (rd_data inp)
            in if rd_end inp \<noteq> EOF then (n, cw_n cw, Some ZstdCopy, cw_w cw)
               else if we \<noteq> None then (n, cw_n cw, Some ZstdWrite, cw_w cw)
               else (n, cw_n cw, None, cw_w cw))"

lemma CompressZstd_cases:
  "CompressZstd z inp out =
     (if \<not> zs_new_ok z then (0, 0, Some ZstdNewWriter, out)
      else case Write out (zs_encode z (rd_data inp)) of
          (out1, we) \<Rightarrow>
            let n = length (rd_data inp); m = length (wr_data out1) - length (wr_data out)
            in if rd_end inp \<noteq> EOF then (n, m, Some ZstdCopy, out1)
               else if we \<noteq> None then (n, m, Some ZstdWrite, out1)
               else (n, m, None, out1))"
  by (simp add: CompressZstd_def countingWriter_Write_def Let_def split: prod.split)

section \<open>upload.go\<close>

text \<open>The HTTP client: no limit on a request as a whole, times in nanoseconds.\<close>

record upload_client =
  hc_Timeout :: int
  hc_ResponseHeaderTimeout :: int
  hc_ExpectContinueTimeout :: int

definition NewUploader :: upload_client where
  "NewUploader = \<lparr>hc_Timeout = 0, hc_ResponseHeaderTimeout = 30 * 1000000000, hc_ExpectContinueTimeout = 5 * 1000000000\<rparr>"

definition NewUploaderWithClient :: "upload_client \<Rightarrow> upload_client" where
  "NewUploaderWithClient c = c"

text \<open>\<open>countingReader\<close>: reading from the wrapped reader, with the bytes read so far.\<close>

record countingReader =
  cr_r :: reader
  cr_n :: nat

definition countingReader_Read :: "countingReader \<Rightarrow> nat \<Rightarrow> countingReader \<times> bytes" where
  "countingReader_Read c k =
     (let p = take k (rd_data (cr_r c))
      in (c\<lparr>cr_r := (cr_r c)\<lparr>rd_data := drop k (rd_data (cr_r c))\<rparr>, cr_n := cr_n c + length p\<rparr>, p))"

text \<open>However the client cuts its reads, the count is that of the bytes it has got.\<close>

lemma countingReader_counts:
  "countingReader_Read c k = (c', p) \<Longrightarrow> cr_n c + length (rd_data (cr_r c)) = cr_n c' + length (rd_data (cr_r c')) \<and> cr_n c' = cr_n c + length p"
  by (auto simp: countingReader_Read_def Let_def)

record put_request =
  pr_url :: string
  pr_content_length :: "int option"
  pr_content_type :: string
  pr_body :: bytes

text \<open>The reply says how many bytes of the body were read.\<close>

datatype put_reply = PutBuildFailed | PutDoFailed nat | PutResponse int nat

datatype put_err = BuildPut | DoPut | UploadStatus int

type_synonym http_put = "put_request \<Rightarrow> put_reply"

definition Uploader_Put ::
  "http_put \<Rightarrow> (bytes \<Rightarrow> bytes) \<Rightarrow> string \<Rightarrow> bytes \<Rightarrow> int \<Rightarrow> put_request \<times> (put_err + string) \<times> nat" where
  "Uploader_Put http sha256 presignedURL body contentLength =
     (let req = \<lparr>pr_url = presignedURL, pr_content_length = (if contentLength \<ge> 0 then Some contentLength else None),
                 pr_content_type = ''application/octet-stream'', pr_body = body\<rparr>
      in case http req of
          PutBuildFailed \<Rightarrow> (req, Inl BuildPut, 0)
        | PutDoFailed n \<Rightarrow> (req, Inl DoPut, n)
        | PutResponse status n \<Rightarrow>
            if status div 100 \<noteq> 2 then (req, Inl (UploadStatus status), n)
            else (req, Inr (HexEncode (sha256 (take n body))), n))"

section \<open>Smoke validation\<close>

definition trimForLog :: "bytes \<Rightarrow> string" where
  "trimForLog b0 =
     (let b = (if length b0 > 32 then take 32 b0 else b0)
      in TrimSpace (string_of_bytes (map (\<lambda>c. if c < 0x20 \<or> 0x7f \<le> c then 0x2e else c) b)))"

datatype smoke_err = PeekFailed io_err | MissingPgMagic string | MissingMysqlBanner string

text \<open>\<open>br.Peek(n)\<close>: the first bytes, and the reader's error where there are fewer.\<close>

definition Peek :: "reader \<Rightarrow> nat \<Rightarrow> bytes \<times> io_err option" where
  "Peek r n = (take n (rd_data r), if length (rd_data r) < n then Some (rd_end r) else None)"

text \<open>The reader handed on replays the peeked bytes, so only the verdict is returned.\<close>

definition smokeValidatedReader :: "reader \<Rightarrow> string \<Rightarrow> smoke_err option" where
  "smokeValidatedReader r driverName =
     (if driverName = ''pg_dump'' then
        (case Peek r (length PgDumpMagic) of
           (head, err) \<Rightarrow>
             if err \<noteq> None \<and> err \<noteq> Some EOF then Some (PeekFailed (the err))
             else if \<not> IsPgDumpMagic head then Some (MissingPgMagic (trimForLog head)) else None)
      else if driverName = ''mysqldump'' then
        (case Peek r 32 of
           (head, err) \<Rightarrow>
             if err \<noteq> None \<and> err \<noteq> Some EOF \<and> err \<noteq> Some ErrUnexpectedEOF then Some (PeekFailed (the err))
             else if \<not> IsMysqldumpHeader head then Some (MissingMysqlBanner (trimForLog head)) else None)
      else None)"

section \<open>Staging\<close>

text \<open>The temporary file: whether it can be created, how much the disk takes, closing, reopening.\<close>

record stage_fs =
  tmp_create :: bool
  tmp_room :: "nat option"
  tmp_close :: bool
  tmp_open :: bool

datatype stage_file_err = StageCreate | StageCopy | StageClose | StageOpen

text \<open>The size, the content of the file (\<open>None\<close>: no file) and the error.\<close>

definition stageEncryptedBody :: "stage_fs \<Rightarrow> reader \<Rightarrow> nat \<times> bytes option \<times> stage_file_err option" where
  "stageEncryptedBody fs src =
     (if \<not> tmp_create fs then (0, None, Some StageCreate)
      else case Write \<lparr>wr_data = [], wr_room = tmp_room fs, wr_full = FullErr\<rparr> (rd_data src) of
          (f, we) \<Rightarrow>
            let n = length (wr_data f)
            in if we \<noteq> None \<or> rd_end src \<noteq> EOF then (n, Some (wr_data f), Some StageCopy)
               else if \<not> tmp_close fs then (n, Some (wr_data f), Some StageClose)
               else (n, Some (wr_data f), None))"

section \<open>The Runner\<close>

type_synonym DEKResolver = "bytes \<Rightarrow> bytes option"

record 'x Runner =
  rn_drivers :: "string \<rightharpoonup> 'x Driver"
  rn_uploader :: "(uint32 option \<Rightarrow> http_put) option"
  rn_dekResolver :: DEKResolver
  rn_targetLookup :: "(string \<rightharpoonup> Target) option"
  rn_jobLookup :: "(string \<rightharpoonup> BackupJobSpec) option"

definition passthroughDEK :: DEKResolver where
  "passthroughDEK inp = (if length inp \<noteq> dekSize then None else Some inp)"

definition WithDEKResolver :: "DEKResolver \<Rightarrow> 'x Runner \<Rightarrow> 'x Runner" where
  "WithDEKResolver d r = r\<lparr>rn_dekResolver := d\<rparr>"

definition WithTargetLookup :: "(string \<rightharpoonup> Target) \<Rightarrow> 'x Runner \<Rightarrow> 'x Runner" where
  "WithTargetLookup t r = r\<lparr>rn_targetLookup := Some t\<rparr>"

definition WithJobLookup :: "(string \<rightharpoonup> BackupJobSpec) \<Rightarrow> 'x Runner \<Rightarrow> 'x Runner" where
  "WithJobLookup j r = r\<lparr>rn_jobLookup := Some j\<rparr>"

definition NewRunner ::
  "(string \<rightharpoonup> 'x Driver) \<Rightarrow> (uint32 option \<Rightarrow> http_put) option \<Rightarrow> ('x Runner \<Rightarrow> 'x Runner) list \<Rightarrow> 'x Runner" where
  "NewRunner drivers uploader opts =
     foldl (\<lambda>r opt. opt r)
       \<lparr>rn_drivers = drivers, rn_uploader = uploader, rn_dekResolver = passthroughDEK,
        rn_targetLookup = None, rn_jobLookup = None\<rparr> opts"

definition dbTypeKey :: "DbType \<Rightarrow> string" where
  "dbTypeKey t =
     (case t of
        POSTGRESQL \<Rightarrow> ''postgresql'' | MYSQL \<Rightarrow> ''mysql'' | MARIADB \<Rightarrow> ''mariadb'' | MONGODB \<Rightarrow> ''mongodb''
      | REDIS \<Rightarrow> ''redis'' | SQLITE \<Rightarrow> ''sqlite'' | DB_UNSPECIFIED \<Rightarrow> ToLower ''DB_UNSPECIFIED'')"

datatype stage_err =
    StageDump drv_err
  | StageSmoke smoke_err
  | StageCompress comp_err
  | StagePassthrough
  | StageEncrypt enc_err
  | StageUpload "stage_file_err + put_err"

datatype run_err =
    NilRunBackup
  | MissingUploadCreds
  | NoUploader
  | UnknownJob string
  | UnknownTarget string
  | CannotResolve string
  | NoConnection
  | NoDriver string
  | UnwrapDEK
  | BuildEncryptor enc_err
  | ValidateStage drv_err
  | PreHookFailed nat hook_error
  | StageErr stage_err

definition resolve :: "'x Runner \<Rightarrow> RunBackupMsg \<Rightarrow> run_err + (BackupJobSpec option \<times> Target)" where
  "resolve r req =
     res_bind
       (case rn_jobLookup r of
          None \<Rightarrow> Inr None
        | Some jl \<Rightarrow> (case jl (rb_JobId req) of None \<Rightarrow> Inl (UnknownJob (rb_JobId req)) | Some j \<Rightarrow> Inr (Some j)))
       (\<lambda>job.
         res_bind
           (case rn_targetLookup r of
              None \<Rightarrow> Inr None
            | Some tl' \<Rightarrow>
                (case job of
                   None \<Rightarrow> Inl (UnknownTarget (rb_JobId req))
                 | Some j \<Rightarrow>
                     (case tl' (bj_TargetId j) of
                        None \<Rightarrow> Inl (UnknownTarget (rb_JobId req)) | Some t \<Rightarrow> Inr (Some t))))
           (\<lambda>target.
             case target of
               None \<Rightarrow> Inl (CannotResolve (rb_JobId req))
             | Some t \<Rightarrow> if tg_Connection t = None then Inl NoConnection else Inr (job, t)))"

section \<open>Hooks around a run\<close>

text \<open>A hook is recorded with its error, if any, and the duration that is logged for it.\<close>

datatype run_event =
    EvValidate
  | EvPreHook string "hook_error option" int
  | EvDump
  | EvPut put_request
  | EvPostHook string "hook_error option" int
  | EvMetric string bool "uint64 option"

fun run_pre_hooks ::
  "shell \<Rightarrow> string list \<Rightarrow> HookSet \<Rightarrow> nat \<Rightarrow> string list \<Rightarrow> HookSet \<times> (nat \<times> hook_error) option \<times> run_event list" where
  "run_pre_hooks sh os_env h i [] = (h, None, [])"
| "run_pre_hooks sh os_env h i (cmd # cmds) =
     (if i \<ge> HooksMaxCount then (h, None, [])
      else case HookSet_Run sh os_env h cmd None 0 of
          (h1, res, Some e) \<Rightarrow> (h1, Some (i, e), [EvPreHook cmd (Some e) (Duration res)])
        | (h1, res, None) \<Rightarrow>
            (case run_pre_hooks sh os_env h1 (i + 1) cmds of
               (h2, r, evs) \<Rightarrow> (h2, r, EvPreHook cmd None (Duration res) # evs)))"

fun run_post_hooks :: "shell \<Rightarrow> string list \<Rightarrow> HookSet \<Rightarrow> nat \<Rightarrow> string list \<Rightarrow> run_event list" where
  "run_post_hooks sh os_env h i [] = []"
| "run_post_hooks sh os_env h i (cmd # cmds) =
     (if i \<ge> HooksMaxCount then []
      else case HookSet_Run sh os_env h cmd None 0 of
          (h1, res, e) \<Rightarrow> EvPostHook cmd e (Duration res) # run_post_hooks sh os_env h1 (i + 1) cmds)"

section \<open>The four stages\<close>

text \<open>
  \<open>pe_shell\<close> takes the time-out of the context a hook runs under, \<open>pe_pick\<close> says which error
  arrived first.
\<close>

record pipe_env =
  pe_shell :: "uint32 option \<Rightarrow> shell"
  pe_os_env :: "string list"
  pe_rng :: rng
  pe_zstd :: zstd
  pe_cut_dump :: "nat option"
  pe_cut_compressed :: "nat option"
  pe_cut_encrypted :: "nat option"
  pe_fs :: stage_fs
  pe_sha256 :: "bytes \<Rightarrow> bytes"
  pe_elapsed_ms :: uint64
  pe_pick :: nat

definition pipe_writer :: "nat option \<Rightarrow> writer" where
  "pipe_writer k = \<lparr>wr_data = [], wr_room = k, wr_full = FullErr\<rparr>"

text \<open>The reading end of a pipe: a failed writer closes it with its error.\<close>

definition pipe_reader :: "nat \<Rightarrow> writer \<Rightarrow> 'e option \<Rightarrow> reader" where
  "pipe_reader n w e = \<lparr>rd_data = wr_data w, rd_end = (if e = None then EOF else OtherErr n)\<rparr>"

definition stage_dump ::
  "pipe_env \<Rightarrow> 'x Driver \<Rightarrow> Target \<Rightarrow> 'x \<Rightarrow> stage_err option \<times> DumpInfo \<times> reader \<times> 'x" where
  "stage_dump pe d t x =
     (case drv_Dump d x (Some t) (pipe_writer (pe_cut_dump pe)) of
        (Inl e, w, x1) \<Rightarrow> (Some (StageDump e), \<lparr>EngineVersion = []\<rparr>, pipe_reader 1 w (Some e), x1)
      | (Inr info, w, x1) \<Rightarrow> (None, info, pipe_reader 1 w (None :: drv_err option), x1))"

definition stage_compress :: "pipe_env \<Rightarrow> string \<Rightarrow> reader \<Rightarrow> stage_err option \<times> reader" where
  "stage_compress pe driverName dumpR =
     (case smokeValidatedReader dumpR driverName of
        Some e \<Rightarrow> (Some (StageSmoke e), pipe_reader 2 (pipe_writer (pe_cut_compressed pe)) (Some e))
      | None \<Rightarrow>
          (case CompressZstd (pe_zstd pe) dumpR (pipe_writer (pe_cut_compressed pe)) of
             (_, _, e, w) \<Rightarrow> (map_option StageCompress e, pipe_reader 2 w e)))"

definition stage_encrypt :: "pipe_env \<Rightarrow> Encryptor option \<Rightarrow> reader \<Rightarrow> stage_err option \<times> reader" where
  "stage_encrypt pe encryptor compR =
     (case encryptor of
        None \<Rightarrow>
          (case Write (pipe_writer (pe_cut_encrypted pe)) (rd_data compR) of
             (w, we) \<Rightarrow>
               let e = (if we \<noteq> None \<or> rd_end compR \<noteq> EOF then Some StagePassthrough else None)
               in (e, pipe_reader 3 w e))
      | Some enc \<Rightarrow>
          (case Encryptor_Stream (Some enc) (pe_rng pe) compR (pipe_writer (pe_cut_encrypted pe)) of
             (_, e, w) \<Rightarrow> (map_option StageEncrypt e, pipe_reader 3 w e)))"

text \<open>Stage 4: the error, the digest, the number of uploaded bytes and the events.\<close>

definition stage_upload ::
  "pipe_env \<Rightarrow> http_put \<Rightarrow> string \<Rightarrow> reader \<Rightarrow> stage_err option \<times> string \<times> nat \<times> run_event list" where
  "stage_upload pe http url' encR =
     (case stageEncryptedBody (pe_fs pe) encR of
        (stagedSize, f, Some e) \<Rightarrow> (Some (StageUpload (Inl e)), [], 0, [])
      | (stagedSize, f, None) \<Rightarrow>
          if \<not> tmp_open (pe_fs pe) then (Some (StageUpload (Inl StageOpen)), [], 0, [])
          else (case Uploader_Put http (pe_sha256 pe) url' (the f) (int stagedSize) of
              (req, Inl e, n) \<Rightarrow> (Some (StageUpload (Inr e)), [], n, [EvPut req])
            | (req, Inr sha, n) \<Rightarrow> (None, sha, n, [EvPut req])))"

text \<open>The first error to arrive, of those there are.\<close>

definition firstErr :: "nat \<Rightarrow> stage_err option list \<Rightarrow> stage_err option" where
  "firstErr pick results =
     (let errs = filter (\<lambda>e. e \<noteq> None) results
      in if errs = [] then None else errs ! (pick mod length errs))"

definition run_pipeline ::
  "pipe_env \<Rightarrow> 'x Driver \<Rightarrow> Target \<Rightarrow> Encryptor option \<Rightarrow> http_put \<Rightarrow> S3UploadCreds \<Rightarrow> RunBackupMsg \<Rightarrow> 'x
     \<Rightarrow> (run_err + BackupCompleted) \<times> run_event list \<times> 'x" where
  "run_pipeline pe d t encryptor http creds req x =
     (case stage_dump pe d t x of
        (e1, info, dumpR, x1) \<Rightarrow>
      (case stage_compress pe (drv_Name d) dumpR of
        (e2, compR) \<Rightarrow>
      (case stage_encrypt pe encryptor compR of
        (e3, encR) \<Rightarrow>
      (case stage_upload pe http (up_PresignedPutUrl creds) encR of
        (e4, sha, n, evs) \<Rightarrow>
          (case firstErr (pe_pick pe) [e1, e2, e3, e4] of
             Some e \<Rightarrow> (Inl (StageErr e), EvDump # evs, x1)
           | None \<Rightarrow>
               (Inr \<lparr>bc_JobId = rb_JobId req, bc_RunId = rb_RunId req, bc_S3Key = up_FinalS3Key creds,
                     bc_SizeBytes = of_nat n, bc_Sha256 = sha, bc_DurationMs = pe_elapsed_ms pe, bc_DekKmsId = [],
                     bc_EncryptedDek = rb_EncryptedDek req, bc_Compression = ''zstd'',
                     bc_DbEngineVersion = EngineVersion info\<rparr>, EvDump # evs, x1))))))"

section \<open>Run\<close>

text \<open>From the hooks on; \<open>tmo\<close> is the job's time-out where it has one.\<close>

definition run_hooked ::
  "pipe_env \<Rightarrow> 'x Driver \<Rightarrow> BackupJobSpec option \<Rightarrow> Target \<Rightarrow> Encryptor option \<Rightarrow> (uint32 option \<Rightarrow> http_put)
     \<Rightarrow> S3UploadCreds \<Rightarrow> RunBackupMsg \<Rightarrow> 'x \<Rightarrow> (run_err + BackupCompleted) \<times> run_event list \<times> 'x" where
  "run_hooked pe d job t encryptor put creds req x =
     (let tmo = (case job of None \<Rightarrow> None | Some j \<Rightarrow> if bj_TimeoutSec j > 0 then Some (bj_TimeoutSec j) else None);
          pre = (case job of None \<Rightarrow> [] | Some j \<Rightarrow> bj_PreHooks j);
          post = (case job of None \<Rightarrow> [] | Some j \<Rightarrow> bj_PostHooks j)
      in case run_pre_hooks (pe_shell pe tmo) (pe_os_env pe) NewHookSet 0 pre of
          (h, Some (i, e), evs) \<Rightarrow> (Inl (PreHookFailed i e), evs, x)
        | (h, None, evs) \<Rightarrow>
            (case run_pipeline pe d t encryptor (put tmo) creds req x of
               (r, evs1, x1) \<Rightarrow>
                 (r, evs @ evs1 @ run_post_hooks (pe_shell pe None) (pe_os_env pe) h 0 post, x1)))"

definition build_encryptor :: "'x Runner \<Rightarrow> bytes \<Rightarrow> run_err + Encryptor option" where
  "build_encryptor r encryptedDek =
     (if length encryptedDek > 0 then
        (case rn_dekResolver r encryptedDek of
           None \<Rightarrow> Inl UnwrapDEK
         | Some dek' \<Rightarrow> (case NewEncryptor dek' of Inl e \<Rightarrow> Inl (BuildEncryptor e) | Inr enc \<Rightarrow> Inr (Some enc)))
      else Inr None)"

definition run_started ::
  "'x Runner \<Rightarrow> pipe_env \<Rightarrow> (uint32 option \<Rightarrow> http_put) \<Rightarrow> S3UploadCreds \<Rightarrow> RunBackupMsg \<Rightarrow> 'x
     \<Rightarrow> (run_err + BackupCompleted) \<times> run_event list \<times> 'x" where
  "run_started r pe put creds req x =
     (case resolve r req of
        Inl e \<Rightarrow> (Inl e, [], x)
      | Inr (job, t) \<Rightarrow>
        (case rn_drivers r (dbTypeKey (tg_Type t)) of
           None \<Rightarrow> (Inl (NoDriver (dbTypeKey (tg_Type t))), [], x)
         | Some d \<Rightarrow>
           (case build_encryptor r (rb_EncryptedDek req) of
              Inl e \<Rightarrow> (Inl e, [], x)
            | Inr encryptor \<Rightarrow>
              (case drv_Validate d x (Some t) of
                 (Some e, x1) \<Rightarrow> (Inl (ValidateStage e), [EvValidate], x1)
               | (None, x1) \<Rightarrow>
                   (case run_hooked pe d job t encryptor put creds req x1 of
                      (res, evs, x2) \<Rightarrow> (res, EvValidate # evs, x2))))))"

text \<open>
  \<open>Run\<close>: the report or the error, the observable events in order, and the state of the system.
  The last event is the deferred update of the metrics: job, success, uploaded size.
\<close>

definition Runner_Run ::
  "'x Runner \<Rightarrow> pipe_env \<Rightarrow> 'x \<Rightarrow> RunBackupMsg option \<Rightarrow> (run_err + BackupCompleted) \<times> run_event list \<times> 'x" where
  "Runner_Run r pe x req =
     (case req of
        None \<Rightarrow> (Inl NilRunBackup, [], x)
      | Some rq \<Rightarrow>
        (case rb_UploadCreds rq of
           None \<Rightarrow> (Inl MissingUploadCreds, [], x)
         | Some creds \<Rightarrow>
           if up_PresignedPutUrl creds = [] then (Inl MissingUploadCreds, [], x)
           else (case rn_uploader r of
              None \<Rightarrow> (Inl NoUploader, [], x)
            | Some put \<Rightarrow>
              (case run_started r pe put creds rq x of
                 (Inl e, evs, x1) \<Rightarrow> (Inl e, evs @ [EvMetric (rb_JobId rq) False None], x1)
               | (Inr c, evs, x1) \<Rightarrow> (Inr c, evs @ [EvMetric (rb_JobId rq) True (Some (bc_SizeBytes c))], x1)))))"

text \<open>\<open>wipe\<close>.\<close>

definition wipe :: "bytes \<Rightarrow> bytes" where
  "wipe b = map (\<lambda>_. 0) b"

end
