(* ===== verification/Runner_Props.thy ===== *)
theory Runner_Props
  imports Runner Backup_Restore
begin

text \<open>
  Properties of a backup run: only complete dumps are uploaded, what a successful run reports and
  uploaded restores the dump, when the hooks run, what decides about encryption, and that a run
  with working parts succeeds.
\<close>

section \<open>What reaches the end of a stage\<close>

lemma Write_None: "Write w p = (w', None) \<Longrightarrow> wr_data w' = wr_data w @ p"
  by (auto simp: Write_def split: option.splits if_splits)

lemma pipe_reader_simps [simp]:
  "rd_data (pipe_reader n w e) = wr_data w" "rd_end (pipe_reader n w e) = (if e = None then EOF else OtherErr n)"
  by (simp_all add: pipe_reader_def)

lemma wr_data_pipe_writer [simp]: "wr_data (pipe_writer k) = []"
  by (simp add: pipe_writer_def)

lemma stage_upload_put:
  assumes "stage_upload pe http u encR = (e, sha, n, evs)" "EvPut pr \<in> set evs"
  shows "rd_end encR = EOF \<and> pr_body pr = rd_data encR \<and> pr_url pr = u"
  using assms
  by (auto simp: stage_upload_def stageEncryptedBody_def Uploader_Put_def Let_def
      split: prod.splits option.splits if_splits sum.splits put_reply.splits dest!: Write_None)

lemma stage_upload_ok:
  assumes "stage_upload pe http u encR = (None, sha, n, evs)"
  shows "\<exists>pr st. evs = [EvPut pr] \<and> http pr = PutResponse st n \<and> st div 100 = 2 \<and> pr_body pr = rd_data encR
    \<and> rd_end encR = EOF \<and> sha = HexEncode (pe_sha256 pe (take n (pr_body pr))) \<and> pr_url pr = u"
  using assms
  by (auto simp: stage_upload_def stageEncryptedBody_def Uploader_Put_def Let_def
      split: prod.splits option.splits if_splits sum.splits put_reply.splits dest!: Write_None)

text \<open>What is stored for a dump: the compressed bytes, or a stream of frames of them.\<close>

definition stored_body :: "pipe_env \<Rightarrow> Encryptor option \<Rightarrow> bytes \<Rightarrow> bytes \<Rightarrow> bool" where
  "stored_body pe encr dump b \<longleftrightarrow>
     (case encr of
        None \<Rightarrow> b = zs_encode (pe_zstd pe) dump
      | Some en \<Rightarrow> \<exists>A xs. enc_aead en = Some A \<and> b = encoded_stream A xs
          \<and> concat (map snd xs) = zs_encode (pe_zstd pe) dump \<and> (\<forall>(w, p) \<in> set xs. length p \<le> ChunkPlainSize))"

lemma stage_encrypt_complete:
  assumes "stage_encrypt pe encr compR = (e, encR)" "rd_end encR = EOF"
    and "rd_end compR \<noteq> ErrUnexpectedEOF" "rd_data compR = zs_encode (pe_zstd pe) dump"
  shows "e = None \<and> rd_end compR = EOF \<and> stored_body pe encr dump (rd_data encR)"
proof (cases encr)
  case None
  with assms show ?thesis
    by (auto simp: stage_encrypt_def stored_body_def Let_def split: prod.splits if_splits dest!: Write_None)
next
  case (Some en)
  obtain t err w where S: "Encryptor_Stream (Some en) (pe_rng pe) compR (pipe_writer (pe_cut_encrypted pe)) = (t, err, w)"
    by (metis prod_cases3)
  with assms(1,2) Some have e: "err = None" "e = None" "rd_data encR = wr_data w"
    by (auto simp: stage_encrypt_def split: if_splits)
  with S obtain A where A: "enc_aead en = Some A"
    "stream_loop A (pe_rng pe) 0 0 compR (pipe_writer (pe_cut_encrypted pe)) = (t, None, w)"
    by (auto simp: Encryptor_Stream_def split: option.splits)
  from stream_loop_outcome [OF A(2)] have "stream_prefix A (rd_data compR) (wr_data w) True" by auto
  then obtain xs where "wr_data w = encoded_stream A xs" "concat (map snd xs) = rd_data compR"
    "\<forall>(w, p) \<in> set xs. length p \<le> ChunkPlainSize" by (auto simp: stream_prefix_def)
  with e A(1) Some assms(4) have "stored_body pe encr dump (rd_data encR)" by (auto simp: stored_body_def)
  with e stream_loop_clean [OF A(2)] assms(3) show ?thesis by simp
qed

lemma stage_compress_complete:
  assumes "stage_compress pe name dumpR = (e, compR)"
  shows "rd_end compR \<noteq> ErrUnexpectedEOF
    \<and> (rd_end compR = EOF \<longrightarrow> e = None \<and> rd_end dumpR = EOF \<and> smokeValidatedReader dumpR name = None
        \<and> rd_data compR = zs_encode (pe_zstd pe) (rd_data dumpR))"
  using assms
  by (auto simp: stage_compress_def CompressZstd_cases Let_def split: option.splits prod.splits if_splits dest!: Write_None)

lemma stage_encrypt_end:
  assumes "stage_encrypt pe encr compR = (e, encR)" "rd_end encR = EOF" "rd_end compR \<noteq> ErrUnexpectedEOF"
  shows "rd_end compR = EOF"
proof (cases encr)
  case None
  with assms show ?thesis by (auto simp: stage_encrypt_def Let_def split: prod.splits if_splits)
next
  case (Some en)
  with assms stream_loop_clean show ?thesis
    by (auto simp: stage_encrypt_def Encryptor_Stream_def split: prod.splits if_splits option.splits) blast
qed

lemma stage_dump_complete:
  assumes "stage_dump pe d t x = (e, info, dumpR, x1)" "rd_end dumpR = EOF"
  shows "\<exists>w. e = None \<and> drv_Dump d x (Some t) (pipe_writer (pe_cut_dump pe)) = (Inr info, w, x1) \<and> dumpR = reader_of (wr_data w)"
  using assms by (auto simp: stage_dump_def pipe_reader_def reader_of_def split: prod.splits sum.splits)

section \<open>The pipeline\<close>

lemma firstErr_None: "firstErr k es = None \<longleftrightarrow> (\<forall>e \<in> set es. e = None)"
proof -
  let ?es = "filter (\<lambda>e. e \<noteq> None) es"
  show ?thesis
  proof (cases "?es = []")
    case True
    then show ?thesis by (simp add: firstErr_def Let_def filter_empty_conv)
  next
    case False
    then have "?es ! (k mod length ?es) \<in> set ?es" by (intro nth_mem) simp
    then have "firstErr k es \<noteq> None" "firstErr k es \<in> set es" using False by (auto simp: firstErr_def Let_def)
    then show ?thesis by metis
  qed
qed

text \<open>The dump behind what the pipeline passes on, stage by stage.\<close>

definition complete_dump ::
  "pipe_env \<Rightarrow> 'x Driver \<Rightarrow> Target \<Rightarrow> Encryptor option \<Rightarrow> 'x \<Rightarrow> DumpInfo \<Rightarrow> bytes \<Rightarrow> 'x \<Rightarrow> bytes \<Rightarrow> bool" where
  "complete_dump pe d t encr x info dump x1 b \<longleftrightarrow>
     (\<exists>w. drv_Dump d x (Some t) (pipe_writer (pe_cut_dump pe)) = (Inr info, w, x1) \<and> dump = wr_data w)
     \<and> smokeValidatedReader (reader_of dump) (drv_Name d) = None \<and> stored_body pe encr dump b"

lemma stages_complete:
  assumes "stage_dump pe d t x = (e1, info, dumpR, x1)" "stage_compress pe (drv_Name d) dumpR = (e2, compR)"
    and "stage_encrypt pe encr compR = (e3, encR)" "rd_end encR = EOF"
  shows "complete_dump pe d t encr x info (rd_data dumpR) x1 (rd_data encR)"
proof -
  note c = stage_compress_complete [OF assms(2)]
  have comp: "rd_end compR = EOF" by (rule stage_encrypt_end [OF assms(3,4)]) (use c in simp)
  with c have d: "rd_end dumpR = EOF" "smokeValidatedReader dumpR (drv_Name d) = None"
    "rd_data compR = zs_encode (pe_zstd pe) (rd_data dumpR)" by simp_all
  from stage_encrypt_complete [OF assms(3,4) _ d(3)] c have "stored_body pe encr (rd_data dumpR) (rd_data encR)" by simp
  with stage_dump_complete [OF assms(1) d(1)] d(2) show ?thesis by (auto simp: complete_dump_def)
qed

lemma run_pipeline_put:
  assumes "run_pipeline pe d t encr http creds rq x = (res, evs, x1)" "EvPut pr \<in> set evs"
  shows "\<exists>info dump. complete_dump pe d t encr x info dump x1 (pr_body pr) \<and> pr_url pr = up_PresignedPutUrl creds"
proof -
  obtain e1 info dumpR x2 where s1: "stage_dump pe d t x = (e1, info, dumpR, x2)" by (metis prod_cases4)
  obtain e2 compR where s2: "stage_compress pe (drv_Name d) dumpR = (e2, compR)" by fastforce
  obtain e3 encR where s3: "stage_encrypt pe encr compR = (e3, encR)" by fastforce
  obtain e4 sha n evs1 where s4: "stage_upload pe http (up_PresignedPutUrl creds) encR = (e4, sha, n, evs1)"
    by (metis prod_cases4)
  from assms s1 s2 s3 s4 have "x1 = x2" "EvPut pr \<in> set evs1"
    by (auto simp: run_pipeline_def split: option.splits)
  with stage_upload_put [OF s4] stages_complete [OF s1 s2 s3] show ?thesis by auto
qed

lemma run_pipeline_ok:
  assumes "run_pipeline pe d t encr http creds rq x = (Inr bc, evs, x1)"
  shows "\<exists>info dump pr st n. complete_dump pe d t encr x info dump x1 (pr_body pr) \<and> EvPut pr \<in> set evs
    \<and> http pr = PutResponse st n \<and> st div 100 = 2
    \<and> bc_Sha256 bc = HexEncode (pe_sha256 pe (take n (pr_body pr))) \<and> bc_SizeBytes bc = of_nat n
    \<and> bc_JobId bc = rb_JobId rq \<and> bc_RunId bc = rb_RunId rq \<and> bc_EncryptedDek bc = rb_EncryptedDek rq
    \<and> bc_DbEngineVersion bc = EngineVersion info \<and> pr_url pr = up_PresignedPutUrl creds \<and> bc_S3Key bc = up_FinalS3Key creds"
proof -
  obtain e1 info dumpR x2 where s1: "stage_dump pe d t x = (e1, info, dumpR, x2)" by (metis prod_cases4)
  obtain e2 compR where s2: "stage_compress pe (drv_Name d) dumpR = (e2, compR)" by fastforce
  obtain e3 encR where s3: "stage_encrypt pe encr compR = (e3, encR)" by fastforce
  obtain e4 sha n evs1 where s4: "stage_upload pe http (up_PresignedPutUrl creds) encR = (e4, sha, n, evs1)"
    by (metis prod_cases4)
  from assms s1 s2 s3 s4 have r: "x1 = x2" "evs = EvDump # evs1" "firstErr (pe_pick pe) [e1, e2, e3, e4] = None"
    "bc = \<lparr>bc_JobId = rb_JobId rq, bc_RunId = rb_RunId rq, bc_S3Key = up_FinalS3Key creds,
           bc_SizeBytes = of_nat n, bc_Sha256 = sha, bc_DurationMs = pe_elapsed_ms pe, bc_DekKmsId = [],
           bc_EncryptedDek = rb_EncryptedDek rq, bc_Compression = ''zstd'', bc_DbEngineVersion = EngineVersion info\<rparr>"
    by (auto simp: run_pipeline_def split: option.splits)
  from r(3) s4 have "stage_upload pe http (up_PresignedPutUrl creds) encR = (None, sha, n, evs1)"
    by (simp add: firstErr_None)
  from stage_upload_ok [OF this] obtain pr st where pr: "evs1 = [EvPut pr]" "http pr = PutResponse st n" "st div 100 = 2"
    "pr_body pr = rd_data encR" "rd_end encR = EOF" "sha = HexEncode (pe_sha256 pe (take n (pr_body pr)))"
    "pr_url pr = up_PresignedPutUrl creds" by blast
  from stages_complete [OF s1 s2 s3 pr(5)] pr r show ?thesis
    by (intro exI [of _ info] exI [of _ "rd_data dumpR"] exI [of _ pr] exI [of _ st] exI [of _ n]) simp
qed

section \<open>The hooks\<close>

text \<open>The commands handed to \<open>HookSet.Run\<close>, which runs or skips them, and the time it has charged.\<close>

fun pre_commands :: "run_event list \<Rightarrow> string list" where
  "pre_commands [] = []"
| "pre_commands (EvPreHook c e t # evs) = c # pre_commands evs"
| "pre_commands (ev # evs) = pre_commands evs"

fun post_commands :: "run_event list \<Rightarrow> string list" where
  "post_commands [] = []"
| "post_commands (EvPostHook c e t # evs) = c # post_commands evs"
| "post_commands (ev # evs) = post_commands evs"

lemma post_commands_append [simp]: "post_commands (xs @ ys) = post_commands xs @ post_commands ys"
  by (induction xs rule: post_commands.induct) simp_all

definition before_dump :: "run_event \<Rightarrow> bool" where
  "before_dump ev \<longleftrightarrow> (case ev of EvValidate \<Rightarrow> True | EvPreHook c e t \<Rightarrow> True | EvMetric j b s \<Rightarrow> True | _ \<Rightarrow> False)"

lemma before_dump_simps [simp]:
  "before_dump EvValidate" "before_dump (EvPreHook c e t)" "before_dump (EvMetric j b s)" "\<not> before_dump EvDump"
  "\<not> before_dump (EvPut pr)" "\<not> before_dump (EvPostHook c e t)"
  by (simp_all add: before_dump_def)

lemma post_commands_before: "\<forall>ev \<in> set evs. before_dump ev \<Longrightarrow> post_commands evs = []"
  by (induction evs rule: post_commands.induct) auto

fun hook_time :: "run_event list \<Rightarrow> int" where
  "hook_time [] = 0"
| "hook_time (EvPreHook c e t # evs) = t + hook_time evs"
| "hook_time (EvPostHook c e t # evs) = t + hook_time evs"
| "hook_time (ev # evs) = hook_time evs"

lemma hook_time_append [simp]: "hook_time (xs @ ys) = hook_time xs + hook_time ys"
  by (induction xs rule: hook_time.induct) simp_all

lemma pre_commands_append [simp]: "pre_commands (xs @ ys) = pre_commands xs @ pre_commands ys"
  by (induction xs rule: pre_commands.induct) simp_all

text \<open>A hook is charged what it took, and skipped exactly when the budget is spent.\<close>

lemma HookSet_Run_charges: "HookSet_Run sh os_env h c env t = (h1, res, e) \<Longrightarrow> consumed h1 = consumed h + Duration res"
  by (auto simp: HookSet_Run_def empty_HookResult_def Let_def split: if_splits prod.splits)

lemma HookSet_Run_skips: "HookSet_Run sh os_env h c env t = (h1, res, e) \<Longrightarrow> e = Some ErrHooksBudgetExceeded \<longleftrightarrow> HooksTotalBudget \<le> consumed h"
proof -
  have "snd (RunHook sh os_env c env t') \<noteq> Some ErrHooksBudgetExceeded" for t'
    by (auto simp: RunHook_def Let_def split: option.splits run_error.splits ctx_error.splits)
  then show "HookSet_Run sh os_env h c env t = (h1, res, e) \<Longrightarrow> ?thesis"
    by (auto simp: HookSet_Run_def Let_def split: if_splits prod.splits) (metis snd_conv)+
qed

lemma run_pre_hooks_time: "run_pre_hooks sh os_env h i cs = (h', r, evs) \<Longrightarrow> consumed h' = consumed h + hook_time evs"
proof (induction sh os_env h i cs arbitrary: h' r evs rule: run_pre_hooks.induct)
  case (2 sh os_env h i c cs)
  obtain h1 res e where H: "HookSet_Run sh os_env h c None 0 = (h1, res, e)" by (metis prod_cases3)
  note charge = HookSet_Run_charges [OF H]
  show ?case
  proof (cases "i \<ge> HooksMaxCount \<or> e \<noteq> None")
    case True
    with 2(2) H charge show ?thesis by (auto split: if_splits)
  next
    case False
    obtain h2 r2 evs2 where R: "run_pre_hooks sh os_env h1 (i + 1) cs = (h2, r2, evs2)" by (metis prod_cases3)
    with 2(2) H False have "h' = h2" "evs = EvPreHook c None (Duration res) # evs2" by auto
    with 2(1) [OF _ H [symmetric] _ _ R] False charge show ?thesis by simp
  qed
qed simp

lemma run_pre_hooks_failed:
  "run_pre_hooks sh os_env h i cs = (h', Some (j, e), evs) \<Longrightarrow> i \<le> j \<and> j < HooksMaxCount \<and> pre_commands evs = take (Suc (j - i)) cs"
proof (induction sh os_env h i cs arbitrary: h' evs rule: run_pre_hooks.induct)
  case (2 sh os_env h i c cs)
  obtain h1 res e' where H: "HookSet_Run sh os_env h c None 0 = (h1, res, e')" by (metis prod_cases3)
  show ?case
  proof (cases e')
    case (Some e1)
    with 2(2) H show ?thesis by (auto split: if_splits)
  next
    case None
    obtain h2 r2 evs2 where R: "run_pre_hooks sh os_env h1 (i + 1) cs = (h2, r2, evs2)" by (metis prod_cases3)
    with 2(2) H None have n: "\<not> i \<ge> HooksMaxCount" "r2 = Some (j, e)" "evs = EvPreHook c None (Duration res) # evs2"
      by (auto split: if_splits)
    from 2(1) [OF n(1) H [symmetric] refl None R [unfolded n(2)]] n(3) show ?thesis by (auto simp: Suc_diff_Suc)
  qed
qed simp

lemma run_post_hooks_skipped:
  "run_post_hooks sh os_env h i cs = pre @ EvPostHook c e t # post
    \<Longrightarrow> e = Some ErrHooksBudgetExceeded \<longleftrightarrow> HooksTotalBudget \<le> consumed h + hook_time pre"
proof (induction sh os_env h i cs arbitrary: pre rule: run_post_hooks.induct)
  case (2 sh os_env h i c' cs)
  obtain h1 res e1 where H: "HookSet_Run sh os_env h c' None 0 = (h1, res, e1)" by (metis prod_cases3)
  with 2(2) have r: "\<not> i \<ge> HooksMaxCount" "EvPostHook c' e1 (Duration res) # run_post_hooks sh os_env h1 (i + 1) cs = pre @ EvPostHook c e t # post"
    by (auto split: if_splits)
  show ?case
  proof (cases pre)
    case Nil
    with r(2) HookSet_Run_skips [OF H] show ?thesis by simp
  next
    case (Cons ev pre')
    with r(2) have "run_post_hooks sh os_env h1 (i + 1) cs = pre' @ EvPostHook c e t # post" "ev = EvPostHook c' e1 (Duration res)" by simp_all
    from 2(1) [OF r(1) H [symmetric] refl this(1)] this(2) HookSet_Run_charges [OF H] Cons show ?thesis by (simp add: add.assoc)
  qed
qed simp

lemma run_pre_hooks_events: "run_pre_hooks sh os_env h i cs = (h', r, evs) \<Longrightarrow> \<forall>ev \<in> set evs. before_dump ev"
  by (induction sh os_env h i cs arbitrary: h' r evs rule: run_pre_hooks.induct)
     (auto split: if_splits prod.splits option.splits)

lemma run_post_hooks_events:
  "post_commands (run_post_hooks sh os_env h i cs) = take (HooksMaxCount - i) cs"
  "EvDump \<notin> set (run_post_hooks sh os_env h i cs)" "EvPut pr \<notin> set (run_post_hooks sh os_env h i cs)"
  "pre_commands (run_post_hooks sh os_env h i cs) = []"
proof (induction sh os_env h i cs rule: run_post_hooks.induct)
  case (2 sh os_env h i c cs)
  have "HooksMaxCount - i = Suc (HooksMaxCount - (i + 1))" if "\<not> HooksMaxCount \<le> i" using that by simp
  with 2 show "post_commands (run_post_hooks sh os_env h i (c # cs)) = take (HooksMaxCount - i) (c # cs)"
    "EvDump \<notin> set (run_post_hooks sh os_env h i (c # cs))" "EvPut pr \<notin> set (run_post_hooks sh os_env h i (c # cs))"
    "pre_commands (run_post_hooks sh os_env h i (c # cs)) = []"
    by (auto split: prod.split)
qed simp_all

lemma run_pipeline_events:
  assumes "run_pipeline pe d t encr http creds rq x = (res, evs, x1)"
  shows "EvDump \<in> set evs \<and> post_commands evs = [] \<and> hook_time evs = 0 \<and> (\<forall>i e. res \<noteq> Inl (PreHookFailed i e))"
proof -
  have "post_commands evs1 = [] \<and> hook_time evs1 = 0" if "stage_upload pe http u encR = (e4, sha, n, evs1)" for u encR e4 sha n evs1
    using that by (auto simp: stage_upload_def split: prod.splits option.splits if_splits sum.splits)
  with assms show ?thesis
    by (auto simp: run_pipeline_def split: prod.splits option.splits)
qed

lemma skip_prefix:
  "pre @ EvPostHook c e t # post = xs @ ys \<Longrightarrow> post_commands xs = [] \<Longrightarrow> \<exists>pre'. pre = xs @ pre' \<and> pre' @ EvPostHook c e t # post = ys"
proof (induction xs arbitrary: pre)
  case (Cons ev xs)
  then obtain pre1 where "pre = ev # pre1" by (cases pre) auto
  with Cons show ?case by (cases ev) auto
qed simp

section \<open>The whole run\<close>

text \<open>How a run that got as far as the hooks came there, and what the pipeline made of it.\<close>

definition reaches :: "'x Runner \<Rightarrow> pipe_env \<Rightarrow> RunBackupMsg \<Rightarrow> BackupJobSpec option \<Rightarrow> Target \<Rightarrow> 'x Driver
    \<Rightarrow> Encryptor option \<Rightarrow> bool" where
  "reaches r pe rq job t d encr \<longleftrightarrow> resolve r rq = Inr (job, t) \<and> rn_drivers r (dbTypeKey (tg_Type t)) = Some d
     \<and> build_encryptor r (rb_EncryptedDek rq) = Inr encr"

lemma run_hooked_cases:
  assumes "run_hooked pe d job t encr put creds rq x = (res, evs, x')"
  obtains (pre) i e where "res = Inl (PreHookFailed i e)" "\<forall>ev \<in> set evs. before_dump ev" "i < HooksMaxCount"
      "pre_commands evs = take (Suc i) (case job of None \<Rightarrow> [] | Some j \<Rightarrow> bj_PreHooks j)"
  | (pipeline) tmo evs1 evs2 evs3 where "evs = evs1 @ evs2 @ evs3" "\<forall>ev \<in> set evs1. before_dump ev"
      "run_pipeline pe d t encr (put tmo) creds rq x = (res, evs2, x')"
      "post_commands evs3 = take HooksMaxCount (case job of None \<Rightarrow> [] | Some j \<Rightarrow> bj_PostHooks j)"
      "EvDump \<notin> set evs3" "\<And>pr. EvPut pr \<notin> set evs3"
      "\<And>pre c e t post. evs3 = pre @ EvPostHook c e t # post \<Longrightarrow> e = Some ErrHooksBudgetExceeded \<longleftrightarrow> HooksTotalBudget \<le> hook_time evs1 + hook_time pre"
proof -
  define tmo where "tmo = (case job of None \<Rightarrow> None | Some j \<Rightarrow> if bj_TimeoutSec j > 0 then Some (bj_TimeoutSec j) else None)"
  define pre where "pre = (case job of None \<Rightarrow> [] | Some j \<Rightarrow> bj_PreHooks j)"
  obtain h f evs1 where H: "run_pre_hooks (pe_shell pe tmo) (pe_os_env pe) NewHookSet 0 pre = (h, f, evs1)"
    by (metis prod_cases3)
  note b = run_pre_hooks_events [OF H]
  obtain res' evs2 x2 where P: "run_pipeline pe d t encr (put tmo) creds rq x = (res', evs2, x2)" by (metis prod_cases3)
  show thesis
  proof (cases f)
    case None
    with assms H P have "evs = evs1 @ evs2 @ run_post_hooks (pe_shell pe None) (pe_os_env pe) h 0
        (case job of None \<Rightarrow> [] | Some j \<Rightarrow> bj_PostHooks j)" "res = res'" "x' = x2"
      by (simp_all add: run_hooked_def tmo_def pre_def)
    moreover have "e = Some ErrHooksBudgetExceeded \<longleftrightarrow> HooksTotalBudget \<le> hook_time evs1 + hook_time before"
      if "run_post_hooks (pe_shell pe None) (pe_os_env pe) h 0 (case job of None \<Rightarrow> [] | Some j \<Rightarrow> bj_PostHooks j)
        = before @ EvPostHook c e t # after" for before c e t after
      using run_post_hooks_skipped [OF that] run_pre_hooks_time [OF H] by (simp add: NewHookSet_def)
    ultimately show thesis using b P
      by (intro pipeline [of evs1 evs2 "run_post_hooks (pe_shell pe None) (pe_os_env pe) h 0 (case job of None \<Rightarrow> [] | Some j \<Rightarrow> bj_PostHooks j)" tmo])
         (simp_all add: run_post_hooks_events)
  next
    case (Some ie)
    with assms H have "res = Inl (PreHookFailed (fst ie) (snd ie))" "evs = evs1"
      by (auto simp: run_hooked_def tmo_def pre_def split: prod.splits)
    moreover have "fst ie < HooksMaxCount" "pre_commands evs1 = take (Suc (fst ie)) pre"
      using run_pre_hooks_failed [of _ _ _ _ _ h "fst ie" "snd ie" evs1] H Some by (metis diff_zero prod.collapse)+
    ultimately show thesis using b by (intro pre) (simp_all add: pre_def)
  qed
qed

lemma Runner_Run_cases:
  assumes "Runner_Run r pe x (Some rq) = (res, evs, x')"
  obtains (early) "\<forall>ev \<in> set evs. before_dump ev" "\<forall>i e. res \<noteq> Inl (PreHookFailed i e)" "\<forall>c. res \<noteq> Inr c"
  | (hooked) creds put job t d encr y evs1 m where "rb_UploadCreds rq = Some creds" "rn_uploader r = Some put"
      "reaches r pe rq job t d encr" "run_hooked pe d job t encr put creds rq y = (res, evs1, x')"
      "evs = EvValidate # evs1 @ [m]" "before_dump m" "\<exists>j b s. m = EvMetric j b s"
proof (cases "\<exists>creds put. rb_UploadCreds rq = Some creds \<and> up_PresignedPutUrl creds \<noteq> [] \<and> rn_uploader r = Some put")
  case False
  with assms show thesis
    by (intro early) (auto simp: Runner_Run_def split: option.splits if_splits)
next
  case True
  then obtain creds put where c: "rb_UploadCreds rq = Some creds" "up_PresignedPutUrl creds \<noteq> []" "rn_uploader r = Some put"
    by blast
  obtain res1 evs1 x1 where S: "run_started r pe put creds rq x = (res1, evs1, x1)" by (metis prod_cases3)
  from assms c S obtain m where m: "res = res1" "evs = evs1 @ [m]" "x' = x1" "\<exists>j b s. m = EvMetric j b s"
    by (cases res1) (fastforce simp: Runner_Run_def)+
  then have "before_dump m" by auto
  note m = m this
  show thesis
  proof (cases "\<exists>job t d encr y evs2. reaches r pe rq job t d encr
      \<and> run_hooked pe d job t encr put creds rq y = (res, evs2, x') \<and> evs1 = EvValidate # evs2")
    case True
    with c m show thesis by (auto intro: hooked)
  next
    case False
    have early': "(\<forall>ev \<in> set evs1. before_dump ev) \<and> (\<forall>i e. res \<noteq> Inl (PreHookFailed i e)) \<and> (\<forall>c. res \<noteq> Inr c)"
    proof -
      have res: "e \<noteq> PreHookFailed i f" if "resolve r rq = Inl e" for e i f
      proof -
        have bind: "res_bind a b = Inl e \<Longrightarrow> (a = Inl e \<or> (\<exists>v. b v = Inl e))" for a :: "run_err + 'z" and b :: "'z \<Rightarrow> run_err + 'y"
          by (cases a) auto
        from that show ?thesis
          by (auto simp: resolve_def split: option.splits if_splits dest!: bind)
      qed
      have enc: "e \<noteq> PreHookFailed i f" if "build_encryptor r dk = Inl e" for e i f dk
        using that by (auto simp: build_encryptor_def split: option.splits sum.splits if_splits)
      show ?thesis using S False m res enc
        by (auto simp: run_started_def reaches_def split: sum.splits option.splits prod.splits)
    qed
    with m show thesis by (intro early) auto
  qed
qed

lemma run_put:
  assumes "Runner_Run r pe x (Some rq) = (res, evs, x')" "EvPut pr \<in> set evs"
  obtains job t d encr y info dump where "reaches r pe rq job t d encr"
    "complete_dump pe d t encr y info dump x' (pr_body pr)"
  using assms(1)
proof (cases rule: Runner_Run_cases)
  case early
  with assms(2) show thesis by fastforce
next
  case (hooked creds put job t d encr y evs1 m)
  with assms(2) have p: "EvPut pr \<in> set evs1" by auto
  from hooked(4) show thesis
  proof (cases rule: run_hooked_cases)
    case pre
    with p show thesis by fastforce
  next
    case (pipeline tmo evs1' evs2 evs3)
    with p have "EvPut pr \<in> set evs2" by fastforce
    with run_pipeline_put [OF pipeline(3)] hooked(3) show thesis by (blast intro: that)
  qed
qed

lemma run_completed:
  assumes "Runner_Run r pe x (Some rq) = (Inr bc, evs, x')" "rn_uploader r = Some put"
  obtains job t d encr y info dump pr tmo st n creds where "reaches r pe rq job t d encr"
    "complete_dump pe d t encr y info dump x' (pr_body pr)" "EvPut pr \<in> set evs" "put tmo pr = PutResponse st n"
    "st div 100 = 2" "bc_Sha256 bc = HexEncode (pe_sha256 pe (take n (pr_body pr)))" "bc_SizeBytes bc = of_nat n"
    "bc_JobId bc = rb_JobId rq" "bc_RunId bc = rb_RunId rq"
    "rb_UploadCreds rq = Some creds" "pr_url pr = up_PresignedPutUrl creds" "bc_S3Key bc = up_FinalS3Key creds"
  using assms(1)
proof (cases rule: Runner_Run_cases)
  case (hooked creds put' job t d encr y evs1 m)
  from hooked(4) show thesis
  proof (cases rule: run_hooked_cases)
    case (pipeline tmo evs1' evs2 evs3)
    from run_pipeline_ok [OF pipeline(3)] obtain info dump pr st n where
      "complete_dump pe d t encr y info dump x' (pr_body pr)" "EvPut pr \<in> set evs2"
      "put' tmo pr = PutResponse st n" "st div 100 = 2" "bc_Sha256 bc = HexEncode (pe_sha256 pe (take n (pr_body pr)))"
      "bc_SizeBytes bc = of_nat n" "bc_JobId bc = rb_JobId rq" "bc_RunId bc = rb_RunId rq"
      "pr_url pr = up_PresignedPutUrl creds" "bc_S3Key bc = up_FinalS3Key creds" by blast
    with hooked pipeline(1) assms(2) show thesis by (intro that [of job t d encr y info dump pr tmo st n creds]) auto
  qed simp
qed simp

lemma put_restores:
  assumes reached: "reaches r pe rq job t d encr" "complete_dump pe d t encr y info dump x' b"
    and dek: "rn_dekResolver r = passthroughDEK" "rb_EncryptedDek rq \<noteq> []"
    and tok: "check_token env (Token opts) = Inr (cl, rb_EncryptedDek rq)" "SHA256 cl = HexEncode (pe_sha256 pe b)"
    and env: "plain_env env" "sha256_sum env = pe_sha256 pe"
      "\<And>d. zstd_decode env (zs_encode (pe_zstd pe) d) = (d, True)"
    and opts: "\<not> SkipDecompress opts"
  shows "\<exists>ps. Run (env\<lparr>input_file := Some (reader_of b)\<rparr>) opts = (None, Some dump, ps)"
proof -
  from reached(1) dek obtain en where en: "encr = Some en" "length (rb_EncryptedDek rq) = dekSize"
      "NewEncryptor (rb_EncryptedDek rq) = Inr en"
    by (auto simp: reaches_def build_encryptor_def passthroughDEK_def split: option.splits sum.splits if_splits)
  then have A: "enc_aead en = Some (gcm_aead (aes256 (rb_EncryptedDek rq)))"
    by (auto simp: NewEncryptor_Inr_iff)
  from reached(2) en(1) A obtain xs where xs: "b = encoded_stream (gcm_aead (aes256 (rb_EncryptedDek rq))) xs"
      "concat (map snd xs) = zs_encode (pe_zstd pe) dump" "\<forall>(w, p) \<in> set xs. length p \<le> ChunkPlainSize"
    by (auto simp: complete_dump_def stored_body_def)
  have "\<forall>(w, p) \<in> set xs. length p + 28 \<le> maxFrameSize"
    using xs(3) by (fastforce simp: ChunkPlainSize_def maxFrameSize_eq)
  then have "decode_stream (gcm_aead (aes256 (rb_EncryptedDek rq))) maxFrameSize
      (encoded_stream (gcm_aead (aes256 (rb_EncryptedDek rq))) xs @ []) = (concat (map snd xs), None, [])"
    by (rule gcm.decode_encoded) (simp add: maxFrameSize_eq)
  with xs have dec: "decode_stream (gcm_aead (aes256 (rb_EncryptedDek rq))) maxFrameSize b
      = (zs_encode (pe_zstd pe) dump, None, [])" by simp
  let ?env = "env\<lparr>input_file := Some (reader_of b)\<rparr>"
  have "check_token ?env (Token opts) = Inr (cl, rb_EncryptedDek rq)" "plain_env ?env"
    using tok(1) env(1) by (simp_all add: check_token_def plain_env_def)
  then show ?thesis
    using Run_complete_stream [of ?env opts cl _ _ _ dump, OF _ _ _ dec] env(2,3) tok(2) opts by auto
qed

section \<open>When everything works\<close>

definition working_pipe :: "pipe_env \<Rightarrow> bool" where
  "working_pipe pe \<longleftrightarrow> zs_new_ok (pe_zstd pe) \<and> (\<forall>i. pe_rng pe i \<noteq> None) \<and> pe_cut_dump pe = None
     \<and> pe_cut_compressed pe = None \<and> pe_cut_encrypted pe = None
     \<and> pe_fs pe = \<lparr>tmp_create = True, tmp_room = None, tmp_close = True, tmp_open = True\<rparr>"

text \<open>No pre-hook of the job fails.\<close>

definition pre_hooks_pass :: "pipe_env \<Rightarrow> BackupJobSpec option \<Rightarrow> bool" where
  "pre_hooks_pass pe job \<longleftrightarrow>
     (case job of None \<Rightarrow> True
      | Some j \<Rightarrow> fst (snd (run_pre_hooks (pe_shell pe (if bj_TimeoutSec j > 0 then Some (bj_TimeoutSec j) else None))
          (pe_os_env pe) NewHookSet 0 (bj_PreHooks j))) = None)"

lemma pipe_reader_None: "pipe_reader k w None = reader_of (wr_data w)"
  by (simp add: pipe_reader_def reader_of_def)

lemma wr_room_pipe_writer [simp]: "wr_room (pipe_writer k) = k"
  by (simp add: pipe_writer_def)

lemma wr_data_append [simp]: "wr_data (wr_append w p) = wr_data w @ p"
  by (simp add: wr_append_def)

lemma stage_compress_works:
  assumes "working_pipe pe" "smokeValidatedReader (reader_of b) name = None"
  shows "stage_compress pe name (reader_of b) = (None, reader_of (zs_encode (pe_zstd pe) b))"
  using assms by (simp add: stage_compress_def CompressZstd_cases working_pipe_def Let_def pipe_reader_None)

lemma stage_encrypt_works:
  assumes "working_pipe pe" "build_encryptor r dk = Inr encr"
  obtains c where "stage_encrypt pe encr (reader_of b) = (None, reader_of c)"
proof (cases encr)
  case None
  with assms(1) show thesis
    by (intro that [of b]) (simp add: stage_encrypt_def working_pipe_def Let_def pipe_reader_None)
next
  case (Some en)
  with assms(2) obtain A where A: "enc_aead en = Some A"
    by (auto simp: build_encryptor_def NewEncryptor_Inr_iff split: if_splits option.splits sum.splits)
  have rng: "pe_rng pe = (\<lambda>i. Some (the (pe_rng pe i)))" using assms(1) by (simp add: working_pipe_def)
  have "wr_room (pipe_writer (pe_cut_encrypted pe)) = None" using assms(1) by (simp add: working_pipe_def)
  from stream_loop_ok [OF this, of A "\<lambda>i. the (pe_rng pe i)" 0 0 b] Some A show thesis
    by (intro that) (simp add: stage_encrypt_def Encryptor_Stream_def rng [symmetric] pipe_reader_None)
qed

lemma stage_upload_works:
  assumes "working_pipe pe" "\<And>pr. \<exists>st. http pr = PutResponse st (length (pr_body pr)) \<and> st div 100 = 2"
  obtains pr sha where "stage_upload pe http u (reader_of b) = (None, sha, length b, [EvPut pr])"
proof -
  have "stageEncryptedBody (pe_fs pe) (reader_of b) = (length b, Some b, None)"
    using assms(1) by (simp add: stageEncryptedBody_def working_pipe_def Let_def reader_of_def)
  moreover have "tmp_open (pe_fs pe)" using assms(1) by (simp add: working_pipe_def)
  moreover let ?pr = "\<lparr>pr_url = u, pr_content_length = Some (int (length b)),
      pr_content_type = ''application/octet-stream'', pr_body = b\<rparr>"
  obtain st where "http ?pr = PutResponse st (length (pr_body ?pr))" "st div 100 = 2" using assms(2) by blast
  ultimately show thesis
    by (intro that) (simp add: stage_upload_def Uploader_Put_def)
qed

lemma run_works:
  assumes "resolve r rq = Inr (job, t)" "rn_drivers r (dbTypeKey (tg_Type t)) = Some d"
    and "rb_UploadCreds rq = Some creds" "up_PresignedPutUrl creds \<noteq> []" "rn_uploader r = Some put"
    and dek: "rn_dekResolver r = passthroughDEK" "rb_EncryptedDek rq = [] \<or> length (rb_EncryptedDek rq) = 32"
    and "working_pipe pe" "pre_hooks_pass pe job"
    and http: "\<And>tmo pr. \<exists>st. put tmo pr = PutResponse st (length (pr_body pr)) \<and> st div 100 = 2"
    and dump: "drv_Validate d x (Some t) = (None, x1)" "drv_Dump d x1 (Some t) (pipe_writer None) = (Inr info, w, x2)"
      "smokeValidatedReader (reader_of (wr_data w)) (drv_Name d) = None"
  shows "\<exists>bc evs. Runner_Run r pe x (Some rq) = (Inr bc, evs, x2) \<and> bc_JobId bc = rb_JobId rq \<and> bc_RunId bc = rb_RunId rq"
proof -
  have "\<exists>encr. build_encryptor r (rb_EncryptedDek rq) = Inr encr"
    using dek by (cases "rb_EncryptedDek rq = []") (simp_all add: build_encryptor_def passthroughDEK_def NewEncryptor_ok dekSize_def)
  then obtain encr where encr: "build_encryptor r (rb_EncryptedDek rq) = Inr encr" by blast
  define tmo where "tmo = (case job of None \<Rightarrow> None | Some j \<Rightarrow> if bj_TimeoutSec j > 0 then Some (bj_TimeoutSec j) else None)"
  define pre where "pre = (case job of None \<Rightarrow> [] | Some j \<Rightarrow> bj_PreHooks j)"
  obtain h f evs1 where H: "run_pre_hooks (pe_shell pe tmo) (pe_os_env pe) NewHookSet 0 pre = (h, f, evs1)"
    by (metis prod_cases3)
  with \<open>pre_hooks_pass pe job\<close> have f: "f = None"
    by (auto simp: pre_hooks_pass_def tmo_def pre_def split: option.splits)
  have s1: "stage_dump pe d t x1 = (None, info, reader_of (wr_data w), x2)"
    using \<open>working_pipe pe\<close> dump(2) by (simp add: stage_dump_def working_pipe_def pipe_reader_None)
  note s2 = stage_compress_works [OF \<open>working_pipe pe\<close> dump(3)]
  obtain c where s3: "stage_encrypt pe encr (reader_of (zs_encode (pe_zstd pe) (wr_data w))) = (None, reader_of c)"
    by (rule stage_encrypt_works [OF \<open>working_pipe pe\<close> encr])
  obtain pr sha where s4: "stage_upload pe (put tmo) (up_PresignedPutUrl creds) (reader_of c) = (None, sha, length c, [EvPut pr])"
    by (rule stage_upload_works [OF \<open>working_pipe pe\<close> http])
  have "\<exists>bc evs. run_pipeline pe d t encr (put tmo) creds rq x1 = (Inr bc, evs, x2)
      \<and> bc_JobId bc = rb_JobId rq \<and> bc_RunId bc = rb_RunId rq"
    by (simp add: run_pipeline_def s1 s2 s3 s4 firstErr_def)
  then obtain bc evs where p: "run_pipeline pe d t encr (put tmo) creds rq x1 = (Inr bc, evs, x2)"
    "bc_JobId bc = rb_JobId rq" "bc_RunId bc = rb_RunId rq" by blast
  have "\<exists>evs. run_hooked pe d job t encr put creds rq x1 = (Inr bc, evs, x2)"
    using H f p(1) by (simp add: run_hooked_def tmo_def pre_def)
  then have "\<exists>evs. run_started r pe put creds rq x = (Inr bc, evs, x2)"
    using assms(1,2) encr dump(1) by (auto simp: run_started_def)
  then show ?thesis using assms(3-5) p(2,3) by (auto simp: Runner_Run_def)
qed

section \<open>A runner for the witnesses\<close>

definition stub_driver :: "unit Driver" where
  "stub_driver = \<lparr>drv_Name = ''pg_dump'', drv_Validate = (\<lambda>x t. (None, x)),
     drv_Dump = (\<lambda>x t out. (Inr \<lparr>EngineVersion = ''PostgreSQL 16''\<rparr>, fst (Write out (bytes_of_string ''PGDMP!'')), x))\<rparr>"

definition example_pg_target :: Target where
  "example_pg_target = \<lparr>tg_Id = ''t'', tg_Type = POSTGRESQL, tg_DisplayName = [], tg_Connection = Some
     \<lparr>cc_Host = [], cc_Port = 0, cc_Database = [], cc_Username = [], cc_PasswordSecretRef = [], cc_ContainerId = [],
      cc_Strategy = TCP\<rparr>\<rparr>"

definition example_job :: "string list \<Rightarrow> string list \<Rightarrow> BackupJobSpec" where
  "example_job pre post = \<lparr>bj_Id = ''j'', bj_TargetId = ''t'', bj_Cron = [], bj_RetentionDays = 7, bj_Compression = [],
     bj_EncryptionEnabled = True, bj_PreHooks = pre, bj_PostHooks = post, bj_Retry = None, bj_TimeoutSec = 0\<rparr>"

text \<open>The server accepts every upload and has read all of it; a hook fails if it is \<open>false\<close>.\<close>

definition example_runner :: "string list \<Rightarrow> string list \<Rightarrow> unit Runner" where
  "example_runner pre post = NewRunner [''postgresql'' \<mapsto> stub_driver]
     (Some (\<lambda>_ rq. PutResponse 200 (length (pr_body rq))))
     [WithTargetLookup [''t'' \<mapsto> example_pg_target], WithJobLookup [''j'' \<mapsto> example_job pre post]]"

definition example_pipe :: pipe_env where
  "example_pipe = \<lparr>pe_shell = (\<lambda>_ c e t. \<lparr>wrote_out = [], wrote_err = [], elapsed = 1,
       run_err = (if c = ''false'' then Some (ExitError None 1) else None), ctx_err = None\<rparr>),
     pe_os_env = [], pe_rng = (\<lambda>i. Some (of_nat i)), pe_zstd = \<lparr>zs_new_ok = True, zs_encode = id\<rparr>,
     pe_cut_dump = None, pe_cut_compressed = None, pe_cut_encrypted = None,
     pe_fs = \<lparr>tmp_create = True, tmp_room = None, tmp_close = True, tmp_open = True\<rparr>,
     pe_sha256 = take 32, pe_elapsed_ms = 5, pe_pick = 0\<rparr>"

definition example_request :: "bytes \<Rightarrow> RunBackupMsg" where
  "example_request dk = \<lparr>rb_JobId = ''j'', rb_RunId = ''r'', rb_ManualTrigger = False, rb_UploadCreds = Some
     \<lparr>up_PresignedPutUrl = ''https://s3'', up_ExpiresAtMs = 0, up_FinalS3Key = ''k''\<rparr>, rb_EncryptedDek = dk\<rparr>"

lemma example_resolve: "resolve (example_runner pre post) (example_request dk) = Inr (Some (example_job pre post), example_pg_target)"
  by (simp add: resolve_def example_runner_def NewRunner_def WithTargetLookup_def WithJobLookup_def example_request_def
      example_job_def example_pg_target_def)

lemma example_smoke: "smokeValidatedReader (reader_of (bytes_of_string ''PGDMP!'')) ''pg_dump'' = None"
  by code_simp

lemma example_stages:
  "stage_dump example_pipe stub_driver t () = (None, \<lparr>EngineVersion = ''PostgreSQL 16''\<rparr>, reader_of (bytes_of_string ''PGDMP!''), ())"
  "stage_compress example_pipe ''pg_dump'' (reader_of (bytes_of_string ''PGDMP!'')) = (None, reader_of (bytes_of_string ''PGDMP!''))"
  "stage_encrypt example_pipe None (reader_of b) = (None, reader_of b)"
  unfolding stage_compress_def example_smoke
  by (simp_all add: stage_dump_def stub_driver_def example_pipe_def pipe_writer_def pipe_reader_def reader_of_def
      Write_def CompressZstd_cases stage_encrypt_def Let_def)

lemma example_upload:
  "\<exists>pr sha. stage_upload example_pipe (\<lambda>rq. PutResponse 200 (length (pr_body rq))) u (reader_of b)
     = (None, sha, length b, [EvPut pr]) \<and> pr_body pr = b"
  by (simp add: stage_upload_def stageEncryptedBody_def Uploader_Put_def example_pipe_def Write_def Let_def)

lemmas example_runner_defs = example_runner_def NewRunner_def WithTargetLookup_def WithJobLookup_def

lemma example_selectors [simp]:
  "rn_uploader (example_runner pre post) = Some (\<lambda>_ rq. PutResponse 200 (length (pr_body rq)))"
  "rn_drivers (example_runner pre post) ''postgresql'' = Some stub_driver"
  "rn_dekResolver (example_runner pre post) = passthroughDEK"
  "drv_Name stub_driver = ''pg_dump''" "drv_Validate stub_driver x t = (None, x)"
  "tg_Type example_pg_target = POSTGRESQL" "bj_PreHooks (example_job pre post) = pre"
  "bj_PostHooks (example_job pre post) = post" "bj_TimeoutSec (example_job pre post) = 0"
  "bj_EncryptionEnabled (example_job pre post)" "rb_JobId (example_request dk) = ''j''" "rb_EncryptedDek (example_request dk) = dk"
  "rb_UploadCreds (example_request dk) = Some \<lparr>up_PresignedPutUrl = ''https://s3'', up_ExpiresAtMs = 0, up_FinalS3Key = ''k''\<rparr>"
  "dbTypeKey POSTGRESQL = ''postgresql''"
  by (simp_all add: example_runner_defs stub_driver_def example_pg_target_def example_job_def example_request_def dbTypeKey_def)

text \<open>The run of the example without a DEK, and with hooks.\<close>

lemma example_run:
  "\<exists>bc evs pr. Runner_Run (example_runner [] post) example_pipe () (Some (example_request [])) = (Inr bc, evs, ())
    \<and> EvDump \<in> set evs \<and> EvPut pr \<in> set evs \<and> pr_body pr = bytes_of_string ''PGDMP!''"
proof -
  obtain pr sha where u: "stage_upload example_pipe (\<lambda>rq. PutResponse 200 (length (pr_body rq))) ''https://s3''
      (reader_of (bytes_of_string ''PGDMP!'')) = (None, sha, 6, [EvPut pr])" "pr_body pr = bytes_of_string ''PGDMP!''"
    using example_upload [of "''https://s3''" "bytes_of_string ''PGDMP!''"] by auto
  show ?thesis
    using u by (auto simp: Runner_Run_def run_started_def example_resolve run_hooked_def run_pipeline_def
        example_stages firstErr_def build_encryptor_def)
qed

lemma example_pipe_works: "working_pipe example_pipe" "pre_hooks_pass example_pipe (Some (example_job [] post))"
  by (simp_all add: working_pipe_def pre_hooks_pass_def example_pipe_def)

lemma example_encrypted_run:
  "\<exists>bc evs. Runner_Run (example_runner [] post) example_pipe () (Some (example_request (replicate 32 0))) = (Inr bc, evs, ())"
proof -
  obtain encr where e: "build_encryptor (example_runner [] post) (replicate 32 0) = Inr encr"
    by (simp add: build_encryptor_def passthroughDEK_def dekSize_def NewEncryptor_ok)
  obtain c where s3: "stage_encrypt example_pipe encr (reader_of (bytes_of_string ''PGDMP!'')) = (None, reader_of c)"
    by (rule stage_encrypt_works [OF example_pipe_works(1) e])
  obtain pr sha where "stage_upload example_pipe (\<lambda>rq. PutResponse 200 (length (pr_body rq))) ''https://s3''
      (reader_of c) = (None, sha, length c, [EvPut pr])"
    using example_upload [of "''https://s3''" c] by auto
  with s3 e show ?thesis
    by (auto simp: Runner_Run_def run_started_def example_resolve run_hooked_def run_pipeline_def
        example_stages firstErr_def)
qed

lemma example_pre_hook_fails:
  "Runner_Run (example_runner [''true'', ''false''] [''unlock'']) example_pipe () (Some (example_request []))
    = (Inl (PreHookFailed 1 (HookNonZero 1)),
       [EvValidate, EvPreHook ''true'' None 1, EvPreHook ''false'' (Some (HookNonZero 1)) 1, EvMetric ''j'' False None], ())"
  by (simp add: Runner_Run_def run_started_def example_resolve run_hooked_def build_encryptor_def HooksMaxCount_def
        HookSet_Run_def NewHookSet_def RunHook_def hook_limits hook_timeout_def example_pipe_def)

section \<open>Properties\<close>

text \<open>C4: Only complete dumps are uploaded: whenever a run sends a PUT, the driver's \<open>Dump\<close> had succeeded,
  its output passed the smoke test, and the body is the compressed dump, framed and encrypted with
  every frame and the end marker in place if there is a DEK. A dump, compression or encryption that
  fails at any byte sends nothing.\<close>

theorem only_complete_dumps_uploaded:
  assumes "Runner_Run r pe x (Some rq) = (res, evs, x')" "EvPut pr \<in> set evs"
  shows "\<exists>job t d encr y info w. resolve r rq = Inr (job, t) \<and> rn_drivers r (dbTypeKey (tg_Type t)) = Some d
    \<and> build_encryptor r (rb_EncryptedDek rq) = Inr encr
    \<and> drv_Dump d y (Some t) (pipe_writer (pe_cut_dump pe)) = (Inr info, w, x')
    \<and> smokeValidatedReader (reader_of (wr_data w)) (drv_Name d) = None \<and> stored_body pe encr (wr_data w) (pr_body pr)"
  by (rule run_put [OF assms]) (auto simp: reaches_def complete_dump_def)

theorem only_complete_dumps_uploaded_witness:
  "\<exists>bc evs pr (d :: unit Driver) y info w. Runner_Run (example_runner [] []) example_pipe () (Some (example_request [])) = (Inr bc, evs, ())
    \<and> EvPut pr \<in> set evs \<and> drv_Dump d y (Some example_pg_target) (pipe_writer None) = (Inr info, w, ())
    \<and> stored_body example_pipe None (wr_data w) (pr_body pr)"
proof -
  obtain bc evs pr where r: "Runner_Run (example_runner [] []) example_pipe () (Some (example_request [])) = (Inr bc, evs, ())"
    "EvPut pr \<in> set evs" using example_run by blast
  have c: "pe_cut_dump example_pipe = None" by (simp add: example_pipe_def)
  have "build_encryptor (example_runner [] []) (rb_EncryptedDek (example_request [])) = Inr None"
    by (simp add: build_encryptor_def)
  with only_complete_dumps_uploaded [OF r] have "\<exists>info w.
      drv_Dump stub_driver () (Some example_pg_target) (pipe_writer None) = (Inr info, w, ())
      \<and> stored_body example_pipe None (wr_data w) (pr_body pr)"
    by (simp add: example_resolve c) metis
  with r show ?thesis by (metis (no_types, lifting))
qed





text \<open>C1: A backup that was reported as completed can be restored: if the reply of the object store
  comes after it has read the whole body, what was uploaded under the presigned URL is a file
  that \<open>backupy-decrypt\<close>, given the recovery token of the run with the reported hash, turns
  back into exactly the bytes the driver dumped, and the reported key and size are those of the
  file.\<close>

theorem completed_backup_restorable:
  assumes "Runner_Run r pe x (Some rq) = (Inr bc, evs, x')" "rn_uploader r = Some put"
    and whole: "\<And>tmo pr st n. put tmo pr = PutResponse st n \<Longrightarrow> st div 100 = 2 \<Longrightarrow> n = length (pr_body pr)"
    and "rn_dekResolver r = passthroughDEK" "rb_EncryptedDek rq \<noteq> []"
    and tok: "check_token env (Token opts) = Inr (cl, rb_EncryptedDek rq)" "SHA256 cl = bc_Sha256 bc"
    and env: "plain_env env" "sha256_sum env = pe_sha256 pe"
      "\<And>d. zstd_decode env (zs_encode (pe_zstd pe) d) = (d, True)"
    and "\<not> SkipDecompress opts"
  shows "\<exists>job t d y info w pr creds ps. resolve r rq = Inr (job, t) \<and> rn_drivers r (dbTypeKey (tg_Type t)) = Some d
    \<and> drv_Dump d y (Some t) (pipe_writer (pe_cut_dump pe)) = (Inr info, w, x')
    \<and> EvPut pr \<in> set evs \<and> rb_UploadCreds rq = Some creds \<and> pr_url pr = up_PresignedPutUrl creds \<and> bc_S3Key bc = up_FinalS3Key creds
    \<and> bc_SizeBytes bc = of_nat (length (pr_body pr))
    \<and> Run (env\<lparr>input_file := Some (reader_of (pr_body pr))\<rparr>) opts = (None, Some (wr_data w), ps)"
proof (rule run_completed [OF assms(1,2)])
  fix job t d encr y info dump pr tmo st n creds
  assume a: "reaches r pe rq job t d encr" "complete_dump pe d t encr y info dump x' (pr_body pr)" "EvPut pr \<in> set evs"
    "put tmo pr = PutResponse st n" "st div 100 = 2" "bc_Sha256 bc = HexEncode (pe_sha256 pe (take n (pr_body pr)))"
    "bc_SizeBytes bc = of_nat n" "rb_UploadCreds rq = Some creds" "pr_url pr = up_PresignedPutUrl creds" "bc_S3Key bc = up_FinalS3Key creds"
  from whole [OF a(4,5)] have n: "n = length (pr_body pr)" .
  obtain ps where "Run (env\<lparr>input_file := Some (reader_of (pr_body pr))\<rparr>) opts = (None, Some dump, ps)"
    using put_restores [OF a(1,2) assms(4,5) tok(1) _ env \<open>\<not> SkipDecompress opts\<close>] tok(2) a(6) n by auto
  moreover obtain w where "drv_Dump d y (Some t) (pipe_writer (pe_cut_dump pe)) = (Inr info, w, x')" "dump = wr_data w"
    using a(2) by (auto simp: complete_dump_def)
  moreover have "resolve r rq = Inr (job, t)" "rn_drivers r (dbTypeKey (tg_Type t)) = Some d"
    using a(1) by (simp_all add: reaches_def)
  ultimately show ?thesis using a(3,7-10) n by metis
qed

theorem completed_backup_restorable_witness:
  "\<exists>bc evs pr w ps. Runner_Run (example_runner [] []) example_pipe () (Some (example_request (replicate 32 0))) = (Inr bc, evs, ())
    \<and> drv_Dump stub_driver () (Some example_pg_target) (pipe_writer None) = (Inr \<lparr>EngineVersion = ''PostgreSQL 16''\<rparr>, w, ())
    \<and> EvPut pr \<in> set evs \<and> pr_url pr = ''https://s3'' \<and> bc_S3Key bc = ''k''
    \<and> Run ((example_env [] (bc_Sha256 bc))\<lparr>input_file := Some (reader_of (pr_body pr))\<rparr>) example_opts = (None, Some (wr_data w), ps)"
proof -
  obtain bc evs where r: "Runner_Run (example_runner [] []) example_pipe () (Some (example_request (replicate 32 0))) = (Inr bc, evs, ())"
    using example_encrypted_run by blast
  have c: "pe_cut_dump example_pipe = None" "zs_encode (pe_zstd example_pipe) = id" "pe_sha256 example_pipe = take 32"
    by (simp_all add: example_pipe_def)
  have "\<exists>job t d y info w pr creds ps. resolve (example_runner [] []) (example_request (replicate 32 0)) = Inr (job, t)
    \<and> rn_drivers (example_runner [] []) (dbTypeKey (tg_Type t)) = Some d
    \<and> drv_Dump d y (Some t) (pipe_writer (pe_cut_dump example_pipe)) = (Inr info, w, ())
    \<and> EvPut pr \<in> set evs \<and> rb_UploadCreds (example_request (replicate 32 0)) = Some creds \<and> pr_url pr = up_PresignedPutUrl creds
    \<and> bc_S3Key bc = up_FinalS3Key creds \<and> bc_SizeBytes bc = of_nat (length (pr_body pr))
    \<and> Run ((example_env [] (bc_Sha256 bc))\<lparr>input_file := Some (reader_of (pr_body pr))\<rparr>) example_opts = (None, Some (wr_data w), ps)"
    by (rule completed_backup_restorable [OF r, where cl = "example_cl (bc_Sha256 bc)"])
       (use check_token_example in \<open>auto simp: c example_env_def example_cl_def example_opts_def plain_env_def\<close>)
  then obtain w pr ps info where "drv_Dump stub_driver () (Some example_pg_target) (pipe_writer None) = (Inr info, w, ())"
    "EvPut pr \<in> set evs" "pr_url pr = ''https://s3''" "bc_S3Key bc = ''k''"
    "Run ((example_env [] (bc_Sha256 bc))\<lparr>input_file := Some (reader_of (pr_body pr))\<rparr>) example_opts = (None, Some (wr_data w), ps)"
    by (auto simp: example_resolve c)
  moreover from this(1) have "info = \<lparr>EngineVersion = ''PostgreSQL 16''\<rparr>" by (simp add: stub_driver_def)
  ultimately show ?thesis using r by metis
qed

text \<open>C10: A backup succeeds when nothing it depends on fails: with a job and target in the configuration,
  a driver for the database, a DEK of 32 bytes or none, pre-hooks that pass, a dump that succeeds
  and looks like one, room for the temporary file and an object store that accepts the upload,
  the run ends in a report with the job's ids, whatever the post-hooks do.\<close>

theorem run_succeeds:
  assumes "resolve r rq = Inr (job, t)" "rn_drivers r (dbTypeKey (tg_Type t)) = Some d"
    and "rb_UploadCreds rq = Some creds" "up_PresignedPutUrl creds \<noteq> []" "rn_uploader r = Some put"
    and dek: "rn_dekResolver r = passthroughDEK" "rb_EncryptedDek rq = [] \<or> length (rb_EncryptedDek rq) = 32"
    and "working_pipe pe" "pre_hooks_pass pe job"
    and http: "\<And>tmo pr. \<exists>st. put tmo pr = PutResponse st (length (pr_body pr)) \<and> st div 100 = 2"
    and dump: "drv_Validate d x (Some t) = (None, x1)" "drv_Dump d x1 (Some t) (pipe_writer None) = (Inr info, w, x2)"
      "smokeValidatedReader (reader_of (wr_data w)) (drv_Name d) = None"
  shows "\<exists>bc evs. Runner_Run r pe x (Some rq) = (Inr bc, evs, x2) \<and> bc_JobId bc = rb_JobId rq \<and> bc_RunId bc = rb_RunId rq"
  using assms by (rule run_works)

theorem run_succeeds_witness:
  "\<exists>bc evs. Runner_Run (example_runner [] [''false'']) example_pipe () (Some (example_request [])) = (Inr bc, evs, ())
    \<and> bc_JobId bc = ''j'' \<and> bc_RunId bc = ''r''"
proof -
  have "\<exists>bc evs. Runner_Run (example_runner [] [''false'']) example_pipe () (Some (example_request [])) = (Inr bc, evs, ())
    \<and> bc_JobId bc = rb_JobId (example_request []) \<and> bc_RunId bc = rb_RunId (example_request [])"
    by (rule run_succeeds [OF example_resolve, where d = stub_driver and info = "\<lparr>EngineVersion = ''PostgreSQL 16''\<rparr>" and w = "fst (Write (pipe_writer None) (bytes_of_string ''PGDMP!''))"])
       (simp_all add: example_pipe_works example_smoke stub_driver_def, simp_all)
  then show ?thesis by (simp add: example_request_def)
qed

end
