(* ===== verification/Pipes.thy ===== *)
theory Pipes
  imports Runner "HOL-Library.Sublist"
begin

text \<open>
  The four goroutines of a run over three \<open>io.Pipe\<close>s (\<open>pipeline/runner.go\<close>), step by step. Goroutine
  0 dumps, 1 compresses, 2 encrypts, 3 is \<open>Run\<close> itself, which stages and uploads; pipe \<open>i\<close> leads from
  goroutine \<open>i\<close> to \<open>i + 1\<close>. What the stages do with the bytes is the argument \<open>F\<close>: for the input up
  to its end, the error and the output of a stage (\<open>stage_function\<close> takes both from \<open>Runner\<close>). A
  goroutine may read and write in pieces of any size, in any order that fits \<open>F\<close>.
\<close>

section \<open>State\<close>

text \<open>What is left to do for a goroutine that has made up its mind: the calls at the end of its body.\<close>

datatype leave_act = CloseW nat bool | CloseR nat | Post "stage_err option"

datatype pc = Working | Reading | Writing bytes | Leaving "leave_act list"

text \<open>
  \<open>pp_data i\<close> is what went through pipe \<open>i\<close>; \<open>pp_wclosed\<close>, \<open>pp_rclosed\<close> say whether its ends are closed,
  the writing end with \<open>True\<close> for \<open>Close\<close> and \<open>False\<close> for \<open>CloseWithError\<close>. \<open>pp_end i\<close> is the end of the
  input that goroutine \<open>i\<close> has seen (\<open>Some True\<close> is \<open>io.EOF\<close>), \<open>pp_cut i\<close> that one of its writes failed,
  \<open>pp_result\<close> the result it leaves with, \<open>pp_errs\<close> the channel \<open>errs\<close>.
\<close>

record pipes =
  pp_pc :: "nat \<Rightarrow> pc"
  pp_data :: "nat \<Rightarrow> bytes"
  pp_wclosed :: "nat \<Rightarrow> bool option"
  pp_rclosed :: "nat \<Rightarrow> bool"
  pp_end :: "nat \<Rightarrow> bool option"
  pp_cut :: "nat \<Rightarrow> bool"
  pp_result :: "nat \<Rightarrow> stage_err option option"
  pp_errs :: "stage_err option list"

definition pipes_init :: pipes where
  "pipes_init = \<lparr>pp_pc = \<lambda>_. Working, pp_data = \<lambda>_. [], pp_wclosed = \<lambda>_. None, pp_rclosed = \<lambda>_. False,
     pp_end = \<lambda>_. None, pp_cut = \<lambda>_. False, pp_result = \<lambda>_. None, pp_errs = []\<rparr>"

text \<open>What goroutine \<open>i\<close> has read, and what it has under way on its output.\<close>

definition inp :: "pipes \<Rightarrow> nat \<Rightarrow> bytes" where
  "inp s i = (case i of 0 \<Rightarrow> [] | Suc j \<Rightarrow> pp_data s j)"

definition pending :: "pipes \<Rightarrow> nat \<Rightarrow> bytes" where
  "pending s i = (case pp_pc s i of Writing b \<Rightarrow> b | _ \<Rightarrow> [])"

text \<open>No more input can come: the dump has none.\<close>

definition input_over :: "pipes \<Rightarrow> nat \<Rightarrow> bool" where
  "input_over s i \<longleftrightarrow> i = 0 \<or> pp_end s i \<noteq> None"

section \<open>The end of a goroutine\<close>

text \<open>
  The last calls of each body in their order, the deferred \<open>Close\<close> included. The result is posted
  before the deferred \<open>Close\<close>, which does nothing after a \<open>CloseWithError\<close>.
\<close>

definition leaving :: "nat \<Rightarrow> stage_err option \<Rightarrow> leave_act list" where
  "leaving i r =
     (case r of
        None \<Rightarrow> Post None # (if i < 3 then [CloseW i True] else [])
      | Some e \<Rightarrow>
          if i = 0 then [CloseW 0 False, Post (Some e), CloseW 0 True]
          else if i < 3 then [CloseW i False, CloseR (i - 1), Post (Some e), CloseW i True]
          else [CloseR 2, CloseR 1, CloseR 0, Post (Some e)])"

fun leave :: "leave_act \<Rightarrow> pipes \<Rightarrow> pipes" where
  "leave (CloseW i ok) s = (if pp_wclosed s i = None then s\<lparr>pp_wclosed := (pp_wclosed s)(i := Some ok)\<rparr> else s)"
| "leave (CloseR i) s = s\<lparr>pp_rclosed := (pp_rclosed s)(i := True)\<rparr>"
| "leave (Post r) s = s\<lparr>pp_errs := pp_errs s @ [r]\<rparr>"

fun stage_no :: "stage_err \<Rightarrow> nat" where
  "stage_no (StageDump e) = 0"
| "stage_no (StageSmoke e) = 1"
| "stage_no (StageCompress e) = 1"
| "stage_no StagePassthrough = 2"
| "stage_no (StageEncrypt e) = 2"
| "stage_no (StageUpload e) = 3"

section \<open>Steps\<close>

type_synonym stage_fun = "nat \<Rightarrow> bytes \<Rightarrow> stage_err option \<times> bytes"

text \<open>
  A stage writes what its definition writes for the input it has seen, however that goes on. After a
  failed read only the compressor still writes (\<open>enc.Close\<close> flushes).
\<close>

definition may_write :: "stage_fun \<Rightarrow> pipes \<Rightarrow> nat \<Rightarrow> bytes \<Rightarrow> bool" where
  "may_write F s i b \<longleftrightarrow> i < 3 \<and> b \<noteq> [] \<and> \<not> pp_cut s i \<and> (pp_end s i = Some False \<longrightarrow> i = 1)
     \<and> (\<forall>rest. (input_over s i \<longrightarrow> rest = []) \<longrightarrow> prefix (pp_data s i @ b) (snd (F i (inp s i @ rest))))"

text \<open>
  A stage returns nil at the end of its input, when all its output is written. It returns an error
  because a read or a write failed, or because its definition fails for what it has read, either at
  the end or whatever comes.
\<close>

definition may_finish :: "stage_fun \<Rightarrow> pipes \<Rightarrow> nat \<Rightarrow> stage_err option \<Rightarrow> bool" where
  "may_finish F s i r \<longleftrightarrow>
     (case r of
        None \<Rightarrow> (i = 0 \<or> pp_end s i = Some True) \<and> \<not> pp_cut s i \<and> F i (inp s i) = (None, pp_data s i)
      | Some e \<Rightarrow> stage_no e = i \<and>
          (pp_end s i = Some False \<or> pp_cut s i
           \<or> (\<forall>rest. (input_over s i \<longrightarrow> rest = []) \<longrightarrow> F i (inp s i @ rest) = (Some e, pp_data s i))))"

text \<open>
  \<open>io.Pipe\<close>: a write is over when all its bytes were read or the pipe is closed, a read as soon as
  some bytes are there or the pipe is closed; closing the reading end fails both.
\<close>

inductive pipes_step :: "stage_fun \<Rightarrow> pipes \<Rightarrow> pipes \<Rightarrow> bool" for F where
  StartRead: "0 < i \<Longrightarrow> i < 4 \<Longrightarrow> pp_pc s i = Working \<Longrightarrow> pp_end s i = None \<Longrightarrow> \<not> pp_cut s i
     \<Longrightarrow> pipes_step F s (s\<lparr>pp_pc := (pp_pc s)(i := Reading)\<rparr>)"
| StartWrite: "pp_pc s i = Working \<Longrightarrow> may_write F s i b
     \<Longrightarrow> pipes_step F s (s\<lparr>pp_pc := (pp_pc s)(i := Writing b)\<rparr>)"
| Transfer: "i < 3 \<Longrightarrow> pp_pc s i = Writing b \<Longrightarrow> pp_pc s (Suc i) = Reading \<Longrightarrow> pp_wclosed s i = None \<Longrightarrow> \<not> pp_rclosed s i
     \<Longrightarrow> 0 < m \<Longrightarrow> m \<le> length b
     \<Longrightarrow> pipes_step F s (s\<lparr>pp_data := (pp_data s)(i := pp_data s i @ take m b),
           pp_pc := (pp_pc s)(i := (if m = length b then Working else Writing (drop m b)), Suc i := Working)\<rparr>)"
| ReadEnds: "i < 3 \<Longrightarrow> pp_pc s (Suc i) = Reading \<Longrightarrow> pp_rclosed s i \<and> ok = False \<or> \<not> pp_rclosed s i \<and> pp_wclosed s i = Some ok
     \<Longrightarrow> pipes_step F s (s\<lparr>pp_end := (pp_end s)(Suc i := Some ok), pp_pc := (pp_pc s)(Suc i := Working)\<rparr>)"
| WriteFails: "i < 3 \<Longrightarrow> pp_pc s i = Writing b \<Longrightarrow> pp_rclosed s i
     \<Longrightarrow> pipes_step F s (s\<lparr>pp_cut := (pp_cut s)(i := True), pp_pc := (pp_pc s)(i := Working)\<rparr>)"
| Finish: "i < 4 \<Longrightarrow> pp_pc s i = Working \<Longrightarrow> may_finish F s i r
     \<Longrightarrow> pipes_step F s (s\<lparr>pp_result := (pp_result s)(i := Some r), pp_pc := (pp_pc s)(i := Leaving (leaving i r))\<rparr>)"
| Leave: "i < 4 \<Longrightarrow> pp_pc s i = Leaving (a # as)
     \<Longrightarrow> pipes_step F s (leave a (s\<lparr>pp_pc := (pp_pc s)(i := Leaving as)\<rparr>))"

text \<open>\<open>Run\<close> goes on once it has received four results, and reports the first error among them.\<close>

definition all_posted :: "pipes \<Rightarrow> bool" where
  "all_posted s \<longleftrightarrow> length (pp_errs s) = 4"

definition first_posted :: "pipes \<Rightarrow> stage_err option" where
  "first_posted s = foldl (\<lambda>first e. if e \<noteq> None \<and> first = None then e else first) None (pp_errs s)"

text \<open>The four stages of a run, each on an input that ends cleanly and an output nobody closes.\<close>

definition uncut :: "pipe_env \<Rightarrow> pipe_env" where
  "uncut pe = pe\<lparr>pe_cut_dump := None, pe_cut_compressed := None, pe_cut_encrypted := None\<rparr>"

definition stage_function ::
  "pipe_env \<Rightarrow> 'x Driver \<Rightarrow> Target \<Rightarrow> Encryptor option \<Rightarrow> http_put \<Rightarrow> string \<Rightarrow> 'x \<Rightarrow> stage_fun" where
  "stage_function pe d t encryptor http url' x i b =
     (if i = 0 then (case stage_dump (uncut pe) d t x of (e, info, r, x1) \<Rightarrow> (e, rd_data r))
      else if i = 1 then (case stage_compress (uncut pe) (drv_Name d) (reader_of b) of (e, r) \<Rightarrow> (e, rd_data r))
      else if i = 2 then (case stage_encrypt (uncut pe) encryptor (reader_of b) of (e, r) \<Rightarrow> (e, rd_data r))
      else (case stage_upload (uncut pe) http url' (reader_of b) of (e, sha, n, evs) \<Rightarrow> (e, [])))"

end
