(* ===== verification/Pipe_Invariants.thy ===== *)
theory Pipe_Invariants
  imports Pipes
begin

text \<open>
  What holds in every reachable state of the pipe network: how goroutines leave and close their
  pipes, what they have read and written, and which results are posted. The invariants are small and
  each is preserved by every step.
\<close>

lemma pipes_init_simps [simp]:
  "pp_pc pipes_init i = Working" "pp_data pipes_init i = []" "pp_wclosed pipes_init i = None" "pp_rclosed pipes_init i = False"
  "pp_end pipes_init i = None" "pp_cut pipes_init i = False" "pp_result pipes_init i = None" "pp_errs pipes_init = []"
  by (simp_all add: pipes_init_def)

lemma leave_simps [simp]:
  "pp_pc (leave a s) = pp_pc s" "pp_data (leave a s) = pp_data s" "pp_end (leave a s) = pp_end s"
  "pp_cut (leave a s) = pp_cut s" "pp_result (leave a s) = pp_result s"
  by (cases a; simp)+

lemma inp_simps [simp]: "inp s 0 = []" "inp s (Suc j) = pp_data s j"
  by (simp_all add: inp_def)

section \<open>Leaving\<close>

fun act_done :: "leave_act \<Rightarrow> pipes \<Rightarrow> bool" where
  "act_done (CloseW i ok) s \<longleftrightarrow> pp_wclosed s i \<noteq> None"
| "act_done (CloseR i) s \<longleftrightarrow> pp_rclosed s i"
| "act_done (Post r) s \<longleftrightarrow> r \<in> set (pp_errs s)"

lemma act_done_leave: "act_done a (leave a s)" "act_done a s \<Longrightarrow> act_done a (leave b s)"
  by (cases a; simp) (cases a; cases b; auto)

lemma act_done_update [simp]:
  "act_done a (s\<lparr>pp_pc := p\<rparr>) = act_done a s" "act_done a (s\<lparr>pp_data := d\<rparr>) = act_done a s"
  "act_done a (s\<lparr>pp_end := e\<rparr>) = act_done a s" "act_done a (s\<lparr>pp_cut := c\<rparr>) = act_done a s"
  "act_done a (s\<lparr>pp_result := r\<rparr>) = act_done a s"
  by (cases a; simp)+

lemma leaving_acts:
  "CloseW j ok \<in> set (leaving i r) \<Longrightarrow> j = i" "Post r' \<in> set (leaving i r) \<Longrightarrow> r' = r"
  "CloseR j \<in> set (leaving i r) \<Longrightarrow> j < i \<and> r \<noteq> None \<or> 3 < i"
  by (auto simp: leaving_def split: option.splits if_splits)

text \<open>A goroutine that leaves has a result and has done a prefix of its last calls; its pipe is closed by no one else.\<close>

definition leave_inv :: "pipes \<Rightarrow> nat \<Rightarrow> bool" where
  "leave_inv s i \<longleftrightarrow>
     (case pp_pc s i of
        Leaving l \<Rightarrow> \<exists>r d. pp_result s i = Some r \<and> leaving i r = d @ l \<and> (\<forall>a \<in> set d. act_done a s)
      | _ \<Rightarrow> pp_result s i = None \<and> pp_wclosed s i = None)"

lemma leave_inv_step:
  assumes "pipes_step F s s'" "\<forall>k. leave_inv s k"
  shows "leave_inv s' i"
proof -
  have i: "leave_inv s i" using assms(2) by blast
  from assms(1) show ?thesis
  proof (cases rule: pipes_step.cases)
    case (Leave k a as)
    from assms(2) Leave(3) have "leave_inv s k" by blast
    with Leave(3) obtain r d where k: "pp_result s k = Some r" "leaving k r = d @ a # as" "\<forall>a \<in> set d. act_done a s"
      by (auto simp: leave_inv_def)
    let ?s = "s\<lparr>pp_pc := (pp_pc s)(k := Leaving as)\<rparr>"
    have st: "act_done b s'" if "act_done b s" for b
      using that act_done_leave(2) [of b ?s a] Leave(1) by simp
    show ?thesis
    proof (cases "i = k")
      case True
      have "leaving k r = (d @ [a]) @ as" using k(2) by simp
      moreover have "\<forall>b \<in> set (d @ [a]). act_done b s'"
        using k(3) st act_done_leave(1) [of a ?s] Leave(1) by auto
      moreover have "pp_pc s' i = Leaving as" "pp_result s' i = Some r" using True k(1) by (simp_all add: Leave(1))
      ultimately show ?thesis using True by (auto simp: leave_inv_def)
    next
      case False
      have pc: "pp_pc s' i = pp_pc s i" "pp_result s' i = pp_result s i" using False by (simp_all add: Leave(1))
      have "pp_wclosed s' i = pp_wclosed s i"
      proof (cases a)
        case (CloseW j ok)
        with k(2) leaving_acts(1) [of j ok k r] have "j = k" by simp
        with False CloseW show ?thesis by (simp add: Leave(1))
      qed (simp_all add: Leave(1))
      with i pc st show ?thesis by (auto simp: leave_inv_def split: pc.splits)
    qed
  qed (use i in \<open>auto simp: leave_inv_def split: pc.splits\<close>)
qed

text \<open>Without a result a goroutine has not left.\<close>

lemma leave_invD:
  "leave_inv s i \<Longrightarrow> pp_pc s i = Leaving l \<Longrightarrow> \<exists>r d. pp_result s i = Some r \<and> leaving i r = d @ l \<and> (\<forall>a \<in> set d. act_done a s)"
  "leave_inv s i \<Longrightarrow> (\<And>l. pp_pc s i \<noteq> Leaving l) \<Longrightarrow> pp_result s i = None \<and> pp_wclosed s i = None"
  by (auto simp: leave_inv_def split: pc.splits)

lemma gone:
  assumes "leave_inv s i" "pp_pc s i = Leaving []" "i < 4"
  shows "i < 3 \<Longrightarrow> pp_wclosed s i \<noteq> None"
    and "i = Suc j \<Longrightarrow> pp_result s i \<noteq> Some None \<Longrightarrow> pp_rclosed s j"
proof -
  from leave_invD(1) [OF assms(1,2)] obtain r where r: "pp_result s i = Some r" "\<forall>a \<in> set (leaving i r). act_done a s"
    by auto
  show "pp_wclosed s i \<noteq> None" if "i < 3"
  proof -
    from that have "CloseW i (r = None) \<in> set (leaving i r)" by (auto simp: leaving_def split: option.splits)
    with r(2) show ?thesis by fastforce
  qed
  show "pp_rclosed s j" if "i = Suc j" "pp_result s i \<noteq> Some None"
  proof -
    from that assms(3) r(1) have "CloseR j \<in> set (leaving i r)" by (auto simp: leaving_def split: option.splits)
    with r(2) show ?thesis by fastforce
  qed
qed

text \<open>The first of the calls that close a pipe tells whether the stage has failed.\<close>

definition closed_inv :: "pipes \<Rightarrow> nat \<Rightarrow> bool" where
  "closed_inv s i \<longleftrightarrow> (\<forall>ok. pp_wclosed s i = Some ok \<longrightarrow> (\<exists>r. pp_result s i = Some r \<and> (ok \<longleftrightarrow> r = None)))"

lemma leaving_first_close:
  "leaving k r = d @ CloseW j ok # as \<Longrightarrow> \<forall>a \<in> set d. \<forall>ok'. a \<noteq> CloseW j ok' \<Longrightarrow> ok \<longleftrightarrow> r = None"
  by (auto simp: leaving_def Cons_eq_append_conv split: option.splits if_splits)

lemma closed_inv_step:
  assumes "pipes_step F s s'" "\<forall>k. leave_inv s k" "\<forall>k. closed_inv s k"
  shows "closed_inv s' i"
proof -
  have i: "closed_inv s i" using assms(3) by blast
  from assms(1) show ?thesis
  proof (cases rule: pipes_step.cases)
    case (Leave k a as)
    from assms(2) Leave(3) leave_invD(1) obtain r d where
      k: "pp_result s k = Some r" "leaving k r = d @ a # as" "\<forall>b \<in> set d. act_done b s" by blast
    show ?thesis
    proof (cases a)
      case (CloseW j ok)
      then have j: "j = k" using leaving_acts(1) [of j ok k r] k(2) by simp
      have "ok \<longleftrightarrow> r = None" if "pp_wclosed s k = None"
        by (rule leaving_first_close [OF k(2) [unfolded CloseW]]) (use k(3) that j in force)
      with i j k(1) CloseW show ?thesis by (auto simp: closed_inv_def Leave(1))
    qed (use i in \<open>simp_all add: closed_inv_def Leave(1)\<close>)
  next
    case (Finish k r)
    have "pp_wclosed s k = None" using leave_invD(2) [of s k] assms(2) Finish(3) by simp
    with i show ?thesis by (auto simp: closed_inv_def Finish(1))
  qed (use i in \<open>simp_all add: closed_inv_def\<close>)
qed

section \<open>Reading and writing\<close>

text \<open>Goroutine 0 reads nothing, the last one writes nothing, and who is reading has not seen the end.\<close>

definition pc_inv :: "pipes \<Rightarrow> bool" where
  "pc_inv s \<longleftrightarrow> (\<forall>i. (pp_pc s i = Reading \<longrightarrow> 0 < i \<and> pp_end s i = None) \<and> (\<forall>b. pp_pc s i = Writing b \<longrightarrow> i < 3 \<and> b \<noteq> [] \<and> \<not> pp_cut s i)
     \<and> (3 \<le> i \<longrightarrow> pp_data s i = []))"

lemma pc_inv_step: "pipes_step F s s' \<Longrightarrow> pc_inv s \<Longrightarrow> pc_inv s'"
  by (cases rule: pipes_step.cases, assumption) (auto simp: pc_inv_def may_write_def)

text \<open>A clean end of the input means that the writer has left without an error.\<close>

definition end_inv :: "pipes \<Rightarrow> bool" where
  "end_inv s \<longleftrightarrow> (\<forall>i. pp_end s (Suc i) = Some True \<longrightarrow> pp_wclosed s i = Some True)"

lemma wclosed_stays:
  assumes "pipes_step F s s'" "pp_wclosed s i = Some ok"
  shows "pp_wclosed s' i = Some ok"
  using assms(1)
proof (cases rule: pipes_step.cases)
  case (Leave k a as)
  with assms(2) show ?thesis by (cases a) auto
qed (simp_all add: assms(2))

lemma end_inv_step:
  assumes "pipes_step F s s'" "end_inv s"
  shows "end_inv s'"
proof -
  have "pp_wclosed s i = Some True" if "pp_end s' (Suc i) = Some True" for i
    using assms(1) by (cases rule: pipes_step.cases) (use that assms(2) in \<open>auto simp: end_inv_def split: if_splits\<close>)
  with wclosed_stays [OF assms(1)] show ?thesis by (simp add: end_inv_def)
qed

text \<open>A stage that left without an error has read all of its input and written all of its output.\<close>

definition result_inv :: "stage_fun \<Rightarrow> pipes \<Rightarrow> nat \<Rightarrow> bool" where
  "result_inv F s i \<longleftrightarrow> (pp_result s i = Some None \<longrightarrow>
     (i = 0 \<or> pp_end s i = Some True) \<and> \<not> pp_cut s i \<and> F i (inp s i) = (None, pp_data s i))"

lemma result_inv_step:
  assumes "pipes_step F s s'" "\<forall>k. leave_inv s k" "result_inv F s i"
  shows "result_inv F s' i"
  using assms(1)
proof (cases rule: pipes_step.cases)
  case (Transfer k b m)
  have "pp_result s k = None" "pp_result s (Suc k) = None"
    using leave_invD(2) [of s k] leave_invD(2) [of s "Suc k"] assms(2) Transfer(3,4) by simp_all
  with assms(3) show ?thesis by (cases i) (auto simp: result_inv_def Transfer(1))
next
  case (ReadEnds k ok)
  have "pp_result s (Suc k) = None" using leave_invD(2) [of s "Suc k"] assms(2) ReadEnds(3) by simp
  with assms(3) show ?thesis by (cases i) (auto simp: result_inv_def ReadEnds(1))
next
  case (WriteFails k b)
  have "pp_result s k = None" using leave_invD(2) [of s k] assms(2) WriteFails(3) by simp
  with assms(3) show ?thesis by (cases i) (auto simp: result_inv_def WriteFails(1))
next
  case (Finish k r)
  with assms(3) show ?thesis by (cases i) (auto simp: result_inv_def may_finish_def)
next
  case (Leave k a as)
  with assms(3) show ?thesis by (cases i) (auto simp: result_inv_def)
qed (use assms(3) in \<open>cases i; simp add: result_inv_def\<close>)+

text \<open>What a stage has written, and is writing, is what its definition writes for its input.\<close>

definition write_inv :: "stage_fun \<Rightarrow> pipes \<Rightarrow> nat \<Rightarrow> bool" where
  "write_inv F s i \<longleftrightarrow> (i < 3 \<longrightarrow>
     (\<forall>rest. (input_over s i \<longrightarrow> rest = []) \<longrightarrow> prefix (pp_data s i @ pending s i) (snd (F i (inp s i @ rest)))))"

lemma write_invD:
  assumes "write_inv F s i" "i < 3" "input_over s i \<Longrightarrow> rest = []"
  shows "prefix (pp_data s i @ pending s i) (snd (F i (inp s i @ rest)))"
  using assms by (simp add: write_inv_def)

lemma inp_cong: "(\<And>j. i = Suc j \<Longrightarrow> pp_data s' j = pp_data s j) \<Longrightarrow> inp s' i = inp s i"
  by (cases i) simp_all

lemma write_inv_mono:
  assumes "write_inv F s i" "pp_data s' i = pp_data s i" "\<And>j. i = Suc j \<Longrightarrow> pp_data s' j = pp_data s j"
    and "pending s' i = pending s i \<or> pending s' i = []" "pp_end s' i = pp_end s i \<or> pp_end s' i \<noteq> None"
  shows "write_inv F s' i"
  unfolding write_inv_def
proof (intro impI allI)
  fix rest :: bytes
  assume "i < 3" "input_over s' i \<longrightarrow> rest = []"
  with assms(5) have "prefix (pp_data s i @ pending s i) (snd (F i (inp s i @ rest)))"
    by (intro write_invD [OF assms(1)]) (auto simp: input_over_def)
  then have "prefix (pp_data s i @ pending s' i) (snd (F i (inp s i @ rest)))"
    using assms(4) by (auto dest: append_prefixD)
  then show "prefix (pp_data s' i @ pending s' i) (snd (F i (inp s' i @ rest)))"
    by (simp only: assms(2) inp_cong [of i s' s, OF assms(3)])
qed

lemma write_inv_step:
  assumes "pipes_step F s s'" "pc_inv s" "write_inv F s i"
  shows "write_inv F s' i"
  using assms(1)
proof (cases rule: pipes_step.cases)
  case (StartRead k)
  show ?thesis by (rule write_inv_mono [OF assms(3)]) (simp_all add: StartRead(1,4) pending_def)
next
  case (StartWrite k b)
  show ?thesis
  proof (cases "i = k")
    case True
    have "inp s' i = inp s i" by (rule inp_cong) (simp add: StartWrite(1))
    then have eqs: "pp_data s' i = pp_data s i" "pending s' i = b" "inp s' i = inp s i" "input_over s' i = input_over s i"
      by (simp_all add: True StartWrite(1) pending_def input_over_def)
    show ?thesis
      unfolding write_inv_def eqs using StartWrite(3) unfolding may_write_def True by blast
  next
    case False
    then show ?thesis by (intro write_inv_mono [OF assms(3)]) (simp_all add: StartWrite(1) pending_def)
  qed
next
  case (Transfer k b m)
  consider "i = k" | "i = Suc k" | "i \<noteq> k" "i \<noteq> Suc k" by blast
  then show ?thesis
  proof cases
    case 1
    have "inp s' i = inp s i" by (rule inp_cong) (simp add: 1 Transfer(1))
    moreover have "pp_data s' i @ pending s' i = pp_data s i @ pending s i" "input_over s' i = input_over s i"
      by (simp_all add: 1 Transfer(1,3) pending_def input_over_def)
    ultimately show ?thesis using assms(3) by (simp add: write_inv_def)
  next
    case 2
    have open': "\<not> input_over s i" using assms(2) Transfer(4) 2 by (simp add: pc_inv_def input_over_def)
    have eqs: "pp_data s' i = pp_data s i" "pending s' i = []" "pending s i = []" "inp s' i = inp s i @ take m b"
      by (simp_all add: 2 Transfer(1,4) pending_def)
    show ?thesis
      unfolding write_inv_def
    proof (intro impI allI)
      fix rest :: bytes assume "i < 3"
      with write_invD [OF assms(3), of "take m b @ rest"] open' eqs
      show "prefix (pp_data s' i @ pending s' i) (snd (F i (inp s' i @ rest)))" by simp
    qed
  next
    case 3
    then show ?thesis by (intro write_inv_mono [OF assms(3)]) (simp_all add: Transfer(1) pending_def)
  qed
next
  case (ReadEnds k ok)
  show ?thesis by (rule write_inv_mono [OF assms(3)]) (simp_all add: ReadEnds(1,3) pending_def)
next
  case (WriteFails k b)
  show ?thesis by (rule write_inv_mono [OF assms(3)]) (simp_all add: WriteFails(1,3) pending_def)
next
  case (Finish k r)
  show ?thesis by (rule write_inv_mono [OF assms(3)]) (simp_all add: Finish(1,3) pending_def)
next
  case (Leave k a as)
  show ?thesis by (rule write_inv_mono [OF assms(3)]) (simp_all add: Leave(1,3) pending_def)
qed

section \<open>Posting\<close>

definition posted :: "pipes \<Rightarrow> nat \<Rightarrow> bool" where
  "posted s i \<longleftrightarrow> (case pp_pc s i of Leaving l \<Rightarrow> \<forall>r. Post r \<notin> set l | _ \<Rightarrow> False)"

text \<open>The channel holds the result of each goroutine that has posted one, once.\<close>

definition posts_inv :: "pipes \<Rightarrow> bool" where
  "posts_inv s \<longleftrightarrow> (\<exists>ps. distinct ps \<and> set ps = {i. i < 4 \<and> posted s i} \<and> pp_errs s = map (\<lambda>i. the (pp_result s i)) ps)"

lemma leaving_one_post: "leaving i r = d @ Post r' # as \<Longrightarrow> Post r'' \<notin> set as"
  by (auto simp: leaving_def Cons_eq_append_conv split: option.splits if_splits)

lemma leaving_posts: "Post r \<in> set (leaving i r)"
  by (auto simp: leaving_def split: option.splits)

lemma posts_inv_step:
  assumes "pipes_step F s s'" "\<forall>k. leave_inv s k" "posts_inv s"
  shows "posts_inv s'"
proof -
  obtain ps where ps: "distinct ps" "set ps = {i. i < 4 \<and> posted s i}" "pp_errs s = map (\<lambda>i. the (pp_result s i)) ps"
    using assms(3) by (auto simp: posts_inv_def)
  have same: "posts_inv s'" if "\<And>i. posted s' i = posted s i" "pp_errs s' = pp_errs s" "\<And>i. posted s i \<Longrightarrow> pp_result s' i = pp_result s i"
    using ps that by (auto simp: posts_inv_def intro!: exI [of _ ps])
  from assms(1) show ?thesis
  proof (cases rule: pipes_step.cases)
    case (Finish k r)
    from leaving_posts have "\<not> (\<forall>r'. Post r' \<notin> set (leaving k r))" by blast
    then show ?thesis by (intro same) (auto simp: posted_def Finish(1,3))
  next
    case (Leave k a as)
    from assms(2) Leave(3) leave_invD(1) obtain r d where
      k: "pp_result s k = Some r" "leaving k r = d @ a # as" by blast
    show ?thesis
    proof (cases a)
      case (Post r')
      have r': "r' = r" using leaving_acts(2) [of r' k r] k(2) Post by simp
      have new: "\<not> posted s k" "posted s' k"
        using leaving_one_post [OF k(2) [unfolded Post]] by (auto simp: posted_def Leave(1,3) Post)
      have "posted s' i \<longleftrightarrow> posted s i \<or> i = k" for i using new(2) by (auto simp: posted_def Leave(1))
      then have "set (ps @ [k]) = {i. i < 4 \<and> posted s' i}" using ps(2) Leave(2) by auto
      moreover have "distinct (ps @ [k])" using ps(1,2) new(1) by simp
      moreover have "pp_errs s' = map (\<lambda>i. the (pp_result s' i)) (ps @ [k])"
        using ps(3) k(1) r' by (simp add: Leave(1) Post)
      ultimately show ?thesis unfolding posts_inv_def by blast
    next
      case (CloseW j ok)
      then show ?thesis by (intro same) (auto simp: posted_def Leave(1,3))
    next
      case (CloseR j)
      then show ?thesis by (intro same) (auto simp: posted_def Leave(1,3))
    qed
  qed (intro same; auto simp: posted_def split: pc.split)+
qed

text \<open>When four results are there, everyone has posted.\<close>

lemma posts_inv_all:
  assumes "posts_inv s"
  shows "all_posted s \<longleftrightarrow> (\<forall>i < 4. posted s i)"
    and "all_posted s \<Longrightarrow> set (pp_errs s) = (\<lambda>i. the (pp_result s i)) ` {i. i < 4}"
    and "length (pp_errs s) \<le> 4"
proof -
  from assms obtain ps where ps: "distinct ps" "set ps = {i. i < 4 \<and> posted s i}" "pp_errs s = map (\<lambda>i. the (pp_result s i)) ps"
    by (auto simp: posts_inv_def)
  have sub: "set ps \<subseteq> {i. i < 4}" using ps(2) by auto
  have "length (pp_errs s) = card (set ps)" by (simp add: ps(3) distinct_card [OF ps(1)])
  moreover have "card (set ps) = 4 \<longleftrightarrow> set ps = {i. i < 4}"
    using card_subset_eq [of "{i. i < (4 :: nat)}" "set ps"] sub by auto
  ultimately have all: "all_posted s \<longleftrightarrow> set ps = {i. i < 4}" by (simp add: all_posted_def)
  then show "all_posted s \<longleftrightarrow> (\<forall>i < 4. posted s i)" using ps(2) by auto
  show "set (pp_errs s) = (\<lambda>i. the (pp_result s i)) ` {i. i < 4}" if "all_posted s"
    using that all ps(3) by simp
  show "length (pp_errs s) \<le> 4"
    using card_mono [of "{i. i < (4 :: nat)}" "set ps"] sub \<open>length (pp_errs s) = card (set ps)\<close> by simp
qed

section \<open>Reachable states\<close>

definition pipes_inv :: "stage_fun \<Rightarrow> pipes \<Rightarrow> bool" where
  "pipes_inv F s \<longleftrightarrow> (\<forall>i. leave_inv s i \<and> closed_inv s i \<and> result_inv F s i \<and> write_inv F s i) \<and> pc_inv s \<and> end_inv s \<and> posts_inv s"

lemma pipes_inv_init: "pipes_inv F pipes_init"
  by (auto simp: pipes_inv_def leave_inv_def closed_inv_def result_inv_def write_inv_def pc_inv_def end_inv_def posts_inv_def
      posted_def pending_def)

lemma pipes_inv_step: "pipes_step F s s' \<Longrightarrow> pipes_inv F s \<Longrightarrow> pipes_inv F s'"
  unfolding pipes_inv_def
  using leave_inv_step closed_inv_step result_inv_step write_inv_step pc_inv_step end_inv_step posts_inv_step by meson

lemma pipes_inv_reach: "(pipes_step F)\<^sup>*\<^sup>* pipes_init s \<Longrightarrow> pipes_inv F s"
  by (induction rule: rtranclp_induct) (auto intro: pipes_inv_init pipes_inv_step)

lemmas pipes_invD = pipes_inv_def [THEN iffD1, THEN conjunct1, rule_format]

text \<open>
  Nobody closes a pipe with an error, sees one, or fails, unless some stage has failed of itself: its
  definition ends with that error on what it had read, however that would have gone on.
\<close>

definition caused :: "stage_fun \<Rightarrow> pipes \<Rightarrow> bool" where
  "caused F s \<longleftrightarrow> (\<exists>i<4. \<exists>e. pp_result s i = Some (Some e)
     \<and> (\<forall>rest. (input_over s i \<longrightarrow> rest = []) \<longrightarrow> F i (inp s i @ rest) = (Some e, pp_data s i)))"

definition disturbed :: "pipes \<Rightarrow> bool" where
  "disturbed s \<longleftrightarrow> (\<exists>i. pp_rclosed s i \<or> pp_wclosed s i = Some False \<or> pp_cut s i \<or> pp_end s i = Some False \<or> (\<exists>e. pp_result s i = Some (Some e)))"

lemma caused_step:
  assumes "pipes_step F s s'" "\<forall>k. leave_inv s k" "caused F s"
  shows "caused F s'"
proof -
  from assms(3) obtain i e where i: "i < 4" "pp_result s i = Some (Some e)"
    "\<And>rest. (input_over s i \<longrightarrow> rest = []) \<Longrightarrow> F i (inp s i @ rest) = (Some e, pp_data s i)" by (auto simp: caused_def)
  have left: "\<exists>l. pp_pc s i = Leaving l" using leave_invD(2) [of s i] assms(2) i(2) by fastforce
  have "pp_result s' i = pp_result s i \<and> pp_data s' i = pp_data s i \<and> inp s' i = inp s i \<and> (input_over s i \<longrightarrow> input_over s' i)"
    using assms(1)
    by (cases rule: pipes_step.cases) (use left in \<open>auto simp: input_over_def intro!: inp_cong split: if_splits\<close>)
  with i show ?thesis unfolding caused_def by (intro exI [of _ i]) auto
qed

lemma disturbed_step:
  assumes "pipes_step F s s'" "\<forall>k. leave_inv s k" "\<not> disturbed s" "disturbed s'"
  shows "caused F s'"
  using assms(1)
proof (cases rule: pipes_step.cases)
  case (Finish k r)
  with assms(3,4) obtain e where r: "r = Some e" by (cases r) (auto simp: disturbed_def split: if_splits)
  with Finish(4) assms(3)
  have "\<forall>rest. (input_over s k \<longrightarrow> rest = []) \<longrightarrow> F k (inp s k @ rest) = (Some e, pp_data s k)"
    by (simp add: may_finish_def disturbed_def)
  moreover have "inp s' k = inp s k" by (rule inp_cong) (simp add: Finish(1))
  ultimately show ?thesis unfolding caused_def using Finish(2) r
    by (intro exI [of _ k]) (simp add: Finish(1) input_over_def)
next
  case (Leave k a as)
  from assms(2) Leave(3) leave_invD(1) obtain r d where k: "pp_result s k = Some r" "leaving k r = d @ a # as" by blast
  have r: "r = None" using k(1) assms(3) by (cases r) (auto simp: disturbed_def)
  have "a \<in> set (leaving k r)" using k(2) by simp
  then have "a = Post None \<or> a = CloseW k True" using r by (auto simp: leaving_def split: if_splits)
  with assms(3,4) show ?thesis by (auto simp: disturbed_def Leave(1) split: if_splits)
qed (use assms(3,4) in \<open>auto simp: disturbed_def split: if_splits\<close>)

lemma disturbed_caused:
  assumes "(pipes_step F)\<^sup>*\<^sup>* pipes_init s"
  shows "disturbed s \<Longrightarrow> caused F s"
  using assms
proof (induction rule: rtranclp_induct)
  case base
  then show ?case by (simp add: disturbed_def)
next
  case (step s s')
  have "\<forall>k. leave_inv s k" using pipes_inv_reach [OF step.hyps(1)] by (simp add: pipes_inv_def)
  with step show ?case using caused_step disturbed_step by blast
qed

end
