(* ===== verification/Pipe_Progress.thy ===== *)
theory Pipe_Progress
  imports Pipe_Invariants
begin

text \<open>
  The pipe network always comes to its end: no reachable state is stuck before every goroutine has
  left, and a measure falls with every step.
\<close>

text \<open>What the network needs to know of the stages: their errors are their own, and the last one writes to no pipe.\<close>

definition staged :: "stage_fun \<Rightarrow> bool" where
  "staged F \<longleftrightarrow> (\<forall>i b e. i < 4 \<longrightarrow> fst (F i b) = Some e \<longrightarrow> stage_no e = i) \<and> (\<forall>b. snd (F 3 b) = [])"

lemma stage_function_simps [simp]:
  "stage_function pe d t encryptor http url' x 0 b = (case stage_dump (uncut pe) d t x of (e, info, r, x1) \<Rightarrow> (e, rd_data r))"
  "stage_function pe d t encryptor http url' x (Suc 0) b =
     (case stage_compress (uncut pe) (drv_Name d) (reader_of b) of (e, r) \<Rightarrow> (e, rd_data r))"
  "stage_function pe d t encryptor http url' x 2 b = (case stage_encrypt (uncut pe) encryptor (reader_of b) of (e, r) \<Rightarrow> (e, rd_data r))"
  "stage_function pe d t encryptor http url' x 3 b = (case stage_upload (uncut pe) http url' (reader_of b) of (e, sha, n, evs) \<Rightarrow> (e, []))"
  by (simp_all add: stage_function_def split: prod.split)

lemma stage_numbers:
  "stage_dump pe d t x = (Some e, info, r, x1) \<Longrightarrow> stage_no e = 0"
  "stage_compress pe n rd = (Some e, r) \<Longrightarrow> stage_no e = 1"
  "stage_encrypt pe encryptor rd = (Some e, r) \<Longrightarrow> stage_no e = 2"
  "stage_upload pe http url' rd = (Some e, sha, m, evs) \<Longrightarrow> stage_no e = 3"
     apply (auto simp: stage_dump_def split: prod.splits sum.splits) [1]
    apply (auto simp: stage_compress_def split: prod.splits option.splits) [1]
   apply (auto simp: stage_encrypt_def Let_def split: prod.splits option.splits if_splits) [1]
  apply (auto simp: stage_upload_def split: prod.splits sum.splits option.splits if_splits) [1]
  done

lemma stage_function_staged: "staged (stage_function pe d t encryptor http url' x)"
proof -
  have "stage_no e = i" if i: "i < 4" and e: "fst (stage_function pe d t encryptor http url' x i b) = Some e" for i b e
  proof -
    from i consider "i = 0" | "i = 1" | "i = 2" | "i = 3" by linarith
    then show ?thesis
      by cases (use e stage_numbers in \<open>auto split: prod.splits\<close>)
  qed
  then show ?thesis by (simp add: staged_def split: prod.split)
qed

section \<open>Progress\<close>

lemma stage_no_onto: "i < 4 \<Longrightarrow> \<exists>e. stage_no e = i"
proof -
  assume "i < 4"
  then consider "i = 0" | "i = 1" | "i = 2" | "i = 3" by linarith
  then show ?thesis
    by cases (blast intro: stage_no.simps)+
qed

lemma working_steps:
  assumes "pipes_inv F s" "staged F" "i < 4" "pp_pc s i = Working"
  shows "\<exists>s'. pipes_step F s s'"
proof (cases "pp_end s i = Some False \<or> pp_cut s i")
  case True
  obtain e where "stage_no e = i" using stage_no_onto [OF assms(3)] by blast
  with True have "may_finish F s i (Some e)" by (auto simp: may_finish_def)
  from Finish [of i s F, OF assms(3,4) this] show ?thesis by blast
next
  case False
  show ?thesis
  proof (cases "input_over s i")
    case False': False
    then show ?thesis using StartRead [of i s F] assms(3,4) False by (auto simp: input_over_def)
  next
    case True
    with False have over: "i = 0 \<or> pp_end s i = Some True" by (auto simp: input_over_def)
    have data: "prefix (pp_data s i) (snd (F i (inp s i)))"
    proof (cases "i < 3")
      case True
      with assms(1,4) write_invD [of F s i "[]"] show ?thesis by (simp add: pipes_inv_def pending_def)
    next
      case False
      with assms(1) show ?thesis by (simp add: pipes_inv_def pc_inv_def)
    qed
    show ?thesis
    proof (cases "pp_data s i = snd (F i (inp s i))")
      case True
      have "may_finish F s i (fst (F i (inp s i)))"
        using True False over \<open>input_over s i\<close> assms(2,3) by (cases "fst (F i (inp s i))") (auto simp: may_finish_def staged_def prod_eq_iff)
      from Finish [of i s F, OF assms(3,4) this] show ?thesis by blast
    next
      case neq: False
      with data obtain b where b: "snd (F i (inp s i)) = pp_data s i @ b" "b \<noteq> []" by (auto simp: prefix_def)
      have "i < 3"
      proof (rule ccontr)
        assume "\<not> i < 3"
        with assms(3) have "i = 3" by simp
        with b assms(2) show False by (simp add: staged_def)
      qed
      with b False True have "may_write F s i b" by (auto simp: may_write_def)
      from StartWrite [of s i F, OF assms(4) this] show ?thesis by blast
    qed
  qed
qed

lemma reading_steps:
  assumes "pipes_inv F s" "staged F" "i < 3" "pp_pc s (Suc i) = Reading" "pp_pc s i \<noteq> Reading"
  shows "\<exists>s'. pipes_step F s s'"
proof (cases "pp_pc s i")
  case Working
  then show ?thesis using working_steps [OF assms(1,2), of i] assms(3) by simp
next
  case (Writing b)
  show ?thesis
  proof (cases "pp_rclosed s i")
    case True
    from WriteFails [of i s b F, OF assms(3) Writing this] show ?thesis by blast
  next
    case False
    have "pp_wclosed s i = None" using assms(1) Writing leave_invD(2) [of s i] by (simp add: pipes_inv_def)
    moreover have "b \<noteq> []" using assms(1) Writing by (simp add: pipes_inv_def pc_inv_def)
    ultimately show ?thesis using Transfer [of i s b "length b" F] assms(3,4) Writing False by auto
  qed
next
  case (Leaving l)
  show ?thesis
  proof (cases l)
    case Nil
    have "pp_wclosed s i \<noteq> None" using gone(1) [of s i] assms(1,3) Leaving Nil by (simp add: pipes_inv_def)
    then obtain ok where "pp_wclosed s i = Some ok" by blast
    then show ?thesis using ReadEnds [of i s "\<not> pp_rclosed s i \<and> ok" F] assms(3,4) by auto
  next
    case (Cons a as)
    then show ?thesis using Leave [of i s a as F] assms(3) Leaving by auto
  qed
qed (use assms(5) in simp)

text \<open>No state is stuck before everyone has left.\<close>

lemma pipes_progress:
  assumes "pipes_inv F s" "staged F" "\<not> (\<exists>s'. pipes_step F s s')" "i < 4"
  shows "pp_pc s i = Leaving []"
proof -
  have working: "pp_pc s k \<noteq> Working" if "k < 4" for k using working_steps [OF assms(1,2) that] assms(3) by blast
  have leaving: "as = []" if "k < 4" "pp_pc s k = Leaving as" for k as
    using that Leave [of k s] assms(3) by (cases as) blast+
  have reading: "pp_pc s k \<noteq> Reading" if "k < 4" for k
    using that
  proof (induction k)
    case 0
    with assms(1) show ?case by (auto simp: pipes_inv_def pc_inv_def)
  next
    case (Suc k)
    with reading_steps [OF assms(1,2), of k] assms(3) show ?case by auto
  qed
  have writing_next: "pp_pc s k \<noteq> Writing b" if k: "k < 3" and not: "\<And>c. pp_pc s (Suc k) \<noteq> Writing c" for k b
  proof
    assume w: "pp_pc s k = Writing b"
    have gone': "pp_pc s (Suc k) = Leaving []"
    proof -
      from k have k4: "Suc k < 4" by simp
      show ?thesis
      proof (cases "pp_pc s (Suc k)")
        case (Leaving l)
        with leaving [OF k4] show ?thesis by simp
      qed (use working [OF k4] reading [OF k4] not in blast)+
    qed
    have "pp_rclosed s k"
    proof (rule gone(2) [OF _ gone'])
      show "leave_inv s (Suc k)" using assms(1) by (simp add: pipes_inv_def)
      show "pp_result s (Suc k) \<noteq> Some None"
      proof
        assume "pp_result s (Suc k) = Some None"
        with assms(1) have "pp_wclosed s k = Some True" by (auto simp: pipes_inv_def result_inv_def end_inv_def)
        with w leave_invD(2) [of s k] assms(1) show False by (simp add: pipes_inv_def)
      qed
    qed (use k in simp_all)
    with WriteFails [of k s b F, OF k w] assms(3) show False by blast
  qed
  have w3: "pp_pc s 3 \<noteq> Writing b" for b using assms(1) by (auto simp: pipes_inv_def pc_inv_def)
  then have w2: "pp_pc s 2 \<noteq> Writing b" for b using writing_next [of 2 b] by (simp add: eval_nat_numeral)
  then have w1: "pp_pc s 1 \<noteq> Writing b" for b using writing_next [of 1 b] by (simp add: eval_nat_numeral)
  then have w0: "pp_pc s 0 \<noteq> Writing b" for b using writing_next [of 0 b] by simp
  have writing: "pp_pc s i \<noteq> Writing b" for b
  proof -
    from assms(4) consider "i = 0" | "i = 1" | "i = 2" | "i = 3" by linarith
    then show ?thesis by cases (use w0 w1 w2 w3 in simp_all)
  qed
  show ?thesis
    using assms(4) working reading writing leaving by (cases "pp_pc s i") auto
qed

section \<open>Termination\<close>

text \<open>Everything that can ever go through the first, second and third pipe.\<close>

fun outputs :: "stage_fun \<Rightarrow> nat \<Rightarrow> bytes set" where
  "outputs F 0 = set (prefixes (snd (F 0 [])))"
| "outputs F (Suc i) = (\<Union>d \<in> outputs F i. set (prefixes (snd (F (Suc i) d))))"

lemma finite_outputs [simp]: "finite (outputs F i)"
  by (induction i) simp_all

lemma data_outputs:
  assumes "pipes_inv F s" "i < 3"
  shows "pp_data s i \<in> outputs F i"
  using assms(2)
proof (induction i)
  case 0
  have "prefix (pp_data s 0 @ pending s 0) (snd (F 0 (inp s 0 @ [])))"
    using assms(1) by (intro write_invD) (auto simp: pipes_inv_def)
  then show ?case by (auto dest: append_prefixD)
next
  case (Suc i)
  have "prefix (pp_data s (Suc i) @ pending s (Suc i)) (snd (F (Suc i) (inp s (Suc i) @ [])))"
    using assms(1) Suc(2) by (intro write_invD) (auto simp: pipes_inv_def)
  with Suc show ?case by (auto dest: append_prefixD)
qed

definition volume :: "pipes \<Rightarrow> nat" where
  "volume s = length (pp_data s 0) + length (pp_data s 1) + length (pp_data s 2)"

definition max_volume :: "stage_fun \<Rightarrow> nat" where
  "max_volume F = Max (length ` outputs F 0) + Max (length ` outputs F 1) + Max (length ` outputs F 2)"

lemma volume_le: "pipes_inv F s \<Longrightarrow> volume s \<le> max_volume F"
  unfolding volume_def max_volume_def
  by (intro add_mono Max_ge finite_imageI finite_outputs imageI data_outputs) simp_all

fun pc_weight :: "pc \<Rightarrow> nat" where
  "pc_weight Working = 6"
| "pc_weight Reading = 5"
| "pc_weight (Writing b) = 5"
| "pc_weight (Leaving l) = length l"

definition weight :: "pipes \<Rightarrow> nat \<Rightarrow> nat" where
  "weight s i = pc_weight (pp_pc s i) + (if pp_end s i = None then 2 else 0) + (if pp_cut s i then 0 else 2)"

definition steps_left :: "stage_fun \<Rightarrow> pipes \<Rightarrow> nat" where
  "steps_left F s = 3 * (max_volume F - volume s) + (weight s 0 + weight s 1 + weight s 2 + weight s 3)"

lemma length_leaving: "length (leaving i r) \<le> 4"
  by (auto simp: leaving_def split: option.split)

lemma sum_weight_less:
  assumes "i < 4" "weight s' i < weight s i" "\<And>k. k \<noteq> i \<Longrightarrow> weight s' k = weight s k" "volume s' = volume s"
  shows "steps_left F s' < steps_left F s"
proof -
  from assms(1) consider "i = 0" | "i = 1" | "i = 2" | "i = 3" by linarith
  then show ?thesis
    by cases (use assms in \<open>simp_all add: steps_left_def\<close>)
qed

lemma steps_left_falls:
  assumes "pipes_step F s s'" "pipes_inv F s"
  shows "steps_left F s' < steps_left F s"
  using assms(1)
proof (cases rule: pipes_step.cases)
  case (StartRead i)
  then show ?thesis by (intro sum_weight_less [of i]) (auto simp: weight_def volume_def)
next
  case (StartWrite i b)
  then show ?thesis by (intro sum_weight_less [of i]) (auto simp: weight_def volume_def may_write_def)
next
  case (Transfer i b m)
  have "volume s' \<le> max_volume F" by (rule volume_le) (rule pipes_inv_step [OF assms])
  moreover have "volume s' = volume s + m"
    using Transfer by (auto simp: volume_def less_Suc_eq numeral_3_eq_3)
  moreover have "weight s' i \<le> weight s i + 1" "weight s' (Suc i) \<le> weight s (Suc i) + 1"
    "\<And>k. k \<noteq> i \<Longrightarrow> k \<noteq> Suc i \<Longrightarrow> weight s' k = weight s k"
    using Transfer by (auto simp: weight_def)
  moreover have "i = 0 \<or> i = 1 \<or> i = 2" using Transfer(2) by linarith
  ultimately show ?thesis using Transfer(7) by (elim disjE) (simp_all add: steps_left_def flip: numeral_2_eq_2)
next
  case (ReadEnds i ok)
  have "pp_end s (Suc i) = None" using assms(2) ReadEnds(3) by (simp add: pipes_inv_def pc_inv_def)
  with ReadEnds show ?thesis by (intro sum_weight_less [of "Suc i"]) (auto simp: weight_def volume_def)
next
  case (WriteFails i b)
  have "\<not> pp_cut s i" using assms(2) WriteFails(3) by (simp add: pipes_inv_def pc_inv_def)
  with WriteFails show ?thesis by (intro sum_weight_less [of i]) (auto simp: weight_def volume_def)
next
  case (Finish i r)
  with length_leaving [of i r] show ?thesis by (intro sum_weight_less [of i]) (auto simp: weight_def volume_def)
next
  case (Leave i a as)
  then show ?thesis by (intro sum_weight_less [of i]) (auto simp: weight_def volume_def)
qed

lemma steps_left_bound:
  assumes "(pipes_step F ^^ n) pipes_init s"
  shows "pipes_inv F s \<and> n + steps_left F s \<le> steps_left F pipes_init"
  using assms
proof (induction n arbitrary: s)
  case 0
  then show ?case by (auto intro: pipes_inv_init)
next
  case (Suc n)
  then obtain s1 where "(pipes_step F ^^ n) pipes_init s1" "pipes_step F s1 s" by auto
  with Suc.IH [of s1] steps_left_falls [of F s1 s] pipes_inv_step [of F s1 s] show ?case by fastforce
qed

text \<open>Some run gets to the end.\<close>

lemma pipes_run_exists:
  assumes "staged F"
  shows "\<exists>s. (pipes_step F)\<^sup>*\<^sup>* pipes_init s \<and> (\<forall>i < 4. pp_pc s i = Leaving [])"
proof -
  have "\<exists>s'. (pipes_step F)\<^sup>*\<^sup>* s s' \<and> (\<forall>i < 4. pp_pc s' i = Leaving [])" if "pipes_inv F s" for s
    using that
  proof (induction "steps_left F s" arbitrary: s rule: less_induct)
    case less
    show ?case
    proof (cases "\<exists>s1. pipes_step F s s1")
      case True
      then obtain s1 where s1: "pipes_step F s s1" by blast
      from less(1) [OF steps_left_falls [OF s1 less(2)] pipes_inv_step [OF s1 less(2)]] s1 show ?thesis
        by (meson converse_rtranclp_into_rtranclp)
    next
      case False
      with pipes_progress [OF less(2) assms] show ?thesis by blast
    qed
  qed
  from this [OF pipes_inv_init] show ?thesis .
qed

text \<open>When everyone has left, the results are there.\<close>

lemma left_all_posted: "pipes_inv F s \<Longrightarrow> \<forall>i < 4. pp_pc s i = Leaving [] \<Longrightarrow> all_posted s"
  using posts_inv_all(1) [of s] by (auto simp: pipes_inv_def posted_def)

section \<open>The result\<close>

text \<open>If all results are nil, the stages have passed everything on.\<close>

lemma posted_nil_chain:
  assumes "pipes_inv F s" "all_posted s" "\<forall>r \<in> set (pp_errs s). r = None" "i < 4"
  shows "F i (inp s i) = (None, pp_data s i)"
proof -
  have "posted s i" using posts_inv_all(1) [of s] assms(1,2,4) by (simp add: pipes_inv_def)
  then obtain l where "pp_pc s i = Leaving l" by (auto simp: posted_def split: pc.splits)
  with leave_invD(1) [of s i] assms(1) obtain r where r: "pp_result s i = Some r" by (auto simp: pipes_inv_def)
  moreover have "r \<in> set (pp_errs s)"
    using posts_inv_all(2) [of s] assms(1,2,4) r by (force simp: pipes_inv_def)
  ultimately show ?thesis using assms(1,3) by (auto simp: pipes_inv_def result_inv_def)
qed

text \<open>\<open>C\<close> is what a run in order passes on; while it works nobody fails and every pipe holds a prefix of it.\<close>

definition fed :: "(nat \<Rightarrow> bytes) \<Rightarrow> nat \<Rightarrow> bytes" where
  "fed C i = (case i of 0 \<Rightarrow> [] | Suc j \<Rightarrow> C j)"

lemma fed_simps [simp]: "fed C 0 = []" "fed C (Suc j) = C j" "fed C 2 = C 1" "fed C 3 = C 2"
  by (simp_all add: fed_def eval_nat_numeral)

definition chain :: "stage_fun \<Rightarrow> (nat \<Rightarrow> bytes) \<Rightarrow> bool" where
  "chain F C \<longleftrightarrow> (\<forall>i < 4. F i (fed C i) = (None, C i))"

definition healthy :: "pipes \<Rightarrow> bool" where
  "healthy s \<longleftrightarrow> (\<forall>i. \<not> pp_rclosed s i \<and> \<not> pp_cut s i \<and> pp_end s i \<noteq> Some False \<and> pp_wclosed s i \<noteq> Some False
     \<and> (\<forall>e. pp_result s i \<noteq> Some (Some e)))"

lemma healthy_data:
  assumes "chain F C" "pipes_inv F s" "healthy s" "i < 4"
  shows "prefix (inp s i) (fed C i)"
    and "input_over s i \<Longrightarrow> inp s i = (fed C i)"
    and "pp_result s i = Some None \<Longrightarrow> pp_data s i = C i"
proof -
  have "prefix (inp s i) (fed C i)
    \<and> (input_over s i \<longrightarrow> inp s i = (fed C i))
    \<and> (pp_result s i = Some None \<longrightarrow> pp_data s i = C i)"
    using assms(4)
  proof (induction i)
    case 0
    have "F 0 [] = (None, C 0)" using assms(1) by (auto simp: chain_def dest: spec [of _ 0])
    moreover have "pp_result s 0 = Some None \<Longrightarrow> F 0 [] = (None, pp_data s 0)"
      using assms(2) by (simp add: pipes_inv_def result_inv_def) (metis inp_simps(1))
    ultimately show ?case by auto
  next
    case (Suc i)
    let ?I = "fed C i"
    have IH: "prefix (inp s i) ?I" "input_over s i \<Longrightarrow> inp s i = ?I" "pp_result s i = Some None \<Longrightarrow> pp_data s i = C i"
      using Suc by simp_all
    from IH(1) obtain rest where rest: "?I = inp s i @ rest" by (auto simp: prefix_def)
    have "prefix (pp_data s i @ pending s i) (snd (F i (inp s i @ rest)))"
      using assms(2) Suc(2) IH(2) rest by (intro write_invD) (auto simp: pipes_inv_def)
    moreover have "snd (F i ?I) = C i" using assms(1) Suc(2) by (simp add: chain_def)
    ultimately have pre: "prefix (pp_data s i) (C i)" using rest by (auto dest: append_prefixD)
    have over: "pp_data s i = C i" if "input_over s (Suc i)"
    proof -
      from that obtain ok where "pp_end s (Suc i) = Some ok" by (auto simp: input_over_def)
      moreover have "pp_end s (Suc i) \<noteq> Some False" using assms(3) by (simp add: healthy_def)
      ultimately have "pp_end s (Suc i) = Some True" by (cases ok) simp_all
      with assms(2) have "pp_wclosed s i = Some True" by (simp add: pipes_inv_def end_inv_def)
      with assms(2) have "pp_result s i = Some None" by (auto simp: pipes_inv_def closed_inv_def)
      with IH(3) show ?thesis by simp
    qed
    have "pp_data s (Suc i) = C (Suc i)" if "pp_result s (Suc i) = Some None"
    proof -
      from that assms(2) have "pp_end s (Suc i) = Some True" "F (Suc i) (pp_data s i) = (None, pp_data s (Suc i))"
        by (auto simp: pipes_inv_def result_inv_def)
      moreover have "F (Suc i) (C i) = (None, C (Suc i))"
        using assms(1) Suc(2) by (auto simp: chain_def dest: spec [of _ "Suc i"])
      ultimately show ?thesis using over by (simp add: input_over_def)
    qed
    with pre over show ?case by simp
  qed
  then show "prefix (inp s i) (fed C i)"
    and "input_over s i \<Longrightarrow> inp s i = (fed C i)"
    and "pp_result s i = Some None \<Longrightarrow> pp_data s i = C i" by blast+
qed

lemma healthy_step:
  assumes "chain F C" "pipes_inv F s" "healthy s" "pipes_step F s s'"
  shows "healthy s'"
  using assms(4)
proof (cases rule: pipes_step.cases)
  case (ReadEnds i ok)
  with assms(3) show ?thesis by (cases ok) (auto simp: healthy_def)
next
  case (WriteFails i b)
  with assms(3) show ?thesis by (auto simp: healthy_def)
next
  case (Finish i r)
  have "r = None"
  proof (cases r)
    case (Some e)
    obtain rest where rest: "(fed C i) = inp s i @ rest" "input_over s i \<Longrightarrow> rest = []"
      using healthy_data(1,2) [OF assms(1-3) Finish(2)] by (auto simp: prefix_def)
    have "F i (inp s i @ rest) = (None, C i)" using assms(1) Finish(2) by (simp add: chain_def flip: rest(1))
    with Finish(4) Some assms(3) rest(2) show ?thesis by (auto simp: may_finish_def healthy_def)
  qed simp
  with assms(3) show ?thesis by (auto simp: healthy_def Finish(1))
next
  case (Leave i a as)
  have inv: "leave_inv s i" using assms(2) by (simp add: pipes_inv_def)
  obtain r d where r: "pp_result s i = Some r" "leaving i r = d @ a # as"
    using leave_invD(1) [OF inv Leave(3)] by blast
  with assms(3) have "r = None" by (cases r) (auto simp: healthy_def)
  with r(2) have "a = Post None \<or> a = CloseW i True" by (auto simp: leaving_def Cons_eq_append_conv split: if_splits)
  with assms(3) show ?thesis by (auto simp: healthy_def Leave(1) split: if_splits)
qed (use assms(3) in \<open>simp_all add: healthy_def\<close>)

lemma healthy_reach:
  assumes "chain F C" "(pipes_step F)\<^sup>*\<^sup>* pipes_init s"
  shows "healthy s"
  using assms(2)
proof (induction rule: rtranclp_induct)
  case base
  show ?case by (simp add: healthy_def)
next
  case (step s1 s2)
  from healthy_step [OF assms(1) pipes_inv_reach [OF step(1)] step(3) step(2)] show ?case .
qed

lemma healthy_nil:
  assumes "pipes_inv F s" "healthy s" "all_posted s" "r \<in> set (pp_errs s)"
  shows "r = None"
proof -
  from posts_inv_all(2) [of s] assms obtain i where i: "i < 4" "r = the (pp_result s i)" by (auto simp: pipes_inv_def)
  have "posted s i" using posts_inv_all(1) [of s] assms(1,3) i(1) by (simp add: pipes_inv_def)
  then obtain l where "pp_pc s i = Leaving l" by (auto simp: posted_def split: pc.splits)
  with leave_invD(1) [of s i] assms(1) obtain r' where "pp_result s i = Some r'" by (auto simp: pipes_inv_def)
  with assms(2) i(2) show ?thesis by (cases r') (auto simp: healthy_def)
qed

end
