(* ===== verification/Pipe_Props.thy ===== *)
theory Pipe_Props
  imports Pipe_Progress Runner_Props
begin

text \<open>
  Properties of the four goroutines of a run over their pipes: they never block each other for
  good, they end after a bounded number of steps, and whatever their interleaving, the run has the
  result of the stages executed one after the other.
\<close>

section \<open>The stages in order\<close>

lemma stage_readers:
  "stage_dump pe d t x = (None, info, r, x1) \<Longrightarrow> r = reader_of (rd_data r)"
  "stage_compress pe n inp' = (None, r) \<Longrightarrow> r = reader_of (rd_data r)"
  "stage_encrypt pe encr inp' = (None, r) \<Longrightarrow> r = reader_of (rd_data r)"
  by (auto simp: stage_dump_def stage_compress_def stage_encrypt_def pipe_reader_def reader_of_def Let_def
      split: prod.splits sum.splits option.splits if_splits)

lemma run_pipeline_chain:
  assumes "chain (stage_function pe d t encr http (up_PresignedPutUrl creds) x) C"
  shows "\<exists>c evs x1 pr. run_pipeline (uncut pe) d t encr http creds rq x = (Inr c, evs, x1) \<and> EvPut pr \<in> set evs \<and> pr_body pr = C 2"
proof -
  have F: "stage_function pe d t encr http (up_PresignedPutUrl creds) x i (fed C i) = (None, C i)" if "i < 4" for i
    using assms that by (simp add: chain_def)
  obtain e1 info dumpR x2 where s1: "stage_dump (uncut pe) d t x = (e1, info, dumpR, x2)" by (metis prod_cases4)
  with F [of 0] have e1: "e1 = None" "rd_data dumpR = C 0" by simp_all
  with stage_readers(1) s1 have d: "dumpR = reader_of (C 0)" by metis
  obtain e2 compR where s2: "stage_compress (uncut pe) (drv_Name d) (reader_of (C 0)) = (e2, compR)" by fastforce
  with F [of 1] have e2: "e2 = None" "rd_data compR = C 1" by simp_all
  with stage_readers(2) s2 have c: "compR = reader_of (C 1)" by metis
  obtain e3 encR where s3: "stage_encrypt (uncut pe) encr (reader_of (C 1)) = (e3, encR)" by fastforce
  with F [of 2] have e3: "e3 = None" "rd_data encR = C 2" by simp_all
  with stage_readers(3) s3 have e: "encR = reader_of (C 2)" by metis
  obtain e4 sha n evs1 where s4: "stage_upload (uncut pe) http (up_PresignedPutUrl creds) (reader_of (C 2)) = (e4, sha, n, evs1)"
    by (metis prod_cases4)
  with F [of 3] have e4: "e4 = None" by simp
  from stage_upload_ok s4 e4 obtain pr where pr: "evs1 = [EvPut pr]" "pr_body pr = C 2" by fastforce
  have "firstErr (pe_pick (uncut pe)) [e1, e2, e3, e4] = None" by (simp add: firstErr_None e1 e2 e3 e4)
  with s1 s2 s3 s4 d c e pr show ?thesis by (simp add: run_pipeline_def)
qed

lemma chain_of_run_pipeline:
  assumes "run_pipeline (uncut pe) d t encr http creds rq x = (Inr c, evs, x1)"
  shows "\<exists>C. chain (stage_function pe d t encr http (up_PresignedPutUrl creds) x) C"
proof -
  obtain e1 info dumpR x2 where s1: "stage_dump (uncut pe) d t x = (e1, info, dumpR, x2)" by (metis prod_cases4)
  obtain e2 compR where s2: "stage_compress (uncut pe) (drv_Name d) dumpR = (e2, compR)" by fastforce
  obtain e3 encR where s3: "stage_encrypt (uncut pe) encr compR = (e3, encR)" by fastforce
  obtain e4 sha n evs1 where s4: "stage_upload (uncut pe) http (up_PresignedPutUrl creds) encR = (e4, sha, n, evs1)"
    by (metis prod_cases4)
  from assms s1 s2 s3 s4 have "firstErr (pe_pick (uncut pe)) [e1, e2, e3, e4] = None"
    by (auto simp: run_pipeline_def split: option.splits)
  then have nil: "e1 = None" "e2 = None" "e3 = None" "e4 = None" by (simp_all add: firstErr_None)
  have r: "dumpR = reader_of (rd_data dumpR)" "compR = reader_of (rd_data compR)" "encR = reader_of (rd_data encR)"
    using stage_readers(1) [of "uncut pe" d t x] stage_readers(2) [of "uncut pe" "drv_Name d" dumpR]
      stage_readers(3) [of "uncut pe" encr compR] s1 s2 s3 nil by blast+
  let ?C = "\<lambda>i. if i = 0 then rd_data dumpR else if i = 1 then rd_data compR else if i = 2 then rd_data encR else []"
  have "stage_function pe d t encr http (up_PresignedPutUrl creds) x i (fed ?C i) = (None, ?C i)" if "i < 4" for i
  proof -
    from that consider "i = 0" | "i = 1" | "i = 2" | "i = 3" by linarith
    then show ?thesis
    proof cases
      case 1
      with s1 nil show ?thesis by simp
    next
      case 2
      with s2 r(1) nil show ?thesis by simp
    next
      case 3
      with s3 r(2) nil show ?thesis by simp
    next
      case 4
      with s4 r(3) nil show ?thesis by simp
    qed
  qed
  then show ?thesis unfolding chain_def by blast
qed

lemma first_posted_None: "first_posted s = None \<longleftrightarrow> (\<forall>r \<in> set (pp_errs s). r = None)"
proof -
  have "foldl (\<lambda>first e. if e \<noteq> None \<and> first = None then e else first) a es = None \<longleftrightarrow> a = None \<and> (\<forall>r \<in> set es. r = None)"
    for a :: "stage_err option" and es
    by (induction es arbitrary: a) auto
  then show ?thesis by (simp add: first_posted_def)
qed

lemma posted_disturbed:
  assumes "pipes_inv F s" "all_posted s" "first_posted s \<noteq> None"
  shows "disturbed s"
proof -
  from assms(3) obtain e where "Some e \<in> set (pp_errs s)" by (auto simp: first_posted_None)
  with posts_inv_all(2) [of s] assms(1,2) obtain i where i: "i < 4" "the (pp_result s i) = Some e"
    by (auto simp: pipes_inv_def)
  have "posted s i" using posts_inv_all(1) [of s] assms(1,2) i(1) by (simp add: pipes_inv_def)
  then obtain l where "pp_pc s i = Leaving l" by (cases "pp_pc s i") (simp_all add: posted_def)
  with leave_invD(1) [of s i l] assms(1) i(2) have "pp_result s i = Some (Some e)" by (auto simp: pipes_inv_def)
  then show ?thesis by (auto simp: disturbed_def)
qed

lemma pipes_chain:
  assumes "pipes_inv F s" "all_posted s" "first_posted s = None"
  shows "chain F (pp_data s)"
  using posted_nil_chain [OF assms(1,2)] assms(3) by (auto simp: chain_def first_posted_None inp_def fed_def)

text \<open>A complete run of the network, counted.\<close>

lemma complete_run:
  obtains s n where "(pipes_step (stage_function pe d t encr http url' x))\<^sup>*\<^sup>* pipes_init s"
    "(pipes_step (stage_function pe d t encr http url' x) ^^ n) pipes_init s" "all_posted s"
proof -
  let ?F = "stage_function pe d t encr http url' x"
  from pipes_run_exists [OF stage_function_staged [of pe d t encr http url' x]]
  obtain s where s: "(pipes_step ?F)\<^sup>*\<^sup>* pipes_init s" "\<forall>i < 4. pp_pc s i = Leaving []" by (elim exE conjE)
  from rtranclp_imp_relpowp [OF s(1)] obtain n where "(pipes_step ?F ^^ n) pipes_init s" by (elim exE)
  with s(1) left_all_posted [OF pipes_inv_reach [OF s(1)] s(2)] that show thesis by blast
qed

section \<open>Properties\<close>

text \<open>C8: The goroutines of a run never block each other for good: as long as one of them has not left, some
  step is possible, whichever of dump, compression, encryption, staging or upload fails and when;
  and once \<open>Run\<close> has received four results (and goes on to return and to wipe the key) no stage
  reads, writes or computes any more.\<close>

theorem pipes_never_stuck:
  assumes "(pipes_step (stage_function pe d t encr http url' x))\<^sup>*\<^sup>* pipes_init s"
  shows "((\<exists>s'. pipes_step (stage_function pe d t encr http url' x) s s') \<or> all_posted s \<and> (\<forall>i < 4. pp_pc s i = Leaving []))
    \<and> (all_posted s \<longrightarrow> (\<forall>i < 4. posted s i))"
proof -
  note inv = pipes_inv_reach [OF assms]
  have "all_posted s \<and> (\<forall>i < 4. pp_pc s i = Leaving [])" if "\<nexists>s'. pipes_step (stage_function pe d t encr http url' x) s s'"
    using pipes_progress [OF inv stage_function_staged that] left_all_posted [OF inv] by blast
  moreover have "\<forall>i < 4. posted s i" if "all_posted s"
    using posts_inv_all(1) [of s] that inv by (simp add: pipes_inv_def)
  ultimately show ?thesis by blast
qed

theorem pipes_never_stuck_witness:
  "\<exists>s. pp_pc s 0 = Leaving (leaving 0 (Some (StageDump NilTarget))) \<and> (\<exists>s'. pipes_step (stage_function example_pipe
      (stub_driver\<lparr>drv_Dump := \<lambda>x t out. (Inl NilTarget, out, x)\<rparr>) example_pg_target None (\<lambda>rq. PutBuildFailed) ''https://s3'' ()) s s')"
proof -
  let ?F = "stage_function example_pipe (stub_driver\<lparr>drv_Dump := \<lambda>x t out. (Inl NilTarget, out, x)\<rparr>) example_pg_target None
      (\<lambda>rq. PutBuildFailed) ''https://s3'' ()"
  let ?s = "pipes_init\<lparr>pp_result := (pp_result pipes_init)(0 := Some (Some (StageDump NilTarget))),
      pp_pc := (pp_pc pipes_init)(0 := Leaving (leaving 0 (Some (StageDump NilTarget))))\<rparr>"
  have "?F 0 [] = (Some (StageDump NilTarget), [])" by (simp add: stage_dump_def stub_driver_def)
  then have "may_finish ?F pipes_init 0 (Some (StageDump NilTarget))" by (simp add: may_finish_def input_over_def)
  then have "pipes_step ?F pipes_init ?s" by (intro Finish) simp_all
  then have "(pipes_step ?F)\<^sup>*\<^sup>* pipes_init ?s" by blast
  from pipes_never_stuck [OF this] show ?thesis by (intro exI [of _ ?s]) (auto simp: all_posted_def)
qed

text \<open>C9: The goroutines of a run come to an end: however they interleave and cut their reads and writes, they
  take at most three steps for every byte that can ever go through one of the pipes, and forty more.\<close>

theorem pipes_end:
  assumes "(pipes_step (stage_function pe d t encr http url' x) ^^ n) pipes_init s"
  shows "n \<le> 3 * max_volume (stage_function pe d t encr http url' x) + 40"
proof -
  have "steps_left F pipes_init \<le> 3 * max_volume F + 40" for F
    by (simp add: steps_left_def weight_def)
  with steps_left_bound [OF assms] show ?thesis by (meson add_leE order_trans)
qed

theorem pipes_end_witness:
  "\<exists>n s. all_posted s \<and> (pipes_step (stage_function example_pipe stub_driver example_pg_target None (\<lambda>rq. PutBuildFailed) ''https://s3'' ()) ^^ n) pipes_init s
    \<and> n \<le> 3 * max_volume (stage_function example_pipe stub_driver example_pg_target None (\<lambda>rq. PutBuildFailed) ''https://s3'' ()) + 40"
proof -
  let ?F = "stage_function example_pipe stub_driver example_pg_target None (\<lambda>rq. PutBuildFailed) ''https://s3'' ()"
  obtain s n where s: "(pipes_step ?F)\<^sup>*\<^sup>* pipes_init s" "(pipes_step ?F ^^ n) pipes_init s" "all_posted s"
    by (rule complete_run)
  show ?thesis by (intro exI conjI) (rule s(3), rule s(2), rule pipes_end [OF s(2)])
qed

text \<open>C7: Concurrency does not change the result of a run: whatever the interleaving of the four goroutines, when
  \<open>Run\<close> has received their results it finds no error exactly when \<open>run_pipeline\<close>, which executes the
  stages one after the other, succeeds; then the body it uploads is what went through the last
  pipe; and otherwise some stage has really failed, with an error that is the result of its
  definition for the input it had read (the others may have failed only because of it).\<close>

theorem pipes_run_as_in_order:
  assumes "(pipes_step (stage_function pe d t encr http (up_PresignedPutUrl creds) x))\<^sup>*\<^sup>* pipes_init s" "all_posted s"
  shows "(first_posted s = None \<longleftrightarrow> (\<exists>c evs x1. run_pipeline (uncut pe) d t encr http creds rq x = (Inr c, evs, x1)))
    \<and> (first_posted s = None \<longrightarrow> (\<exists>c evs x1 pr. run_pipeline (uncut pe) d t encr http creds rq x = (Inr c, evs, x1)
         \<and> EvPut pr \<in> set evs \<and> pr_body pr = pp_data s 2))
    \<and> (first_posted s \<noteq> None \<longrightarrow> (\<exists>i<4. \<exists>e. pp_result s i = Some (Some e)
         \<and> stage_function pe d t encr http (up_PresignedPutUrl creds) x i (inp s i) = (Some e, pp_data s i)))"
proof -
  let ?F = "stage_function pe d t encr http (up_PresignedPutUrl creds) x"
  note inv = pipes_inv_reach [OF assms(1)]
  have "\<exists>c evs x1 pr. run_pipeline (uncut pe) d t encr http creds rq x = (Inr c, evs, x1) \<and> EvPut pr \<in> set evs \<and> pr_body pr = pp_data s 2"
    if "first_posted s = None"
    by (rule run_pipeline_chain [OF pipes_chain [OF inv assms(2) that]])
  moreover have "first_posted s = None" if r: "run_pipeline (uncut pe) d t encr http creds rq x = (Inr c, evs, x1)" for c evs x1
  proof -
    obtain C where "chain ?F C" using chain_of_run_pipeline [OF r] by blast
    from healthy_nil [OF inv healthy_reach [OF this assms(1)] assms(2)] show ?thesis by (auto simp: first_posted_None)
  qed
  moreover have "\<exists>i<4. \<exists>e. pp_result s i = Some (Some e) \<and> ?F i (inp s i) = (Some e, pp_data s i)" if "first_posted s \<noteq> None"
    using disturbed_caused [OF assms(1) posted_disturbed [OF inv assms(2) that]] by (force simp: caused_def)
  ultimately show ?thesis by blast
qed

theorem pipes_run_as_in_order_witness:
  "\<exists>s. all_posted s \<and> first_posted s = None \<and> pp_data s 2 = bytes_of_string ''PGDMP!''
    \<and> (pipes_step (stage_function example_pipe stub_driver example_pg_target None (\<lambda>rq. PutResponse 200 (length (pr_body rq))) ''https://s3'' ()))\<^sup>*\<^sup>* pipes_init s"
proof -
  let ?http = "\<lambda>rq. PutResponse 200 (length (pr_body rq))"
  let ?creds = "\<lparr>up_PresignedPutUrl = ''https://s3'', up_ExpiresAtMs = 0, up_FinalS3Key = ''k''\<rparr>"
  let ?F = "stage_function example_pipe stub_driver example_pg_target None ?http (up_PresignedPutUrl ?creds) ()"
  obtain s n where s: "(pipes_step ?F)\<^sup>*\<^sup>* pipes_init s" and all: "all_posted s"
    by (rule complete_run)
  have un: "uncut example_pipe = example_pipe" by (simp add: uncut_def example_pipe_def)
  obtain pr sha where u: "stage_upload example_pipe ?http ''https://s3'' (reader_of (bytes_of_string ''PGDMP!''))
      = (None, sha, 6, [EvPut pr])" "pr_body pr = bytes_of_string ''PGDMP!''"
    using example_upload [of "''https://s3''" "bytes_of_string ''PGDMP!''"] by auto
  then have "\<exists>c. run_pipeline example_pipe stub_driver example_pg_target None ?http ?creds (example_request []) ()
      = (Inr c, [EvDump, EvPut pr], ())"
    by (simp add: run_pipeline_def example_stages firstErr_def)
  then obtain c where r: "run_pipeline (uncut example_pipe) stub_driver example_pg_target None ?http ?creds (example_request []) ()
      = (Inr c, [EvDump, EvPut pr], ())" unfolding un by blast
  note p = pipes_run_as_in_order [OF s all, of "example_request []"]
  have nil: "first_posted s = None" unfolding conjunct1 [OF p] by (intro exI) (rule r)
  from conjunct1 [OF conjunct2 [OF p], rule_format, OF nil] r u(2) have "pp_data s 2 = bytes_of_string ''PGDMP!''" by auto
  with all nil s show ?thesis by (intro exI [of _ s]) simp
qed

end
