(* ===== verification/Config.thy ===== *)
theory Config
  imports Go_Strings
begin

text \<open>
  \<open>internal/config/config.go\<close>: the bootstrap configuration. The environment parser (a third-party
  package), \<open>url.Parse\<close> and the file system are arguments; the agent key's pattern is written out.
\<close>

record Config =
  cf_ServerURL :: string
  cf_AgentKey :: string
  cf_StateDir :: string
  cf_LogLevel :: string
  cf_DockerSocket :: string
  cf_DevAllowInsecure :: bool
  cf_MetricsListenAddr :: string

datatype config_err =
    ParseEnv
  | UrlNotValid
  | UrlMissingHost
  | UrlMustBeHttps
  | UrlUnsupportedScheme string
  | AgentKeyFormat
  | StateDirEmpty
  | StateDirNotCreated
  | StateDirNotWritable

text \<open>The file system as far as \<open>validateStateDirWritable\<close> probes it.\<close>

record probe_fs =
  MkdirAll :: "string \<Rightarrow> bool"
  CreateTemp :: "string \<Rightarrow> bool"

text \<open>\<open>agentKeyPattern\<close>.\<close>

definition is_alnum :: "char \<Rightarrow> bool" where
  "is_alnum c \<longleftrightarrow>
     (let k = char_code c in 65 \<le> k \<and> k \<le> 90 \<or> 97 \<le> k \<and> k \<le> 122 \<or> 48 \<le> k \<and> k \<le> 57)"

definition is_lower_hex :: "char \<Rightarrow> bool" where
  "is_lower_hex c \<longleftrightarrow> (let k = char_code c in 97 \<le> k \<and> k \<le> 102 \<or> 48 \<le> k \<and> k \<le> 57)"

definition agentKeyPattern :: "string \<Rightarrow> bool" where
  "agentKeyPattern s \<longleftrightarrow>
     (HasPrefix s ''bkpy_live_'' \<or> HasPrefix s ''bkpy_test_'') \<and> length (drop 10 s) = 32 \<and> list_all is_alnum (drop 10 s)
   \<or> length s = 64 \<and> list_all is_lower_hex s"

definition validateServerURL :: "(string \<Rightarrow> url option) \<Rightarrow> string \<Rightarrow> bool \<Rightarrow> config_err option" where
  "validateServerURL url_parse raw allowInsecure =
     (case url_parse raw of
        None \<Rightarrow> Some UrlNotValid
      | Some u \<Rightarrow>
          if u_Host u = [] then Some UrlMissingHost
          else if u_Scheme u = ''https'' then None
          else if u_Scheme u = ''http'' then (if \<not> allowInsecure then Some UrlMustBeHttps else None)
          else Some (UrlUnsupportedScheme (u_Scheme u)))"

definition validateStateDirWritable :: "probe_fs \<Rightarrow> string \<Rightarrow> config_err option" where
  "validateStateDirWritable fs dir =
     (if dir = [] then Some StateDirEmpty
      else if \<not> MkdirAll fs dir then Some StateDirNotCreated
      else if \<not> CreateTemp fs dir then Some StateDirNotWritable
      else None)"

definition Config_Validate :: "(string \<Rightarrow> url option) \<Rightarrow> probe_fs \<Rightarrow> Config \<Rightarrow> config_err option" where
  "Config_Validate url_parse fs c =
     (case validateServerURL url_parse (cf_ServerURL c) (cf_DevAllowInsecure c) of
        Some e \<Rightarrow> Some e
      | None \<Rightarrow>
          if \<not> agentKeyPattern (cf_AgentKey c) then Some AgentKeyFormat
          else (case validateStateDirWritable fs (cf_StateDir c) of Some e \<Rightarrow> Some e | None \<Rightarrow> None))"

text \<open>\<open>Load\<close>; \<open>env_parse\<close> is the outcome of \<open>env.Parse\<close> on the process environment.\<close>

definition Config_Load :: "Config option \<Rightarrow> (string \<Rightarrow> url option) \<Rightarrow> probe_fs \<Rightarrow> config_err + Config" where
  "Config_Load env_parse url_parse fs =
     (case env_parse of
        None \<Rightarrow> Inl ParseEnv
      | Some c \<Rightarrow> (case Config_Validate url_parse fs c of Some e \<Rightarrow> Inl e | None \<Rightarrow> Inr c))"

definition StateDBPath :: "Config \<Rightarrow> string" where
  "StateDBPath c = Join2 (cf_StateDir c) ''state.db''"

text \<open>A key that matches is long enough, and safe in a header line.\<close>

lemma agentKeyPattern_chars:
  assumes "agentKeyPattern s"
  shows "42 \<le> length s \<and> (\<forall>c \<in> set s. is_alnum c \<or> c = CHR ''_'')"
proof -
  have hex: "is_lower_hex c \<Longrightarrow> is_alnum c" for c by (auto simp: is_lower_hex_def is_alnum_def Let_def)
  have pre: "list_all (\<lambda>c. is_alnum c \<or> c = CHR ''_'') ''bkpy_live_''" "list_all (\<lambda>c. is_alnum c \<or> c = CHR ''_'') ''bkpy_test_''"
    by (simp_all add: is_alnum_def char_code_def)
  show ?thesis
  proof (cases "length s = 64 \<and> list_all is_lower_hex s")
    case True
    with hex show ?thesis by (auto simp: list_all_iff)
  next
    case False
    with assms have p: "HasPrefix s ''bkpy_live_'' \<or> HasPrefix s ''bkpy_test_''"
      "length (drop 10 s) = 32" "list_all is_alnum (drop 10 s)"
      by (auto simp: agentKeyPattern_def)
    from p(1) obtain q t where q: "s = q @ t" "length q = 10" "list_all (\<lambda>c. is_alnum c \<or> c = CHR ''_'') q"
    proof (cases "HasPrefix s ''bkpy_live_''")
      case True
      then obtain t where "s = ''bkpy_live_'' @ t" unfolding HasPrefix_iff by blast
      with pre(1) show thesis by (intro that [of "''bkpy_live_''" t]) simp_all
    next
      case False
      with p(1) obtain t where "s = ''bkpy_test_'' @ t" unfolding HasPrefix_iff by blast
      with pre(2) show thesis by (intro that [of "''bkpy_test_''" t]) simp_all
    qed
    from p(2,3) q(1,2) have "length t = 32" "list_all is_alnum t" by simp_all
    with q show ?thesis by (simp add: list_all_iff ball_Un)
  qed
qed

lemma Config_Load_Inr_iff:
  "Config_Load env_parse url_parse fs = Inr c \<longleftrightarrow>
     env_parse = Some c \<and> Config_Validate url_parse fs c = None"
  by (auto simp: Config_Load_def split: option.splits)

lemma Config_Validate_None:
  "Config_Validate url_parse fs c = None \<longleftrightarrow>
     validateServerURL url_parse (cf_ServerURL c) (cf_DevAllowInsecure c) = None
     \<and> agentKeyPattern (cf_AgentKey c) \<and> validateStateDirWritable fs (cf_StateDir c) = None"
  by (auto simp: Config_Validate_def split: option.splits)

lemma validateServerURL_None:
  "validateServerURL url_parse raw allow = None \<longleftrightarrow>
     (\<exists>u. url_parse raw = Some u \<and> u_Host u \<noteq> [] \<and> (u_Scheme u = ''https'' \<or> u_Scheme u = ''http'' \<and> allow))"
  by (auto simp: validateServerURL_def split: option.splits if_splits)

end
