(* ===== verification/Telemetry.thy ===== *)
theory Telemetry
  imports Go_Strings
begin

text \<open>
  The small packages around the agent: \<open>internal/version\<close>, \<open>internal/logging\<close> and
  \<open>internal/metrics\<close>. The Prometheus client is not part of the repository; a vector of gauges or
  counters is a map from label values to the value written, which is what the calls rely on.
\<close>

section \<open>version.go\<close>

text \<open>The three variables the linker sets; \<open>Current\<close> is a copy of them.\<close>

record Info =
  in_Version :: string
  in_Commit :: string
  in_BuildDate :: string

definition unstamped :: Info where
  "unstamped = \<lparr>in_Version = ''dev'', in_Commit = ''none'', in_BuildDate = ''unknown''\<rparr>"

definition Current :: "Info \<Rightarrow> Info" where
  "Current vars = \<lparr>in_Version = in_Version vars, in_Commit = in_Commit vars, in_BuildDate = in_BuildDate vars\<rparr>"

definition Full :: "Info \<Rightarrow> string" where
  "Full vars = in_Version vars @ '' (commit '' @ in_Commit vars @ '', built '' @ in_BuildDate vars @ '')''"

text \<open>\<open>agent version\<close>, without and with \<open>--json\<close> (the encoder of \<open>encoding/json\<close> is left as a constructor).\<close>

definition version_line :: "Info \<Rightarrow> string" where
  "version_line vars = ''backupy-agent '' @ Full vars @ [char_of (10 :: nat)]"

datatype version_output = VersionText string | VersionJSON Info

definition newVersionCmd :: "Info \<Rightarrow> bool \<Rightarrow> version_output" where
  "newVersionCmd vars asJSON =
     (let info = Current vars in if asJSON then VersionJSON info else VersionText (version_line vars))"

section \<open>logging.go\<close>

datatype slog_level = LevelDebug | LevelInfo | LevelWarn | LevelError

text \<open>The levels are ordered by the integers of \<open>log/slog\<close>.\<close>

definition level_value :: "slog_level \<Rightarrow> int" where
  "level_value l = (case l of LevelDebug \<Rightarrow> -4 | LevelInfo \<Rightarrow> 0 | LevelWarn \<Rightarrow> 4 | LevelError \<Rightarrow> 8)"

lemma level_value_eq_iff [simp]: "level_value l = level_value l' \<longleftrightarrow> l = l'"
  by (cases l; cases l') (simp_all add: level_value_def)

instantiation slog_level :: linorder
begin

definition less_eq_slog_level :: "slog_level \<Rightarrow> slog_level \<Rightarrow> bool" where
  "less_eq_slog_level l l' \<longleftrightarrow> level_value l \<le> level_value l'"

definition less_slog_level :: "slog_level \<Rightarrow> slog_level \<Rightarrow> bool" where
  "less_slog_level l l' \<longleftrightarrow> level_value l < level_value l'"

instance
  by standard (auto simp: less_eq_slog_level_def less_slog_level_def)

end

definition parseLevel :: "string \<Rightarrow> slog_level" where
  "parseLevel s =
     (let l = ToLower (TrimSpace s)
      in if l = ''trace'' \<or> l = ''debug'' then LevelDebug
         else if l = ''info'' \<or> l = [] then LevelInfo
         else if l = ''warn'' \<or> l = ''warning'' then LevelWarn
         else if l = ''error'' then LevelError
         else LevelInfo)"

text \<open>A typo never silences the logger: at any level text but the two that ask for it, \<open>Info\<close> is shown.\<close>

lemma typo_keeps_info:
  "ToLower (TrimSpace s) \<notin> {''warn'', ''warning'', ''error''} \<Longrightarrow> parseLevel s \<le> LevelInfo"
  by (auto simp: parseLevel_def Let_def less_eq_slog_level_def level_value_def)

datatype 'v attr_value = StringValue string | OtherValue 'v

definition redactSecrets :: "string \<times> 'v attr_value \<Rightarrow> string \<times> 'v attr_value" where
  "redactSecrets a =
     (let key = ToLower (fst a)
      in if key \<in> {''agent_key'', ''backup_agent_key'', ''password'', ''secret'', ''token'', ''authorization''}
         then (fst a, StringValue ''***'') else a)"

text \<open>
  A logger is its handler options; what \<open>slog\<close> does with them is written out: a record below the
  level is dropped, and every attribute goes through \<open>ReplaceAttr\<close> before it is encoded.
\<close>

record 'v HandlerOptions =
  ho_Level :: slog_level
  ho_ReplaceAttr :: "string \<times> 'v attr_value \<Rightarrow> string \<times> 'v attr_value"

definition NewWithWriter :: "string \<Rightarrow> 'v HandlerOptions" where
  "NewWithWriter level = \<lparr>ho_Level = parseLevel level, ho_ReplaceAttr = redactSecrets\<rparr>"

definition log_record :: "'v HandlerOptions \<Rightarrow> slog_level \<Rightarrow> string \<Rightarrow> (string \<times> 'v attr_value) list
    \<Rightarrow> (slog_level \<times> string \<times> (string \<times> 'v attr_value) list) option" where
  "log_record opts level msg attrs =
     (if level < ho_Level opts then None else Some (level, msg, map (ho_ReplaceAttr opts) attrs))"

text \<open>No attribute named like a secret is logged with its value, however its name is capitalised.\<close>

lemma secrets_not_logged:
  assumes "log_record (NewWithWriter level) l msg attrs = Some (l', msg', out)" "(k, v) \<in> set out"
    and "ToLower k \<in> {''agent_key'', ''backup_agent_key'', ''password'', ''secret'', ''token'', ''authorization''}"
  shows "v = StringValue ''***''"
  using assms by (auto simp: log_record_def NewWithWriter_def redactSecrets_def Let_def split: if_splits)

text \<open>Errors are logged at every level, and information at every level but the two that ask for less.\<close>

lemma errors_logged: "log_record (NewWithWriter level) LevelError msg attrs \<noteq> None"
  by (auto simp: log_record_def NewWithWriter_def parseLevel_def Let_def less_slog_level_def level_value_def)

lemma info_logged:
  "ToLower (TrimSpace level) \<notin> {''warn'', ''warning'', ''error''} \<Longrightarrow> log_record (NewWithWriter level) LevelInfo msg attrs \<noteq> None"
  using typo_keeps_info [of level] by (simp add: log_record_def NewWithWriter_def not_less)

section \<open>metrics.go\<close>

record Metrics =
  mt_RunsTotal :: "string \<times> string \<Rightarrow> nat"
  mt_RunDuration :: "string \<Rightarrow> nat"
  mt_RunSizeBytes :: "string \<Rightarrow> uint64 list"
  mt_WSSState :: "string \<rightharpoonup> int"
  mt_WSSReconnects :: nat
  mt_DispatchPending :: int
  mt_BuildInfo :: "string \<times> string \<rightharpoonup> int"

definition Metrics_Reset :: "Metrics \<Rightarrow> Metrics" where
  "Metrics_Reset m = m\<lparr>mt_RunsTotal := (\<lambda>_. 0), mt_RunDuration := (\<lambda>_. 0), mt_RunSizeBytes := (\<lambda>_. []),
     mt_WSSState := Map.empty, mt_BuildInfo := Map.empty, mt_DispatchPending := 0\<rparr>"

definition wss_states :: "string list" where
  "wss_states = [''connected'', ''reconnecting'', ''disconnected'']"

definition SetWSSState :: "string \<Rightarrow> Metrics \<Rightarrow> Metrics" where
  "SetWSSState st m =
     (let g = foldl (\<lambda>g s. g(s \<mapsto> (if s = st then 1 else 0))) (mt_WSSState m) wss_states
      in m\<lparr>mt_WSSState := (if st \<notin> set wss_states then g(st \<mapsto> 1) else g)\<rparr>)"

definition WSSReconnects_Inc :: "Metrics \<Rightarrow> Metrics" where
  "WSSReconnects_Inc m = m\<lparr>mt_WSSReconnects := mt_WSSReconnects m + 1\<rparr>"

definition SetBuildInfo :: "string \<Rightarrow> string \<Rightarrow> Metrics \<Rightarrow> Metrics" where
  "SetBuildInfo version commit m = m\<lparr>mt_BuildInfo := (mt_BuildInfo m)((version, commit) \<mapsto> 1)\<rparr>"

text \<open>The deferred update at the end of \<open>Runner.Run\<close>: job, success, uploaded size.\<close>

definition observe_run :: "string \<Rightarrow> bool \<Rightarrow> uint64 option \<Rightarrow> Metrics \<Rightarrow> Metrics" where
  "observe_run job ok bytes m =
     (let lbl = (job, if ok then ''success'' else ''failure'');
          m1 = m\<lparr>mt_RunsTotal := (mt_RunsTotal m)(lbl := mt_RunsTotal m lbl + 1),
                 mt_RunDuration := (mt_RunDuration m)(job := mt_RunDuration m job + 1)\<rparr>
      in case bytes of
          None \<Rightarrow> m1
        | Some b \<Rightarrow> m1\<lparr>mt_RunSizeBytes := (mt_RunSizeBytes m)(job := mt_RunSizeBytes m job @ [b])\<rparr>)"

text \<open>After any sequence of calls with the documented states, the last one is the only gauge at 1.\<close>

lemma SetWSSState_simps:
  "st \<in> set wss_states \<Longrightarrow> s \<in> set wss_states \<Longrightarrow> mt_WSSState (SetWSSState st m) s = Some (if s = st then 1 else 0)"
  by (auto simp: SetWSSState_def wss_states_def)

lemma SetWSSState_other [simp]:
  "mt_RunsTotal (SetWSSState st m) = mt_RunsTotal m" "mt_RunSizeBytes (SetWSSState st m) = mt_RunSizeBytes m"
  "mt_WSSReconnects (SetWSSState st m) = mt_WSSReconnects m"
  by (simp_all add: SetWSSState_def Let_def)

lemma WSSReconnects_Inc_simps [simp]:
  "mt_RunsTotal (WSSReconnects_Inc m) = mt_RunsTotal m" "mt_RunSizeBytes (WSSReconnects_Inc m) = mt_RunSizeBytes m"
  "mt_WSSReconnects (WSSReconnects_Inc m) = mt_WSSReconnects m + 1"
  by (simp_all add: WSSReconnects_Inc_def)

lemma redacted_value:
  "ToLower key = ''password'' \<Longrightarrow> redactSecrets (key, v) = (key, StringValue ''***'')"
  by (simp add: redactSecrets_def)

end
