(* ===== verification/Agent.thy ===== *)
theory Agent
  imports Wss Runner Snapshot_Drivers Discovery Config Telemetry
begin

text \<open>
  \<open>cmd/agent/run.go\<close>: the configuration snapshot, the envelopes of the reports, and how
  \<open>runAgent\<close> wires the parts together. The two lookups of a run are arguments of \<open>agent_runner\<close>
  of their own, because a configuration can arrive between them (see \<open>Agent_System\<close>).
\<close>

section \<open>The configuration snapshot\<close>

record configSnapshot =
  cs_targets :: "string \<rightharpoonup> Target"
  cs_jobs :: "string \<rightharpoonup> BackupJobSpec"

definition newConfigSnapshot :: configSnapshot where
  "newConfigSnapshot = \<lparr>cs_targets = Map.empty, cs_jobs = Map.empty\<rparr>"

definition configSnapshot_Set :: "configSnapshot \<Rightarrow> AgentConfig \<Rightarrow> configSnapshot" where
  "configSnapshot_Set s cfg =
     s\<lparr>cs_targets := foldl (\<lambda>m t. m(tg_Id t \<mapsto> t)) Map.empty (ac_Targets cfg),
       cs_jobs := foldl (\<lambda>m j. m(bj_Id j \<mapsto> j)) Map.empty (ac_Jobs cfg)\<rparr>"

definition configSnapshot_Target :: "configSnapshot \<Rightarrow> string \<rightharpoonup> Target" where
  "configSnapshot_Target s i = cs_targets s i"

definition configSnapshot_Job :: "configSnapshot \<Rightarrow> string \<rightharpoonup> BackupJobSpec" where
  "configSnapshot_Job s i = cs_jobs s i"

section \<open>Reports\<close>

definition buildBackupCompleted :: "uint64 \<Rightarrow> BackupCompleted \<Rightarrow> Envelope" where
  "buildBackupCompleted now c = (NewEnvelope now)\<lparr>env_Payload := Some (PBackupCompleted (Some c))\<rparr>"

definition buildJobFailed :: "uint64 \<Rightarrow> string \<Rightarrow> string \<Rightarrow> string \<Rightarrow> Envelope" where
  "buildJobFailed now jobID runID err =
     (NewEnvelope now)\<lparr>env_Payload := Some (PJobUpdate (Some
        \<lparr>ju_JobId = jobID, ju_Status = FAILED, ju_ProgressPercent = 0, ju_CurrentStep = [],
         ju_ErrorMessage = err, ju_RunId = runID\<rparr>))\<rparr>"

section \<open>Wiring\<close>

definition agent_drivers :: "'x os \<Rightarrow> string \<rightharpoonup> 'x Driver" where
  "agent_drivers os' =
     [''postgresql'' \<mapsto> NewPgDump os', ''mysql'' \<mapsto> NewMysqldump os', ''mariadb'' \<mapsto> NewMysqldump os',
      ''mongodb'' \<mapsto> NewMongoDump os', ''redis'' \<mapsto> NewRedisDriver os', ''sqlite'' \<mapsto> NewSqliteDriver os']"

text \<open>The snapshots the job and the target are looked up in are the contents of one shared structure at
  the two moments.\<close>

definition agent_runner ::
  "'x os \<Rightarrow> (uint32 option \<Rightarrow> http_put) \<Rightarrow> configSnapshot \<Rightarrow> configSnapshot \<Rightarrow> 'x Runner" where
  "agent_runner os' uploader snapJ snapT =
     NewRunner (agent_drivers os') (Some uploader)
       [WithTargetLookup (configSnapshot_Target snapT), WithJobLookup (configSnapshot_Job snapJ)]"

definition agent_wss_config :: "Config \<Rightarrow> Info \<Rightarrow> WssConfig" where
  "agent_wss_config cfg vars =
     \<lparr>wc_ServerURL = cf_ServerURL cfg, wc_AgentKey = cf_AgentKey cfg, wc_AgentVersion = in_Version vars,
      wc_Hostname = [], wc_OS = [], wc_Arch = [], wc_DockerVersion = [],
      wc_Capabilities = [''pg_dump'', ''mysqldump'', ''docker_discovery''],
      wc_AllowInsecure = cf_DevAllowInsecure cfg\<rparr>"

text \<open>None of the five callbacks returns an error; what they do is \<open>agent_callback\<close>.\<close>

definition agent_handlers :: Handlers where
  "agent_handlers = \<lparr>h_OnConfigUpdate = Some (\<lambda>_. False), h_OnRunBackup = Some (\<lambda>_. False),
     h_OnCancelJob = Some (\<lambda>_. False), h_OnRunHealthCheck = Some (\<lambda>_. False), h_OnSelfUpdate = Some (\<lambda>_. False)\<rparr>"

definition agent_world :: "codec \<Rightarrow> 'b bolt \<Rightarrow> string option \<Rightarrow> string \<Rightarrow> string \<Rightarrow> 'b Store World" where
  "agent_world P B hostname goos goarch =
     \<lparr>w_codec = P, w_state = Some (store_ops B), w_queue = Some (boltQueue B), w_handlers = Some agent_handlers,
      w_metrics = None, w_hostname = hostname, w_goos = goos, w_goarch = goarch\<rparr>"

end
