(* ===== verification/Agent_System.thy ===== *)
theory Agent_System
  imports Agent
begin

text \<open>
  The running agent (\<open>runAgent\<close> and the goroutines it starts) as a transition system. Its state is
  one record: the configuration snapshot, one task per backup request, the WSS client with its
  store, the state of the link, the metrics and the system the drivers act on. The steps are those
  points at which a goroutine touches what others see: a connection attempt, each job of a
  replay, each event of a live connection, a scan, the two lookups of a run, the moment its result
  is settled, its return, its report, the signal that stops the process. They interleave in any order.
  A \<open>Send\<close> is one step: that a connection can go, or another \<open>Send\<close> come, between its look at the
  channel and its push is not seen (it can lose an envelope as in \<open>report_lost_with_connection\<close>, or
  push two sequence numbers in the other order).
\<close>

section \<open>The state\<close>

text \<open>
  A task is the goroutine of one \<open>RunBackup\<close> message. \<open>tk_conn\<close> is the number of the connection the
  message came in on: the run works under the context of that connection. The phases are those
  of \<open>runner.Run\<close> (nothing looked up yet, job looked up, target looked up; its result settled by the
  four stages, or by what failed before them, with the deferred calls left, namely the post-hooks,
  which have a context of their own, and the metrics; over) and the end of the goroutine, when
  the report was handed to \<open>Send\<close>.
\<close>

datatype phase =
    Spawned
  | JobRead configSnapshot
  | Resolved configSnapshot configSnapshot
  | Returning "run_event list" "run_err + BackupCompleted"
  | RunDone "run_err + BackupCompleted"
  | Reported Envelope

record task =
  tk_msg :: RunBackupMsg
  tk_conn :: nat
  tk_phase :: phase

text \<open>Where \<open>Start\<close> is: not connected, connected, replaying the queue, or in the three loops.\<close>

datatype link = Down | Opened | Replaying "job list" | Up

record ('x, 's) agent =
  ag_snap :: configSnapshot
  ag_tasks :: "task list"
  ag_client :: "'s Client"
  ag_link :: link
  ag_conn :: nat
  ag_stopping :: bool
  ag_metrics :: Metrics
  ag_sys :: 'x
  ag_sent :: "(nat \<times> Envelope) list"
  ag_uploads :: "put_request list"

text \<open>
  \<open>ag_conn\<close> counts the connections; \<open>ag_sent\<close> logs the reports in the order they were handed to
  \<open>Send\<close>, with the number of the task, \<open>ag_uploads\<close> the PUT requests of all runs.
\<close>

text \<open>The context of a run ends with its connection (\<open>connCtx\<close> in \<open>runOnce\<close>), and with the process.\<close>

definition ctx_alive :: "('x, 's) agent \<Rightarrow> task \<Rightarrow> bool" where
  "ctx_alive a t \<longleftrightarrow> ag_link a = Up \<and> tk_conn t = ag_conn a \<and> \<not> ag_stopping a"

definition set_phase :: "nat \<Rightarrow> phase \<Rightarrow> ('x, 's) agent \<Rightarrow> ('x, 's) agent" where
  "set_phase k ph a = a\<lparr>ag_tasks := (ag_tasks a)[k := (ag_tasks a ! k)\<lparr>tk_phase := ph\<rparr>]\<rparr>"

section \<open>The callbacks\<close>

text \<open>\<open>None\<close> is the panic on a nil message, which no decoded frame contains.\<close>

definition agent_callback :: "callback \<Rightarrow> ('x, 's) agent \<Rightarrow> ('x, 's) agent option" where
  "agent_callback cb a =
     (case cb of
        CbConfigUpdate msg \<Rightarrow>
          (case Option.bind msg cu_Config of
             None \<Rightarrow> Some a
           | Some c \<Rightarrow> Some (a\<lparr>ag_snap := configSnapshot_Set (ag_snap a) c\<rparr>))
      | CbRunBackup None \<Rightarrow> None
      | CbRunBackup (Some msg) \<Rightarrow>
          Some (a\<lparr>ag_tasks := ag_tasks a @ [\<lparr>tk_msg = msg, tk_conn = ag_conn a, tk_phase = Spawned\<rparr>]\<rparr>)
      | CbCancelJob msg \<Rightarrow> map_option (\<lambda>_. a) msg
      | CbRunHealthCheck msg \<Rightarrow> map_option (\<lambda>_. a) msg
      | CbSelfUpdate msg \<Rightarrow> map_option (\<lambda>_. a) msg)"

fun agent_callbacks :: "callback list \<Rightarrow> ('x, 's) agent \<Rightarrow> ('x, 's) agent option" where
  "agent_callbacks [] a = Some a"
| "agent_callbacks (cb # cbs) a = Option.bind (agent_callback cb a) (agent_callbacks cbs)"

text \<open>The client has moved on to \<open>c\<close>: run the callbacks it has invoked since.\<close>

definition agent_deliver :: "'s Client \<Rightarrow> ('x, 's) agent \<Rightarrow> ('x, 's) agent option" where
  "agent_deliver c a =
     agent_callbacks (drop (length (cl_calls (ag_client a))) (cl_calls c)) (a\<lparr>ag_client := c\<rparr>)"

section \<open>The link\<close>

text \<open>After the handshake: the gauge is set, the channel is in place, the connection has a context.\<close>

definition link_opened :: "('x, 's) agent \<Rightarrow> ('x, 's) agent" where
  "link_opened a = a\<lparr>ag_link := Opened, ag_conn := ag_conn a + 1, ag_metrics := SetWSSState ''connected'' (ag_metrics a)\<rparr>"

text \<open>\<open>runOnce\<close> has returned and the context is not cancelled: \<open>Start\<close> counts a reconnect and waits.\<close>

definition link_lost :: "('x, 's) agent \<Rightarrow> ('x, 's) agent" where
  "link_lost a = a\<lparr>ag_link := Down,
     ag_client := (disconnect (ag_client a))\<lparr>cl_reconnectCount := cl_reconnectCount (ag_client a) + 1\<rparr>,
     ag_metrics := SetWSSState ''reconnecting'' (WSSReconnects_Inc (ag_metrics a))\<rparr>"

text \<open>
  \<open>runOnce\<close> has returned because the process is stopped. Where it stops while \<open>Start\<close> waits before the
  next attempt, \<open>Start\<close> returns as it is.
\<close>

definition link_closed :: "('x, 's) agent \<Rightarrow> ('x, 's) agent" where
  "link_closed a = a\<lparr>ag_link := Down, ag_client := disconnect (ag_client a),
     ag_metrics := SetWSSState ''disconnected'' (ag_metrics a)\<rparr>"

text \<open>The start of \<open>replayQueue\<close>: the pending jobs, or none where there is no queue or \<open>Pop\<close> fails.\<close>

definition popped :: "'s World \<Rightarrow> 's Client \<Rightarrow> job list" where
  "popped w c =
     (case w_queue w of
        None \<Rightarrow> []
      | Some Q \<Rightarrow> (case Pop Q (cl_disk c) 100 of Inl e \<Rightarrow> [] | Inr jobs \<Rightarrow> jobs))"

section \<open>The runs\<close>

fun uploads_of :: "run_event list \<Rightarrow> put_request list" where
  "uploads_of [] = []"
| "uploads_of (EvPut pr # evs) = pr # uploads_of evs"
| "uploads_of (ev # evs) = uploads_of evs"

text \<open>The deferred update of the metrics, for the runs that get as far as setting it up.\<close>

fun observe_events :: "run_event list \<Rightarrow> Metrics \<Rightarrow> Metrics" where
  "observe_events [] m = m"
| "observe_events (EvMetric job ok bytes # evs) m = observe_events evs (observe_run job ok bytes m)"
| "observe_events (ev # evs) m = observe_events evs m"

text \<open>
  \<open>runner.Run\<close> for task \<open>k\<close>, with the snapshots its two lookups have seen, up to the moment its result
  is settled; and its return, after the deferred calls.
\<close>

definition agent_settle_run ::
  "'x os \<Rightarrow> (uint32 option \<Rightarrow> http_put) \<Rightarrow> pipe_env \<Rightarrow> nat \<Rightarrow> configSnapshot \<Rightarrow> configSnapshot
     \<Rightarrow> ('x, 's) agent \<Rightarrow> ('x, 's) agent" where
  "agent_settle_run os' uploader pe k snapJ snapT a =
     (case Runner_Run (agent_runner os' uploader snapJ snapT) pe (ag_sys a) (Some (tk_msg (ag_tasks a ! k))) of
        (res, evs, x) \<Rightarrow> (set_phase k (Returning evs res) a)\<lparr>ag_sys := x, ag_uploads := ag_uploads a @ uploads_of evs\<rparr>)"

definition agent_return_run :: "nat \<Rightarrow> run_event list \<Rightarrow> run_err + BackupCompleted \<Rightarrow> ('x, 's) agent \<Rightarrow> ('x, 's) agent" where
  "agent_return_run k evs res a = (set_phase k (RunDone res) a)\<lparr>ag_metrics := observe_events evs (ag_metrics a)\<rparr>"

text \<open>The envelope of the outcome; \<open>err_text\<close> is the text of the error.\<close>

definition report_envelope :: "(run_err \<Rightarrow> string) \<Rightarrow> uint64 \<Rightarrow> RunBackupMsg \<Rightarrow> run_err + BackupCompleted \<Rightarrow> Envelope" where
  "report_envelope err_text now msg res =
     (case res of
        Inl e \<Rightarrow> buildJobFailed now (rb_JobId msg) (rb_RunId msg) (err_text e)
      | Inr c \<Rightarrow> buildBackupCompleted now c)"

text \<open>The end of the goroutine: the report goes to \<open>Send\<close>, whose result is dropped.\<close>

definition agent_report ::
  "'s World \<Rightarrow> (run_err \<Rightarrow> string) \<Rightarrow> uint64 \<Rightarrow> nat \<Rightarrow> run_err + BackupCompleted \<Rightarrow> ('x, 's) agent \<Rightarrow> ('x, 's) agent" where
  "agent_report w err_text now k res a =
     (let env = report_envelope err_text now (tk_msg (ag_tasks a ! k)) res
      in (set_phase k (Reported env) a)\<lparr>ag_client := snd (Client_Send w now (ag_client a) (Some env)),
            ag_sent := ag_sent a @ [(k, env)]\<rparr>)"

text \<open>
  What a run meets whose context is cancelled: a program it starts ends as it would, or is killed
  after part of its output (or not started at all); the waiting loops see the cancellation; the
  HTTP client returns the error of the context, after it has read some of the body, if it gets as
  far as sending the request.
\<close>

definition killed_by_ctx :: "'x os \<Rightarrow> 'x os \<Rightarrow> bool" where
  "killed_by_ctx os' osc \<longleftrightarrow>
     (\<exists>ex cc. osc = os'\<lparr>os_exec := ex, os_cancelled := cc\<rparr> \<and>
        (\<forall>name args env x. ex name args env x = os_exec os' name args env x
           \<or> ex_status (fst (ex name args env x)) \<noteq> ExecOk
             \<and> (\<exists>n. ex_stdout (fst (ex name args env x)) = take n (ex_stdout (fst (os_exec os' name args env x))))))"

definition cancelled_put :: "(uint32 option \<Rightarrow> http_put) \<Rightarrow> nat \<Rightarrow> uint32 option \<Rightarrow> http_put" where
  "cancelled_put uploader n tmo pr = (if uploader tmo pr = PutBuildFailed then PutBuildFailed else PutDoFailed n)"

section \<open>The scans\<close>

text \<open>One scan of \<open>runDiscoveryLoop\<close>, at start-up and at every tick.\<close>

definition agent_scan :: "'s World \<Rightarrow> uint64 \<Rightarrow> daemon \<Rightarrow> dockerScanner \<Rightarrow> ('x, 's) agent \<Rightarrow> ('x, 's) agent" where
  "agent_scan w now d s a =
     (case Scan d s of
        Inl e \<Rightarrow> a
      | Inr containers \<Rightarrow>
          a\<lparr>ag_client := snd (Client_Send w now (ag_client a)
              (Some ((NewEnvelope now)\<lparr>env_Payload := Some (PDiscovery (Some (BuildReport containers)))\<rparr>)))\<rparr>)"

text \<open>Once an hour.\<close>

definition discoveryInterval :: int where "discoveryInterval = 3600 * 1000000000"

text \<open>\<open>runDiscoveryLoop\<close> by itself: the scan at start-up, then one per tick until the context ends.\<close>

datatype tick = TickerC uint64 daemon | CtxDoneC

fun discovery_ticks :: "'s World \<Rightarrow> dockerScanner \<Rightarrow> tick list \<Rightarrow> ('x, 's) agent \<Rightarrow> ('x, 's) agent" where
  "discovery_ticks w s [] a = a"
| "discovery_ticks w s (CtxDoneC # ts) a = a"
| "discovery_ticks w s (TickerC now d # ts) a = discovery_ticks w s ts (agent_scan w now d s a)"

definition runDiscoveryLoop ::
  "'s World \<Rightarrow> dockerScanner \<Rightarrow> uint64 \<Rightarrow> daemon \<Rightarrow> tick list \<Rightarrow> ('x, 's) agent \<Rightarrow> ('x, 's) agent" where
  "runDiscoveryLoop w s now d ts a = discovery_ticks w s ts (agent_scan w now d s a)"

section \<open>The transition relation\<close>

text \<open>
  What \<open>runAgent\<close> starts with, and the steps it then takes. The compressor \<open>z\<close> and the hash \<open>sha\<close> are
  the same in every run; what else a run meets is free.
\<close>

definition agent_init :: "'s World \<Rightarrow> Config \<Rightarrow> Info \<Rightarrow> Metrics \<Rightarrow> 's \<Rightarrow> 'x \<Rightarrow> ('x, 's) agent" where
  "agent_init w cfg vars m st x =
     \<lparr>ag_snap = newConfigSnapshot, ag_tasks = [], ag_client = NewClient w (agent_wss_config cfg vars) st,
      ag_link = Down, ag_conn = 0, ag_stopping = False,
      ag_metrics = SetWSSState ''disconnected'' (SetBuildInfo (in_Version vars) (in_Commit vars) m),
      ag_sys = x, ag_sent = [], ag_uploads = []\<rparr>"

inductive agent_step ::
  "'s World \<Rightarrow> (string \<Rightarrow> url option) \<Rightarrow> 'x os \<Rightarrow> (uint32 option \<Rightarrow> http_put) \<Rightarrow> (run_err \<Rightarrow> string)
     \<Rightarrow> zstd \<Rightarrow> (bytes \<Rightarrow> bytes) \<Rightarrow> ('x, 's) agent \<Rightarrow> ('x, 's) agent \<Rightarrow> bool"
  for w url_parse os' uploader err_text z sha where
  ConnectFails: "ag_link a = Down \<Longrightarrow> \<not> ag_stopping a
     \<Longrightarrow> connect w url_parse dial_ok now write_ok reply ms (ag_client a) = (Some e, c)
     \<Longrightarrow> agent_step w url_parse os' uploader err_text z sha a (link_lost (a\<lparr>ag_client := c\<rparr>))"
| Connects: "ag_link a = Down \<Longrightarrow> \<not> ag_stopping a
     \<Longrightarrow> connect w url_parse dial_ok now write_ok reply ms (ag_client a) = (None, c)
     \<Longrightarrow> agent_deliver c a = Some a'
     \<Longrightarrow> agent_step w url_parse os' uploader err_text z sha a (link_opened a')"
| ReplayStarts: "ag_link a = Opened
     \<Longrightarrow> agent_step w url_parse os' uploader err_text z sha a (a\<lparr>ag_link := Replaying (popped w (ag_client a))\<rparr>)"
| ReplaysJob: "ag_link a = Replaying (j # js) \<Longrightarrow> w_queue w = Some Q
     \<Longrightarrow> replay_loop w Q (\<lambda>_. False) 0 [j] (ag_client a) = (ReplayDone, c)
     \<Longrightarrow> agent_step w url_parse os' uploader err_text z sha a (a\<lparr>ag_client := c, ag_link := Replaying js\<rparr>)"
| ReplayEnds: "ag_link a = Replaying []
     \<Longrightarrow> agent_step w url_parse os' uploader err_text z sha a (a\<lparr>ag_link := Up\<rparr>)"
| Live: "ag_link a = Up \<Longrightarrow> live_step w ev (ag_client a) = (None, c) \<Longrightarrow> agent_deliver c a = Some a'
     \<Longrightarrow> agent_step w url_parse os' uploader err_text z sha a a'"
| Lost: "ag_link a = Up \<Longrightarrow> live_step w ev (ag_client a) = (Some e, c) \<Longrightarrow> \<not> ag_stopping a
     \<Longrightarrow> agent_step w url_parse os' uploader err_text z sha a (link_lost (a\<lparr>ag_client := c\<rparr>))"
| Signal: "agent_step w url_parse os' uploader err_text z sha a (a\<lparr>ag_stopping := True\<rparr>)"
| Closed: "ag_stopping a \<Longrightarrow> agent_step w url_parse os' uploader err_text z sha a (link_closed a)"
| ClosedWaiting: "ag_stopping a \<Longrightarrow> ag_link a = Down \<Longrightarrow> agent_step w url_parse os' uploader err_text z sha a a"
| LooksUpJob: "k < length (ag_tasks a) \<Longrightarrow> tk_phase (ag_tasks a ! k) = Spawned
     \<Longrightarrow> agent_step w url_parse os' uploader err_text z sha a (set_phase k (JobRead (ag_snap a)) a)"
| LooksUpTarget: "k < length (ag_tasks a) \<Longrightarrow> tk_phase (ag_tasks a ! k) = JobRead sj
     \<Longrightarrow> agent_step w url_parse os' uploader err_text z sha a (set_phase k (Resolved sj (ag_snap a)) a)"
| Settles: "k < length (ag_tasks a) \<Longrightarrow> tk_phase (ag_tasks a ! k) = Resolved sj st \<Longrightarrow> pe_zstd pe = z \<Longrightarrow> pe_sha256 pe = sha
     \<Longrightarrow> ctx_alive a (ag_tasks a ! k)
     \<Longrightarrow> agent_step w url_parse os' uploader err_text z sha a (agent_settle_run os' uploader pe k sj st a)"
| SettlesCancelled: "k < length (ag_tasks a) \<Longrightarrow> tk_phase (ag_tasks a ! k) = Resolved sj st \<Longrightarrow> pe_zstd pe = z \<Longrightarrow> pe_sha256 pe = sha
     \<Longrightarrow> \<not> ctx_alive a (ag_tasks a ! k) \<Longrightarrow> killed_by_ctx os' osc
     \<Longrightarrow> agent_step w url_parse os' uploader err_text z sha a (agent_settle_run osc (cancelled_put uploader n) pe k sj st a)"
| Returns: "k < length (ag_tasks a) \<Longrightarrow> tk_phase (ag_tasks a ! k) = Returning evs res
     \<Longrightarrow> agent_step w url_parse os' uploader err_text z sha a (agent_return_run k evs res a)"
| Reports: "k < length (ag_tasks a) \<Longrightarrow> tk_phase (ag_tasks a ! k) = RunDone res
     \<Longrightarrow> agent_step w url_parse os' uploader err_text z sha a (agent_report w err_text now k res a)"
| Scans: "agent_step w url_parse os' uploader err_text z sha a (agent_scan w now d s a)"

end
