(* ===== verification/Agent_Invariants.thy ===== *)
theory Agent_Invariants
  imports Agent_System Runner_Props Wss_Props
begin

text \<open>
  What every step of the agent does to the parts of its state that the properties speak about: the
  callbacks the client has invoked, the tasks, the reports and the metrics. Each section holds one
  invariant and its preservation by the steps.
\<close>

section \<open>The client only ever adds callbacks\<close>

definition more_calls :: "'s Client \<Rightarrow> 's Client \<Rightarrow> bool" where
  "more_calls c c' \<longleftrightarrow> (\<exists>new. cl_calls c' = cl_calls c @ new)"

lemma more_calls_same: "cl_calls c' = cl_calls c \<Longrightarrow> more_calls c c'"
  by (simp add: more_calls_def)

lemma calls_stamp [simp]: "cl_calls (snd (stamp now c e)) = cl_calls c"
  by (simp add: stamp_def)

lemma calls_persist [simp]: "cl_calls (snd (persist_env w c e)) = cl_calls c"
  by (simp add: persist_env_def split: option.splits prod.splits)

lemma calls_Send [simp]: "cl_calls (snd (Client_Send w now c e)) = cl_calls c"
proof (cases e)
  case (Some e0)
  obtain e1 c1 where s: "stamp now c e0 = (e1, c1)" by fastforce
  with calls_stamp [of now c e0] have "cl_calls c1 = cl_calls c" by simp
  with Some s show ?thesis by (simp add: Client_Send_def split: option.split)
qed (simp add: Client_Send_def)

lemma more_calls_dispatch: "more_calls c (snd (dispatch w now env c))"
proof (cases "env_Payload env")
  case (Some p)
  note eval = Some dispatch_def cb_err_def call_def more_calls_def
  show ?thesis
  proof (cases p)
    case (PConfigUpdate m)
    have "cl_calls (snd (dispatch w now env c)) = (case Option.bind (w_handlers w) h_OnConfigUpdate of
        None \<Rightarrow> cl_calls c | Some f \<Rightarrow> cl_calls c @ [CbConfigUpdate m])"
      unfolding dispatch_def Some PConfigUpdate option.case payload.case cb_err_def call_def
      by (cases "Option.bind m cu_Config"; cases "Option.bind (w_handlers w) h_OnConfigUpdate"; cases "w_state w";
          cases "marshal_cfg (w_codec w) (the (Option.bind m cu_Config))") simp_all
    then show ?thesis by (simp add: more_calls_def split: option.split)
  next
    case (PPing m)
    define ack where "ack = Some ((NewEnvelope now)\<lparr>env_CorrelationId := env_CorrelationId env,
        env_Payload := Some (PAck (Some \<lparr>ack_CorrelationId = env_CorrelationId env, ack_Accepted = True, ack_Reason = []\<rparr>))\<rparr>)"
    have "snd (dispatch w now env c) = snd (Client_Send w now c ack)"
      by (simp add: dispatch_def Some PPing ack_def split: prod.split)
    then show ?thesis by (simp add: more_calls_same)
  qed (simp_all add: eval split: option.split)
qed (simp add: dispatch_def more_calls_same)

lemma more_calls_live_step: "more_calls c (snd (live_step w ev c))"
proof (cases ev)
  case (EvFrame now fr)
  then show ?thesis
    by (auto simp: read_step_def intro: more_calls_same more_calls_dispatch split: option.split prod.split)
next
  case (EvWrite now b)
  show ?thesis
  proof (cases "\<exists>e out. cl_out c = Some (e # out)")
    case True
    then obtain e out where o': "cl_out c = Some (e # out)" by blast
    obtain e1 c1 where s: "stamp now (c\<lparr>cl_out := Some out\<rparr>) e = (e1, c1)" by fastforce
    with calls_stamp [of now "c\<lparr>cl_out := Some out\<rparr>" e] have "cl_calls c1 = cl_calls c" by simp
    with o' s EvWrite show ?thesis by (simp add: write_step_def more_calls_same split: option.split)
  qed (use EvWrite in \<open>auto simp: write_step_def more_calls_same split: option.split list.split\<close>)
next
  case (EvTick now ms)
  then show ?thesis by (simp add: emitHeartbeat_def Let_def more_calls_same split: option.split)
qed (simp add: more_calls_same)

lemma more_calls_connect:
  assumes "connect w url_parse dial_ok now write_ok reply ms c = (e, c')"
  shows "more_calls c c'"
proof -
  have h: "cl_calls (snd (handshake w now write_ok reply c)) = cl_calls c"
    by (simp add: handshake_def Let_def split: option.split prod.split payload.split)
  have a: "more_calls c1 (apply_ack w ms a c1)" for a c1
    by (auto simp: apply_ack_def Let_def call_def more_calls_def split: option.split)
  obtain r c1 where H: "handshake w now write_ok reply c = (r, c1)" by fastforce
  with h have c1: "cl_calls c1 = cl_calls c" by simp
  show ?thesis
  proof (cases r)
    case (Inr ack)
    from a [of c1 ack] c1 have "more_calls c ((apply_ack w ms ack c1)\<lparr>cl_out := Some []\<rparr>)" by (simp add: more_calls_def)
    with assms H Inr show ?thesis by (auto simp: connect_cases more_calls_same split: sum.splits if_splits)
  qed (use assms H c1 in \<open>auto simp: connect_cases more_calls_same split: sum.splits if_splits\<close>)
qed

lemma calls_replay_loop: "cl_calls (snd (replay_loop w Q ctx_done i js c)) = cl_calls c"
  by (induction w Q ctx_done i js c rule: replay_loop.induct) (auto split: option.split)

lemma calls_replay: "replayQueue w ctx_done c = (e, c') \<Longrightarrow> cl_calls c' = cl_calls c"
proof -
  have "cl_calls (snd (replayQueue w ctx_done c)) = cl_calls c"
    by (simp add: replayQueue_def calls_replay_loop split: option.split sum.split)
  then show "replayQueue w ctx_done c = (e, c') \<Longrightarrow> cl_calls c' = cl_calls c" by simp
qed

section \<open>What the callbacks add up to\<close>

definition config_effect :: "configSnapshot \<Rightarrow> callback \<Rightarrow> configSnapshot" where
  "config_effect s cb =
     (case cb of
        CbConfigUpdate m \<Rightarrow> (case Option.bind m cu_Config of None \<Rightarrow> s | Some c \<Rightarrow> configSnapshot_Set s c)
      | _ \<Rightarrow> s)"

text \<open>The snapshot that \<open>Set\<close> makes of the configurations among the callbacks, one after the other.\<close>

definition latest_config :: "callback list \<Rightarrow> configSnapshot" where
  "latest_config cbs = foldl config_effect newConfigSnapshot cbs"

fun run_requests :: "callback list \<Rightarrow> RunBackupMsg list" where
  "run_requests [] = []"
| "run_requests (CbRunBackup (Some m) # cbs) = m # run_requests cbs"
| "run_requests (cb # cbs) = run_requests cbs"

lemma run_requests_append [simp]: "run_requests (xs @ ys) = run_requests xs @ run_requests ys"
  by (induction xs rule: run_requests.induct) simp_all

lemma run_requests_Cons: "run_requests (cb # cbs) = run_requests [cb] @ run_requests cbs"
  using run_requests_append [of "[cb]" cbs] by simp

text \<open>The tasks that a sequence of callbacks starts on connection \<open>n\<close>.\<close>

definition new_tasks :: "nat \<Rightarrow> callback list \<Rightarrow> task list" where
  "new_tasks n cbs = map (\<lambda>m. \<lparr>tk_msg = m, tk_conn = n, tk_phase = Spawned\<rparr>) (run_requests cbs)"

lemma new_tasks_simps [simp]:
  "new_tasks n [] = []" "new_tasks n (xs @ ys) = new_tasks n xs @ new_tasks n ys" "map tk_msg (new_tasks n cbs) = run_requests cbs"
  by (simp_all add: new_tasks_def comp_def)

lemma new_tasks_Cons: "new_tasks n (cb # cbs) = new_tasks n [cb] @ new_tasks n cbs"
  using new_tasks_simps(2) [of n "[cb]" cbs] by simp

lemma new_tasks_in: "t \<in> set (new_tasks n cbs) \<Longrightarrow> tk_phase t = Spawned \<and> tk_conn t = n"
  by (auto simp: new_tasks_def)

lemma agent_callback_effect:
  "agent_callback cb a = Some a' \<Longrightarrow>
     a' = a\<lparr>ag_snap := config_effect (ag_snap a) cb, ag_tasks := ag_tasks a @ new_tasks (ag_conn a) [cb]\<rparr>"
  by (cases cb) (auto simp: agent_callback_def config_effect_def new_tasks_def split: option.splits)

lemma agent_callbacks_effect:
  "agent_callbacks cbs a = Some a' \<Longrightarrow>
     a' = a\<lparr>ag_snap := foldl config_effect (ag_snap a) cbs, ag_tasks := ag_tasks a @ new_tasks (ag_conn a) cbs\<rparr>"
proof (induction cbs arbitrary: a)
  case (Cons cb cbs)
  from Cons.prems obtain a1 where a1: "agent_callback cb a = Some a1" "agent_callbacks cbs a1 = Some a'"
    by (auto simp: bind_eq_Some_conv)
  from agent_callback_effect [OF a1(1)] Cons.IH [OF a1(2)] show ?case
    by (simp add: new_tasks_Cons [of "ag_conn a" cb cbs])
qed simp

text \<open>What the delivery of a client's new callbacks does to the agent.\<close>

lemma agent_deliver_effect:
  assumes "agent_deliver c a = Some a'" "more_calls (ag_client a) c"
  obtains new where "cl_calls c = cl_calls (ag_client a) @ new"
    "a' = a\<lparr>ag_client := c, ag_snap := foldl config_effect (ag_snap a) new, ag_tasks := ag_tasks a @ new_tasks (ag_conn a) new\<rparr>"
proof -
  obtain new where new: "cl_calls c = cl_calls (ag_client a) @ new" using assms(2) by (auto simp: more_calls_def)
  with assms(1) have "agent_callbacks new (a\<lparr>ag_client := c\<rparr>) = Some a'" by (simp add: agent_deliver_def)
  from agent_callbacks_effect [OF this] new show thesis by (intro that [of new]) simp_all
qed

section \<open>The kinds of steps\<close>

lemma calls_dispatch_error: "live_step w ev c = (Some e, c') \<Longrightarrow> cl_calls c' = cl_calls c"
proof (cases ev)
  case (EvFrame now fr)
  assume "live_step w ev c = (Some e, c')"
  with EvFrame show ?thesis by (auto simp: read_step_def split: option.splits if_splits)
next
  case (EvWrite now b)
  assume live: "live_step w ev c = (Some e, c')"
  then obtain e0 out where o': "cl_out c = Some (e0 # out)"
    using EvWrite by (auto simp: write_step_def split: option.splits list.splits)
  obtain e1 c1 where s: "stamp now (c\<lparr>cl_out := Some out\<rparr>) e0 = (e1, c1)" by fastforce
  with calls_stamp [of now "c\<lparr>cl_out := Some out\<rparr>" e0] have "cl_calls c1 = cl_calls c" by simp
  with live o' s EvWrite show ?thesis by (auto simp: write_step_def split: option.splits if_splits)
qed simp_all

lemma calls_connect_error:
  assumes "connect w url_parse dial_ok now write_ok reply ms c = (Some e, c')"
  shows "cl_calls c' = cl_calls c"
proof -
  have "cl_calls (snd (handshake w now write_ok reply c)) = cl_calls c"
    by (simp add: handshake_def Let_def split: option.split prod.split payload.split)
  with assms show ?thesis by (auto simp: connect_cases split: sum.splits if_splits prod.splits)
qed

lemma set_phase_simps [simp]:
  "ag_snap (set_phase k ph a) = ag_snap a" "ag_client (set_phase k ph a) = ag_client a" "ag_link (set_phase k ph a) = ag_link a"
  "ag_conn (set_phase k ph a) = ag_conn a" "ag_stopping (set_phase k ph a) = ag_stopping a"
  "ag_metrics (set_phase k ph a) = ag_metrics a" "ag_sys (set_phase k ph a) = ag_sys a" "ag_sent (set_phase k ph a) = ag_sent a"
  "ag_uploads (set_phase k ph a) = ag_uploads a"
  "ag_tasks (set_phase k ph a) = (ag_tasks a)[k := (ag_tasks a ! k)\<lparr>tk_phase := ph\<rparr>]"
  by (simp_all add: set_phase_def)

lemma link_simps [simp]:
  "cl_calls (ag_client (link_lost a)) = cl_calls (ag_client a)" "cl_calls (ag_client (link_closed a)) = cl_calls (ag_client a)"
  "ag_client (link_opened a) = ag_client a"
  by (simp_all add: link_lost_def link_closed_def link_opened_def disconnect_def)

text \<open>
  Seen from the tasks and the reports, a step delivers callbacks (possibly none), or moves one task
  to its next phase. \<open>Settled\<close> covers the runs with a live and with a cancelled context.
\<close>

lemma agent_step_kinds:
  assumes "agent_step w url_parse os' uploader err_text z sha a a'"
  obtains
    (Delivered) new where "cl_calls (ag_client a') = cl_calls (ag_client a) @ new"
      "ag_snap a' = foldl config_effect (ag_snap a) new" "ag_tasks a' = ag_tasks a @ new_tasks (ag_conn a) new"
      "ag_sent a' = ag_sent a" "ag_uploads a' = ag_uploads a" "mt_RunsTotal (ag_metrics a') = mt_RunsTotal (ag_metrics a)"
      "mt_RunSizeBytes (ag_metrics a') = mt_RunSizeBytes (ag_metrics a)"
  | (Job) k where "k < length (ag_tasks a)" "tk_phase (ag_tasks a ! k) = Spawned" "a' = set_phase k (JobRead (ag_snap a)) a"
  | (Target) k sj where "k < length (ag_tasks a)" "tk_phase (ag_tasks a ! k) = JobRead sj"
      "a' = set_phase k (Resolved sj (ag_snap a)) a"
  | (Settled) k sj st pe osc up where "k < length (ag_tasks a)" "tk_phase (ag_tasks a ! k) = Resolved sj st" "pe_zstd pe = z"
      "pe_sha256 pe = sha" "a' = agent_settle_run osc up pe k sj st a"
      "if ctx_alive a (ag_tasks a ! k) then osc = os' \<and> up = uploader else \<exists>n. up = cancelled_put uploader n"
  | (Returned) k evs res where "k < length (ag_tasks a)" "tk_phase (ag_tasks a ! k) = Returning evs res"
      "a' = agent_return_run k evs res a"
  | (Report) k res now where "k < length (ag_tasks a)" "tk_phase (ag_tasks a ! k) = RunDone res"
      "a' = agent_report w err_text now k res a"
  using assms
proof (cases rule: agent_step.cases)
  case (ConnectFails dial_ok now write_ok reply ms e c)
  show ?thesis
    using calls_connect_error [OF ConnectFails(4)] by (intro Delivered [of "[]"]) (simp_all add: ConnectFails(1) link_lost_def disconnect_def)
next
  case (Connects dial_ok now write_ok reply ms c a1)
  from agent_deliver_effect [OF Connects(5) more_calls_connect [OF Connects(4)]] obtain new where
    "cl_calls c = cl_calls (ag_client a) @ new" "a1 = a\<lparr>ag_client := c, ag_snap := foldl config_effect (ag_snap a) new,
      ag_tasks := ag_tasks a @ new_tasks (ag_conn a) new\<rparr>" by blast
  then show ?thesis by (intro Delivered [of new]) (simp_all add: Connects(1) link_opened_def)
next
  case ReplayStarts
  then show ?thesis by (intro Delivered [of "[]"]) simp_all
next
  case (ReplaysJob j js Q c)
  have "cl_calls c = cl_calls (ag_client a)" using calls_replay_loop [of w Q "\<lambda>_. False" 0 "[j]" "ag_client a"] ReplaysJob(4) by simp
  then show ?thesis by (intro Delivered [of "[]"]) (simp_all add: ReplaysJob(1))
next
  case ReplayEnds
  then show ?thesis by (intro Delivered [of "[]"]) simp_all
next
  case (Live ev c)
  have "more_calls (ag_client a) c" using more_calls_live_step [of "ag_client a" w ev] Live(2) by simp
  from agent_deliver_effect [OF Live(3) this] obtain new where
    "cl_calls c = cl_calls (ag_client a) @ new" "a' = a\<lparr>ag_client := c, ag_snap := foldl config_effect (ag_snap a) new,
      ag_tasks := ag_tasks a @ new_tasks (ag_conn a) new\<rparr>" by blast
  then show ?thesis by (intro Delivered [of new]) simp_all
next
  case (Lost ev e c)
  show ?thesis
    using calls_dispatch_error [OF Lost(3)] by (intro Delivered [of "[]"]) (simp_all add: Lost(1) link_lost_def disconnect_def)
next
  case Signal
  then show ?thesis by (intro Delivered [of "[]"]) simp_all
next
  case Closed
  then show ?thesis by (intro Delivered [of "[]"]) (simp_all add: link_closed_def disconnect_def)
next
  case ClosedWaiting
  then show ?thesis by (intro Delivered [of "[]"]) simp_all
next
  case (Scans now d s)
  then show ?thesis by (intro Delivered [of "[]"]) (simp_all add: agent_scan_def split: sum.split)
qed (fastforce intro: Job Target Report, fastforce intro: Job Target Report, (auto intro!: Settled)[2], fastforce intro: Returned,
    fastforce intro: Job Target Report)

section \<open>Requests, tasks and reports\<close>

text \<open>A report for a run: a completed backup or a failed job, with the ids of the request.\<close>

definition reports_failure :: "RunBackupMsg \<Rightarrow> Envelope \<Rightarrow> bool" where
  "reports_failure m e \<longleftrightarrow> (\<exists>ju. env_Payload e = Some (PJobUpdate (Some ju)) \<and> ju_Status ju = FAILED
     \<and> ju_JobId ju = rb_JobId m \<and> ju_RunId ju = rb_RunId m)"

definition reports_success :: "RunBackupMsg \<Rightarrow> Envelope \<Rightarrow> bool" where
  "reports_success m e \<longleftrightarrow> (\<exists>bc. env_Payload e = Some (PBackupCompleted (Some bc))
     \<and> bc_JobId bc = rb_JobId m \<and> bc_RunId bc = rb_RunId m)"

definition result_matches :: "RunBackupMsg \<Rightarrow> run_err + BackupCompleted \<Rightarrow> bool" where
  "result_matches m res \<longleftrightarrow> (\<forall>bc. res = Inr bc \<longrightarrow> bc_JobId bc = rb_JobId m \<and> bc_RunId bc = rb_RunId m)"

definition phase_ok :: "task \<Rightarrow> bool" where
  "phase_ok t \<longleftrightarrow>
     (case tk_phase t of
        Returning evs res \<Rightarrow> result_matches (tk_msg t) res
      | RunDone res \<Rightarrow> result_matches (tk_msg t) res
      | Reported e \<Rightarrow> reports_failure (tk_msg t) e \<or> reports_success (tk_msg t) e
      | _ \<Rightarrow> True)"

text \<open>The tasks are the requests, in order; the log of reports is that of the tasks that reported.\<close>

definition tasks_inv :: "('x, 's) agent \<Rightarrow> bool" where
  "tasks_inv a \<longleftrightarrow> map tk_msg (ag_tasks a) = run_requests (cl_calls (ag_client a))
     \<and> distinct (map fst (ag_sent a))
     \<and> (\<forall>k e. (k, e) \<in> set (ag_sent a) \<longleftrightarrow> k < length (ag_tasks a) \<and> tk_phase (ag_tasks a ! k) = Reported e)
     \<and> (\<forall>t \<in> set (ag_tasks a). phase_ok t)"

lemma report_envelope_kind:
  "reports_failure m (report_envelope err_text now m (Inl e))"
  "result_matches m (Inr bc) \<Longrightarrow> reports_success m (report_envelope err_text now m (Inr bc))"
  by (simp_all add: reports_failure_def reports_success_def report_envelope_def buildJobFailed_def buildBackupCompleted_def
      result_matches_def)

lemma uploader_agent_runner: "rn_uploader (agent_runner os' uploader sj st) = Some uploader"
  by (simp add: agent_runner_def NewRunner_def WithTargetLookup_def WithJobLookup_def)

lemma run_matches: "Runner_Run (agent_runner os' up sj st) pe x (Some m) = (res, evs, x') \<Longrightarrow> result_matches m res"
  by (auto simp: result_matches_def elim: run_completed [OF _ uploader_agent_runner])

text \<open>The settled run, with its parts named, and its return.\<close>

lemma agent_settle_run_parts:
  obtains res evs x where "Runner_Run (agent_runner osc up sj st) pe (ag_sys a) (Some (tk_msg (ag_tasks a ! k))) = (res, evs, x)"
    "agent_settle_run osc up pe k sj st a = (set_phase k (Returning evs res) a)\<lparr>ag_sys := x, ag_uploads := ag_uploads a @ uploads_of evs\<rparr>"
proof -
  obtain res evs x where "Runner_Run (agent_runner osc up sj st) pe (ag_sys a) (Some (tk_msg (ag_tasks a ! k))) = (res, evs, x)"
    by (metis prod_cases3)
  then show thesis by (intro that) (simp_all add: agent_settle_run_def)
qed

lemma agent_return_run_parts [simp]:
  "ag_tasks (agent_return_run k evs res a) = (ag_tasks a)[k := (ag_tasks a ! k)\<lparr>tk_phase := RunDone res\<rparr>]"
  "ag_metrics (agent_return_run k evs res a) = observe_events evs (ag_metrics a)"
  "ag_sent (agent_return_run k evs res a) = ag_sent a" "ag_client (agent_return_run k evs res a) = ag_client a"
  "ag_uploads (agent_return_run k evs res a) = ag_uploads a" "ag_snap (agent_return_run k evs res a) = ag_snap a"
  "ag_link (agent_return_run k evs res a) = ag_link a" "ag_conn (agent_return_run k evs res a) = ag_conn a"
  "ag_stopping (agent_return_run k evs res a) = ag_stopping a" "ag_sys (agent_return_run k evs res a) = ag_sys a"
  by (simp_all add: agent_return_run_def)

lemma agent_report_parts:
  "ag_tasks (agent_report w err_text now k res a) = (ag_tasks a)[k := (ag_tasks a ! k)\<lparr>tk_phase := Reported
      (report_envelope err_text now (tk_msg (ag_tasks a ! k)) res)\<rparr>]"
  "ag_sent (agent_report w err_text now k res a) = ag_sent a @ [(k, report_envelope err_text now (tk_msg (ag_tasks a ! k)) res)]"
  "cl_calls (ag_client (agent_report w err_text now k res a)) = cl_calls (ag_client a)"
  "ag_uploads (agent_report w err_text now k res a) = ag_uploads a" "ag_snap (agent_report w err_text now k res a) = ag_snap a"
  "ag_metrics (agent_report w err_text now k res a) = ag_metrics a" "ag_link (agent_report w err_text now k res a) = ag_link a"
  "ag_conn (agent_report w err_text now k res a) = ag_conn a" "ag_stopping (agent_report w err_text now k res a) = ag_stopping a"
  by (simp_all add: agent_report_def Let_def)

lemma map_tk_msg_update [simp]: "map tk_msg (ts[k := (ts ! k)\<lparr>tk_phase := ph\<rparr>]) = map tk_msg ts"
proof (cases "k < length ts")
  case True
  then show ?thesis by (simp add: map_update) (metis list_update_id nth_map)
qed (simp add: list_update_beyond)

lemma tasks_inv_init: "tasks_inv (agent_init w cfg vars m st x)"
  by (simp add: tasks_inv_def agent_init_def NewClient_def Let_def)

text \<open>A task that moves to a phase other than \<open>Reported\<close>.\<close>

lemma tasks_inv_move:
  assumes "tasks_inv a" "k < length (ag_tasks a)" "\<And>e. tk_phase (ag_tasks a ! k) \<noteq> Reported e" "\<And>e. ph \<noteq> Reported e"
    and "phase_ok ((ag_tasks a ! k)\<lparr>tk_phase := ph\<rparr>)"
    and "ag_tasks a' = (ag_tasks a)[k := (ag_tasks a ! k)\<lparr>tk_phase := ph\<rparr>]" "ag_sent a' = ag_sent a"
    and "cl_calls (ag_client a') = cl_calls (ag_client a)"
  shows "tasks_inv a'"
  unfolding tasks_inv_def
proof (intro conjI)
  show "map tk_msg (ag_tasks a') = run_requests (cl_calls (ag_client a'))" "distinct (map fst (ag_sent a'))"
    using assms(1,6-8) by (simp_all add: tasks_inv_def)
  show "\<forall>i e. (i, e) \<in> set (ag_sent a') \<longleftrightarrow> i < length (ag_tasks a') \<and> tk_phase (ag_tasks a' ! i) = Reported e"
    using assms(1-4,6,7) by (auto simp: tasks_inv_def nth_list_update)
  show "\<forall>t \<in> set (ag_tasks a'). phase_ok t"
    using assms(1,5,6) by (auto simp: tasks_inv_def dest!: set_update_subset_insert [THEN subsetD])
qed

lemma tasks_inv_report:
  assumes "tasks_inv a" "k < length (ag_tasks a)" "tk_phase (ag_tasks a ! k) = RunDone res"
  shows "tasks_inv (agent_report w err_text now k res a)"
proof -
  let ?e = "report_envelope err_text now (tk_msg (ag_tasks a ! k)) res"
  have "result_matches (tk_msg (ag_tasks a ! k)) res"
    using assms by (auto simp: tasks_inv_def phase_ok_def dest!: bspec [of _ _ "ag_tasks a ! k"])
  then have ok: "phase_ok ((ag_tasks a ! k)\<lparr>tk_phase := Reported ?e\<rparr>)"
    using report_envelope_kind by (cases res) (auto simp: phase_ok_def)
  have new: "k \<notin> fst ` set (ag_sent a)" using assms by (force simp: tasks_inv_def)
  have "tk_phase (ag_tasks a ! k) \<noteq> Reported e" for e using assms(3) by simp
  then show ?thesis
    using assms(1,2) ok new
    by (auto simp: tasks_inv_def agent_report_parts nth_list_update dest!: set_update_subset_insert [THEN subsetD] split: if_splits)
qed

lemma tasks_inv_step:
  assumes "agent_step w url_parse os' uploader err_text z sha a a'" "tasks_inv a"
  shows "tasks_inv a'"
  using assms(1)
proof (cases rule: agent_step_kinds)
  case (Delivered new)
  have fresh: "\<forall>t \<in> set (new_tasks (ag_conn a) new). phase_ok t \<and> (\<forall>e. tk_phase t \<noteq> Reported e)"
    by (auto dest!: new_tasks_in simp: phase_ok_def)
  then have "tk_phase (new_tasks (ag_conn a) new ! i) \<noteq> Reported e" if "i < length (new_tasks (ag_conn a) new)" for i e
    using that nth_mem by blast
  with Delivered fresh assms(2) show ?thesis by (auto simp: tasks_inv_def nth_append)
next
  case (Settled k sj st pe osc up)
  obtain res evs x where R: "Runner_Run (agent_runner osc up sj st) pe (ag_sys a) (Some (tk_msg (ag_tasks a ! k))) = (res, evs, x)"
    "a' = (set_phase k (Returning evs res) a)\<lparr>ag_sys := x, ag_uploads := ag_uploads a @ uploads_of evs\<rparr>"
    by (metis Settled(5) agent_settle_run_parts)
  show ?thesis
    by (rule tasks_inv_move [OF assms(2) Settled(1), of "Returning evs res"])
       (use Settled(2) run_matches [OF R(1)] R(2) in \<open>simp_all add: phase_ok_def\<close>)
next
  case (Returned k evs res)
  have "phase_ok (ag_tasks a ! k)" using assms(2) Returned(1) by (simp add: tasks_inv_def)
  then show ?thesis
    by (intro tasks_inv_move [OF assms(2) Returned(1), of "RunDone res"]) (simp_all add: Returned(2,3) phase_ok_def)
next
  case (Report k res now)
  then show ?thesis using tasks_inv_report assms(2) by blast
next
  case (Job k)
  then show ?thesis by (intro tasks_inv_move [OF assms(2) Job(1), of "JobRead (ag_snap a)"]) (simp_all add: phase_ok_def)
next
  case (Target k sj)
  then show ?thesis by (intro tasks_inv_move [OF assms(2) Target(1), of "Resolved sj (ag_snap a)"]) (simp_all add: phase_ok_def)
qed

text \<open>Tasks keep their request.\<close>

lemma agent_step_msgs:
  assumes "agent_step w url_parse os' uploader err_text z sha a a'"
  shows "\<exists>ms. map tk_msg (ag_tasks a') = map tk_msg (ag_tasks a) @ ms"
  using assms
proof (cases rule: agent_step_kinds)
  case (Settled k sj st pe osc up)
  then show ?thesis by (simp add: agent_settle_run_def split: prod.split)
qed (simp_all add: agent_report_parts)

lemma tk_msg_stays:
  assumes "(agent_step w url_parse os' uploader err_text z sha)\<^sup>*\<^sup>* a b" "k < length (ag_tasks a)"
  shows "tk_msg (ag_tasks b ! k) = tk_msg (ag_tasks a ! k)"
proof -
  have "\<exists>ms. map tk_msg (ag_tasks b) = map tk_msg (ag_tasks a) @ ms"
    using assms(1) by (induction rule: rtranclp_induct) (simp, metis agent_step_msgs append_assoc)
  then obtain ms where ms: "map tk_msg (ag_tasks b) = map tk_msg (ag_tasks a) @ ms" by blast
  have "k < length (ag_tasks b)" using arg_cong [OF ms, of length] assms(2) by simp
  with arg_cong [OF ms, of "\<lambda>l. l ! k"] assms(2) show ?thesis by (simp add: nth_append)
qed

text \<open>What holds at the start and is kept by every step holds in every reachable state.\<close>

lemma agent_reach_induct:
  assumes "(agent_step w url_parse os' uploader err_text z sha)\<^sup>*\<^sup>* a a'" "I a"
    and "\<And>b b'. agent_step w url_parse os' uploader err_text z sha b b' \<Longrightarrow> I b \<Longrightarrow> I b'"
  shows "I a'"
  using assms by (induction rule: rtranclp_induct) simp_all

lemmas tasks_inv_reach = agent_reach_induct [of _ _ _ _ _ _ _ _ _ tasks_inv, OF _ tasks_inv_init tasks_inv_step]

section \<open>The configurations a run sees\<close>

definition no_config :: "callback list \<Rightarrow> bool" where
  "no_config cbs \<longleftrightarrow> list_all (\<lambda>cb. case cb of CbConfigUpdate m \<Rightarrow> Option.bind m cu_Config = None | _ \<Rightarrow> True) cbs"

lemma latest_config_none: "no_config cbs \<Longrightarrow> latest_config cbs = newConfigSnapshot"
proof (induction cbs rule: rev_induct)
  case (snoc cb cbs)
  then show ?case by (cases cb) (simp_all add: no_config_def latest_config_def config_effect_def)
qed (simp add: latest_config_def)

lemma foldl_upd_map_of: "foldl (\<lambda>m t. m(f t \<mapsto> t)) Map.empty ts i = map_of (rev (map (\<lambda>t. (f t, t)) ts)) i"
proof -
  have "foldl (\<lambda>m t. m(f t \<mapsto> t)) m ts = m ++ map_of (rev (map (\<lambda>t. (f t, t)) ts))" for m
    by (induction ts arbitrary: m) (simp_all add: map_add_upd_left)
  then show ?thesis by simp
qed

text \<open>
  What a snapshot should show, without reference to how \<open>Set\<close> builds it: the configuration received
  last, searched from its end, and nothing at all before the first one.
\<close>

definition configs_in :: "callback list \<Rightarrow> AgentConfig list" where
  "configs_in cbs = List.map_filter (\<lambda>cb. case cb of CbConfigUpdate m \<Rightarrow> Option.bind m cu_Config | _ \<Rightarrow> None) cbs"

definition received_last :: "callback list \<Rightarrow> AgentConfig option" where
  "received_last cbs = (if configs_in cbs = [] then None else Some (last (configs_in cbs)))"

definition shows_config :: "configSnapshot \<Rightarrow> AgentConfig option \<Rightarrow> bool" where
  "shows_config s cfg \<longleftrightarrow>
     (\<forall>i. configSnapshot_Job s i = Option.bind cfg (\<lambda>c. List.find (\<lambda>j. bj_Id j = i) (rev (ac_Jobs c)))
        \<and> configSnapshot_Target s i = Option.bind cfg (\<lambda>c. List.find (\<lambda>t. tg_Id t = i) (rev (ac_Targets c))))"

lemma configs_in_simps [simp]:
  "configs_in [] = []" "configs_in (xs @ ys) = configs_in xs @ configs_in ys"
  "configs_in [cb] = (case cb of CbConfigUpdate m \<Rightarrow> (case Option.bind m cu_Config of None \<Rightarrow> [] | Some c \<Rightarrow> [c]) | _ \<Rightarrow> [])"
  by (auto simp: configs_in_def List.map_filter_def split: callback.split option.split)

lemma map_of_find: "map_of (map (\<lambda>t. (f t, t)) ts) i = List.find (\<lambda>t. f t = i) ts"
  by (induction ts) auto

lemma Set_shows_config: "shows_config (configSnapshot_Set s c) (Some c)"
  by (simp add: shows_config_def configSnapshot_Job_def configSnapshot_Target_def configSnapshot_Set_def foldl_upd_map_of rev_map map_of_find)

lemma latest_config_shows: "shows_config (latest_config cbs) (received_last cbs)"
proof (induction cbs rule: rev_induct)
  case Nil
  show ?case
    by (simp add: latest_config_def received_last_def shows_config_def configSnapshot_Job_def configSnapshot_Target_def newConfigSnapshot_def)
next
  case (snoc cb cbs)
  then show ?case
    by (auto simp: latest_config_def received_last_def config_effect_def Set_shows_config split: callback.split option.split)
qed

text \<open>
  What a task has looked up was the latest configuration when it did: after the first \<open>n\<close> (the job)
  and the first \<open>m\<close> (the target) callbacks, which include the request itself.
\<close>

definition looked_up :: "callback list \<Rightarrow> nat \<Rightarrow> phase \<Rightarrow> bool" where
  "looked_up cbs k ph \<longleftrightarrow>
     (case ph of
        JobRead sj \<Rightarrow> \<exists>n. n \<le> length cbs \<and> k < length (run_requests (take n cbs)) \<and> sj = latest_config (take n cbs)
      | Resolved sj st \<Rightarrow>
          \<exists>n m. n \<le> m \<and> m \<le> length cbs \<and> k < length (run_requests (take n cbs))
            \<and> sj = latest_config (take n cbs) \<and> st = latest_config (take m cbs)
      | _ \<Rightarrow> True)"

lemma looked_up_simps [simp]:
  "looked_up cbs k Spawned" "looked_up cbs k (Returning evs r)" "looked_up cbs k (RunDone r)" "looked_up cbs k (Reported e)"
  "looked_up cbs k (JobRead sj) \<longleftrightarrow>
     (\<exists>n \<le> length cbs. k < length (run_requests (take n cbs)) \<and> sj = latest_config (take n cbs))"
  "looked_up cbs k (Resolved sj st) \<longleftrightarrow>
     (\<exists>n m. n \<le> m \<and> m \<le> length cbs \<and> k < length (run_requests (take n cbs))
        \<and> sj = latest_config (take n cbs) \<and> st = latest_config (take m cbs))"
  by (simp_all add: looked_up_def)

lemma looked_up_later:
  assumes "looked_up cbs k ph"
  shows "looked_up (cbs @ new) k ph"
proof -
  have take_new: "take n (cbs @ new) = take n cbs \<and> n \<le> length (cbs @ new)" if "n \<le> length cbs" for n using that by simp
  show ?thesis
  proof (cases ph)
    case (JobRead sj)
    with assms take_new show ?thesis by (metis looked_up_simps(5))
  next
    case (Resolved sj st)
    with assms obtain n m where "n \<le> m" "m \<le> length cbs" "k < length (run_requests (take n cbs))"
      "sj = latest_config (take n cbs)" "st = latest_config (take m cbs)" by auto
    with take_new [of n] take_new [of m] show ?thesis
      unfolding Resolved looked_up_simps by (intro exI [of _ n] exI [of _ m]) simp
  qed simp_all
qed

definition lookups_inv :: "('x, 's) agent \<Rightarrow> bool" where
  "lookups_inv a \<longleftrightarrow> tasks_inv a \<and> ag_snap a = latest_config (cl_calls (ag_client a))
     \<and> (\<forall>k < length (ag_tasks a). looked_up (cl_calls (ag_client a)) k (tk_phase (ag_tasks a ! k)))"

lemma lookups_inv_init: "lookups_inv (agent_init w cfg vars m st x)"
  by (simp add: lookups_inv_def tasks_inv_init) (simp add: agent_init_def NewClient_def latest_config_def Let_def)

lemma tasks_requests: "tasks_inv a \<Longrightarrow> length (run_requests (cl_calls (ag_client a))) = length (ag_tasks a)"
  by (metis length_map tasks_inv_def)

lemma looked_up_now:
  assumes "lookups_inv a" "k < length (ag_tasks a)"
  shows "looked_up (cl_calls (ag_client a)) k (JobRead (ag_snap a))"
    "tk_phase (ag_tasks a ! k) = JobRead sj \<Longrightarrow> looked_up (cl_calls (ag_client a)) k (Resolved sj (ag_snap a))"
proof -
  let ?cbs = "cl_calls (ag_client a)"
  have snap: "ag_snap a = latest_config ?cbs" and req: "k < length (run_requests ?cbs)"
    using assms tasks_requests [of a] by (simp_all add: lookups_inv_def)
  then show "looked_up ?cbs k (JobRead (ag_snap a))"
    by (auto intro!: exI [of _ "length ?cbs"])
  assume "tk_phase (ag_tasks a ! k) = JobRead sj"
  with assms have "looked_up ?cbs k (JobRead sj)" by (metis lookups_inv_def)
  then obtain n where "n \<le> length ?cbs" "k < length (run_requests (take n ?cbs))" "sj = latest_config (take n ?cbs)"
    by auto
  with snap show "looked_up ?cbs k (Resolved sj (ag_snap a))"
    unfolding looked_up_simps by (intro exI [of _ n] exI [of _ "length ?cbs"]) simp
qed

lemma agent_settle_run_simps [simp]:
  "ag_snap (agent_settle_run osc up pe k sj st a) = ag_snap a" "ag_client (agent_settle_run osc up pe k sj st a) = ag_client a"
  "ag_link (agent_settle_run osc up pe k sj st a) = ag_link a" "ag_conn (agent_settle_run osc up pe k sj st a) = ag_conn a"
  "ag_stopping (agent_settle_run osc up pe k sj st a) = ag_stopping a" "ag_sent (agent_settle_run osc up pe k sj st a) = ag_sent a"
  "ag_metrics (agent_settle_run osc up pe k sj st a) = ag_metrics a"
  by (simp_all add: agent_settle_run_def split: prod.split)

lemma lookups_inv_step:
  assumes "agent_step w url_parse os' uploader err_text z sha a a'" "lookups_inv a"
  shows "lookups_inv a'"
proof -
  have inv: "tasks_inv a" "ag_snap a = latest_config (cl_calls (ag_client a))"
    "\<And>k. k < length (ag_tasks a) \<Longrightarrow> looked_up (cl_calls (ag_client a)) k (tk_phase (ag_tasks a ! k))"
    using assms(2) by (simp_all add: lookups_inv_def)
  have "ag_snap a' = latest_config (cl_calls (ag_client a'))
      \<and> (\<forall>k < length (ag_tasks a'). looked_up (cl_calls (ag_client a')) k (tk_phase (ag_tasks a' ! k)))"
    using assms(1)
  proof (cases rule: agent_step_kinds)
    case (Delivered new)
    have "tk_phase (new_tasks (ag_conn a) new ! i) = Spawned" if "i < length (new_tasks (ag_conn a) new)" for i
      using that new_tasks_in nth_mem by blast
    with Delivered inv(2,3) show ?thesis
      by (auto simp: latest_config_def nth_append intro: looked_up_later)
  next
    case (Settled k sj st pe osc up)
    obtain res evs x where "a' = (set_phase k (Returning evs res) a)\<lparr>ag_sys := x, ag_uploads := ag_uploads a @ uploads_of evs\<rparr>"
      by (metis Settled(5) agent_settle_run_parts)
    with inv Settled(1) show ?thesis by (simp add: nth_list_update)
  next
    case (Returned k evs res)
    with inv show ?thesis by (simp add: nth_list_update)
  next
    case (Report k res now)
    with inv show ?thesis by (simp add: agent_report_parts nth_list_update)
  next
    case (Job k)
    with inv looked_up_now(1) [OF assms(2)] show ?thesis by (simp add: nth_list_update)
  next
    case (Target k sj)
    with inv looked_up_now(2) [OF assms(2)] show ?thesis by (simp add: nth_list_update)
  qed
  with tasks_inv_step [OF assms(1) inv(1)] show ?thesis by (simp add: lookups_inv_def)
qed

lemmas lookups_inv_reach = agent_reach_induct [of _ _ _ _ _ _ _ _ _ lookups_inv, OF _ lookups_inv_init lookups_inv_step]

text \<open>Without a configuration every run fails: its job is unknown.\<close>

lemma resolve_empty_snapshot: "resolve (agent_runner os' uploader newConfigSnapshot st) rq = Inl (UnknownJob (rb_JobId rq))"
  by (simp add: resolve_def agent_runner_def NewRunner_def WithTargetLookup_def WithJobLookup_def
      configSnapshot_Job_def newConfigSnapshot_def)

lemma run_without_config:
  assumes "Runner_Run (agent_runner os' uploader newConfigSnapshot st) pe x (Some rq) = (res, evs, x')"
  shows "\<exists>e. res = Inl e"
  using assms by (auto simp: Runner_Run_def run_started_def resolve_empty_snapshot split: option.splits if_splits)

section \<open>Settled results\<close>

text \<open>Once a run has its result, the report that follows is that of the result.\<close>

definition run_result :: "task \<Rightarrow> (run_err + BackupCompleted) option" where
  "run_result t = (case tk_phase t of Returning evs res \<Rightarrow> Some res | RunDone res \<Rightarrow> Some res | _ \<Rightarrow> None)"

definition bound_to :: "run_err + BackupCompleted \<Rightarrow> task \<Rightarrow> bool" where
  "bound_to res t \<longleftrightarrow> run_result t = Some res
     \<or> (\<exists>e. tk_phase t = Reported e \<and> (if isl res then reports_failure (tk_msg t) e else reports_success (tk_msg t) e))"

lemma bound_to_simps [simp]:
  "\<not> bound_to res (t\<lparr>tk_phase := Spawned\<rparr>)" "\<not> bound_to res (t\<lparr>tk_phase := JobRead sj\<rparr>)"
  "\<not> bound_to res (t\<lparr>tk_phase := Resolved sj st\<rparr>)"
  "bound_to res (t\<lparr>tk_phase := Returning evs res'\<rparr>) \<longleftrightarrow> res' = res" "bound_to res (t\<lparr>tk_phase := RunDone res'\<rparr>) \<longleftrightarrow> res' = res"
  by (auto simp: bound_to_def run_result_def)

definition bound_inv :: "nat \<Rightarrow> run_err + BackupCompleted \<Rightarrow> ('x, 's) agent \<Rightarrow> bool" where
  "bound_inv k res a \<longleftrightarrow> tasks_inv a \<and> k < length (ag_tasks a) \<and> bound_to res (ag_tasks a ! k)"

lemma bound_inv_step:
  assumes "agent_step w url_parse os' uploader err_text z sha a a'" "bound_inv k res a"
  shows "bound_inv k res a'"
proof -
  have inv: "tasks_inv a" "k < length (ag_tasks a)" "bound_to res (ag_tasks a ! k)" using assms(2) by (simp_all add: bound_inv_def)
  have "k < length (ag_tasks a') \<and> bound_to res (ag_tasks a' ! k)"
    using assms(1)
  proof (cases rule: agent_step_kinds)
    case (Delivered new)
    with inv show ?thesis by (simp add: nth_append)
  next
    case (Settled i sj st pe osc up)
    then have "i \<noteq> k" using inv(3) by (auto simp: bound_to_def run_result_def)
    with inv show ?thesis using Settled(5) by (simp add: agent_settle_run_def split: prod.split)
  next
    case (Returned i evs res')
    with inv show ?thesis by (cases "i = k") (auto simp: bound_to_def run_result_def)
  next
    case (Report i res' now)
    show ?thesis
    proof (cases "i = k")
      case True
      have "res' = res" using inv(3) Report(2) True by (simp add: bound_to_def run_result_def)
      moreover have "result_matches (tk_msg (ag_tasks a ! k)) res'"
        using inv(1,2) Report(2) True by (auto simp: tasks_inv_def phase_ok_def dest!: bspec [of _ _ "ag_tasks a ! k"])
      ultimately have "bound_to res ((ag_tasks a ! k)\<lparr>tk_phase := Reported (report_envelope err_text now (tk_msg (ag_tasks a ! k)) res')\<rparr>)"
        using report_envelope_kind by (cases res) (auto simp: bound_to_def)
      with True inv(2) show ?thesis by (simp add: Report(3) agent_report_parts)
    qed (use inv Report(3) in \<open>simp add: agent_report_parts\<close>)
  next
    case (Job i)
    then have "i \<noteq> k" using inv(3) by (auto simp: bound_to_def run_result_def)
    with inv Job(3) show ?thesis by simp
  next
    case (Target i sj)
    then have "i \<noteq> k" using inv(3) by (auto simp: bound_to_def run_result_def)
    with inv Target(3) show ?thesis by simp
  qed
  with tasks_inv_step [OF assms(1) inv(1)] show ?thesis by (simp add: bound_inv_def)
qed

lemma settled_stays:
  assumes "(agent_step w url_parse os' uploader err_text z sha)\<^sup>*\<^sup>* a a'" "tasks_inv a" "k < length (ag_tasks a)"
    and "run_result (ag_tasks a ! k) = Some res"
  shows "bound_to res (ag_tasks a' ! k)"
proof -
  have "bound_inv k res a" using assms(2-4) by (simp add: bound_inv_def bound_to_def)
  from agent_reach_induct [OF assms(1), where I = "bound_inv k res", OF this] bound_inv_step show ?thesis
    unfolding bound_inv_def by blast
qed

lemma report_kinds_exclusive: "\<not> (reports_failure m e \<and> reports_success m' e)"
  by (auto simp: reports_failure_def reports_success_def)

section \<open>Runs that can only fail\<close>

definition failing :: "task \<Rightarrow> bool" where
  "failing t \<longleftrightarrow>
     (case tk_phase t of Returning evs res \<Rightarrow> \<exists>e. res = Inl e | RunDone res \<Rightarrow> \<exists>e. res = Inl e | Reported e \<Rightarrow> reports_failure (tk_msg t) e | _ \<Rightarrow> True)"

lemma failing_simps [simp]:
  "failing (t\<lparr>tk_phase := Spawned\<rparr>)" "failing (t\<lparr>tk_phase := JobRead sj\<rparr>)" "failing (t\<lparr>tk_phase := Resolved sj st\<rparr>)"
  "failing (t\<lparr>tk_phase := Returning evs res\<rparr>) \<longleftrightarrow> (\<exists>e. res = Inl e)"
  "failing (t\<lparr>tk_phase := RunDone res\<rparr>) \<longleftrightarrow> (\<exists>e. res = Inl e)"
  "failing (t\<lparr>tk_phase := Reported e\<rparr>) \<longleftrightarrow> reports_failure (tk_msg t) e"
  by (simp_all add: failing_def)

lemma failing_report:
  "failing t \<Longrightarrow> tk_phase t = RunDone res \<Longrightarrow> failing (t\<lparr>tk_phase := Reported (report_envelope err_text now (tk_msg t) res)\<rparr>)"
  using report_envelope_kind by (auto simp: failing_def)

text \<open>Without a configuration every task fails.\<close>

definition unconfigured_inv :: "('x, 's) agent \<Rightarrow> bool" where
  "unconfigured_inv a \<longleftrightarrow> lookups_inv a \<and> (no_config (cl_calls (ag_client a)) \<longrightarrow> (\<forall>t \<in> set (ag_tasks a). failing t))"

lemma no_config_append [simp]: "no_config (xs @ ys) \<longleftrightarrow> no_config xs \<and> no_config ys"
  by (simp add: no_config_def)

lemma no_config_take: "no_config cbs \<Longrightarrow> no_config (take n cbs)"
  by (metis append_take_drop_id no_config_append)

lemma unconfigured_inv_init: "unconfigured_inv (agent_init w cfg vars m st x)"
  by (simp add: unconfigured_inv_def lookups_inv_init) (simp add: agent_init_def)

lemma all_update:
  "\<forall>t \<in> set ts. P t \<Longrightarrow> P t' \<Longrightarrow> \<forall>t \<in> set (ts[k := t']). P t"
  using set_update_subset_insert [of ts k t'] by auto

lemma unconfigured_inv_step:
  assumes "agent_step w url_parse os' uploader err_text z sha a a'" "unconfigured_inv a"
  shows "unconfigured_inv a'"
proof -
  have inv: "lookups_inv a" "no_config (cl_calls (ag_client a)) \<Longrightarrow> \<forall>t \<in> set (ag_tasks a). failing t"
    using assms(2) by (simp_all add: unconfigured_inv_def)
  have "\<forall>t \<in> set (ag_tasks a'). failing t" if none: "no_config (cl_calls (ag_client a'))"
    using assms(1)
  proof (cases rule: agent_step_kinds)
    case (Delivered new)
    with inv(2) none show ?thesis by (auto simp: failing_def dest!: new_tasks_in)
  next
    case (Settled k sj st pe osc up)
    obtain res evs x where R: "Runner_Run (agent_runner osc up sj st) pe (ag_sys a) (Some (tk_msg (ag_tasks a ! k))) = (res, evs, x)"
      "a' = (set_phase k (Returning evs res) a)\<lparr>ag_sys := x, ag_uploads := ag_uploads a @ uploads_of evs\<rparr>"
      by (metis Settled(5) agent_settle_run_parts)
    with none have none': "no_config (cl_calls (ag_client a))" by simp
    have "looked_up (cl_calls (ag_client a)) k (Resolved sj st)" using inv(1) Settled(1,2) by (auto simp: lookups_inv_def simp del: looked_up_simps)
    then obtain n where "sj = latest_config (take n (cl_calls (ag_client a)))" by auto
    then have "sj = newConfigSnapshot" using none' by (simp add: latest_config_none no_config_take)
    from run_without_config [OF R(1) [unfolded this]] have "failing ((ag_tasks a ! k)\<lparr>tk_phase := Returning evs res\<rparr>)" by simp
    from all_update [OF inv(2) [OF none'] this, of k] show ?thesis unfolding R(2) by simp
  next
    case (Returned k evs res)
    with none have all: "\<forall>t \<in> set (ag_tasks a). failing t" using inv(2) by simp
    then have "failing (ag_tasks a ! k)" using Returned(1) by simp
    then have "failing ((ag_tasks a ! k)\<lparr>tk_phase := RunDone res\<rparr>)" by (simp add: failing_def Returned(2))
    from all_update [OF all this, of k] show ?thesis by (simp add: Returned(3))
  next
    case (Report k res now)
    with none have all: "\<forall>t \<in> set (ag_tasks a). failing t" using inv(2) by (simp add: agent_report_parts)
    with Report(1) have "failing (ag_tasks a ! k)" by simp
    from all_update [OF all failing_report [OF this Report(2)]] show ?thesis unfolding Report(3) agent_report_parts .
  next
    case (Job k)
    with none have "\<forall>t \<in> set (ag_tasks a). failing t" using inv(2) by simp
    then show ?thesis unfolding Job(3) set_phase_simps by (rule all_update) simp
  next
    case (Target k sj)
    with none have "\<forall>t \<in> set (ag_tasks a). failing t" using inv(2) by simp
    then show ?thesis unfolding Target(3) set_phase_simps by (rule all_update) simp
  qed
  with lookups_inv_step [OF assms(1) inv(1)] show ?thesis by (simp add: unconfigured_inv_def)
qed

lemmas unconfigured_inv_reach =
  agent_reach_induct [of _ _ _ _ _ _ _ _ _ unconfigured_inv, OF _ unconfigured_inv_init unconfigured_inv_step]

text \<open>
  The context of a run is that of its connection. A task belongs to the current connection or to
  an earlier one, and before the current one is in its loops only to earlier ones.
\<close>

definition conns_inv :: "('x, 's) agent \<Rightarrow> bool" where
  "conns_inv a \<longleftrightarrow> (\<forall>t \<in> set (ag_tasks a). tk_conn t \<le> ag_conn a
     \<and> (ag_link a \<noteq> Up \<longrightarrow> ag_link a \<noteq> Down \<longrightarrow> tk_conn t < ag_conn a))"

lemma conns_inv_init: "conns_inv (agent_init w cfg vars m st x)"
  by (simp add: conns_inv_def agent_init_def)

text \<open>What the steps do to the link and to the connections of the tasks.\<close>

lemma agent_step_link:
  assumes "agent_step w url_parse os' uploader err_text z sha a a'"
  obtains
    (Same) new where "ag_link a' = ag_link a" "ag_conn a' = ag_conn a" "ag_stopping a \<longrightarrow> ag_stopping a'"
      "map tk_conn (ag_tasks a') = map tk_conn (ag_tasks a) @ map tk_conn (new_tasks (ag_conn a) new)"
      "new \<noteq> [] \<Longrightarrow> ag_link a = Up"
  | (Close) "ag_link a' = Down" "ag_conn a' = ag_conn a" "ag_stopping a' = ag_stopping a" "ag_tasks a' = ag_tasks a"
  | (Open) new where "ag_link a = Down" "ag_link a' = Opened" "ag_conn a' = ag_conn a + 1" "ag_stopping a' = ag_stopping a"
      "ag_tasks a' = ag_tasks a @ new_tasks (ag_conn a) new"
  | (Replay) "ag_link a \<noteq> Up" "ag_link a \<noteq> Down" "ag_link a' \<noteq> Down" "ag_conn a' = ag_conn a" "ag_stopping a' = ag_stopping a"
      "ag_tasks a' = ag_tasks a"
proof -
  have upd: "map tk_conn (ts[k := (ts ! k)\<lparr>tk_phase := ph\<rparr>]) = map tk_conn ts" for ts k ph
    by (cases "k < length ts") (simp_all add: map_update list_update_same_conv list_update_beyond)
  show thesis
    using assms
  proof (cases rule: agent_step.cases)
    case (Connects dial_ok now write_ok reply ms c a1)
    from agent_deliver_effect [OF Connects(5) more_calls_connect [OF Connects(4)]] obtain new where
      "a1 = a\<lparr>ag_client := c, ag_snap := foldl config_effect (ag_snap a) new, ag_tasks := ag_tasks a @ new_tasks (ag_conn a) new\<rparr>"
      by blast
    with Connects(1,2) show thesis by (intro Open [of new]) (simp_all add: link_opened_def)
  next
    case (Live ev c)
    have "more_calls (ag_client a) c" using more_calls_live_step [of "ag_client a" w ev] Live(2) by simp
    from agent_deliver_effect [OF Live(3) this] obtain new where
      "a' = a\<lparr>ag_client := c, ag_snap := foldl config_effect (ag_snap a) new, ag_tasks := ag_tasks a @ new_tasks (ag_conn a) new\<rparr>"
      by blast
    with Live(1) show thesis by (intro Same [of new]) simp_all
  next
    case (ConnectFails dial_ok now write_ok reply ms e c)
    then show thesis by (intro Close) (simp_all add: link_lost_def)
  next
    case (Lost ev e c)
    then show thesis by (intro Close) (simp_all add: link_lost_def)
  next
    case Closed
    then show thesis by (intro Close) (simp_all add: link_closed_def)
  next
    case ReplayStarts
    then show thesis by (intro Replay) simp_all
  next
    case (ReplaysJob j js Q c)
    then show thesis by (intro Replay) simp_all
  next
    case ReplayEnds
    then show thesis by (intro Replay) simp_all
  next
    case Signal
    then show thesis by (intro Same [of "[]"]) simp_all
  next
    case ClosedWaiting
    then show thesis by (intro Same [of "[]"]) simp_all
  next
    case (LooksUpJob k)
    then show thesis by (intro Same [of "[]"]) (simp_all add: upd)
  next
    case (LooksUpTarget k sj)
    then show thesis by (intro Same [of "[]"]) (simp_all add: upd)
  next
    case (Settles k sj st pe)
    then show thesis by (intro Same [of "[]"]) (simp_all add: upd agent_settle_run_def split: prod.split)
  next
    case (SettlesCancelled k sj st pe osc n)
    then show thesis by (intro Same [of "[]"]) (simp_all add: upd agent_settle_run_def split: prod.split)
  next
    case (Returns k evs res)
    then show thesis by (intro Same [of "[]"]) (simp_all add: upd)
  next
    case (Reports k res now)
    then show thesis by (intro Same [of "[]"]) (simp_all add: upd agent_report_parts)
  next
    case (Scans now d s)
    then show thesis by (intro Same [of "[]"]) (simp_all add: agent_scan_def split: sum.split)
  qed
qed

lemma agent_step_conns:
  assumes "agent_step w url_parse os' uploader err_text z sha a a'" "conns_inv a"
  shows "conns_inv a'"
  using assms(1)
proof (cases rule: agent_step_link)
  case (Same new)
  have "set (map tk_conn (ag_tasks a')) = set (map tk_conn (ag_tasks a)) \<union> set (map tk_conn (new_tasks (ag_conn a) new))"
    unfolding Same(4) by simp
  moreover have "c = ag_conn a \<and> ag_link a = Up" if "c \<in> set (map tk_conn (new_tasks (ag_conn a) new))" for c
    using that Same(5) by (cases "new = []") (auto dest: new_tasks_in)
  ultimately have "tk_conn t \<in> tk_conn ` set (ag_tasks a) \<or> tk_conn t = ag_conn a \<and> ag_link a = Up" if "t \<in> set (ag_tasks a')" for t
    using that by (metis (no_types, lifting) Un_iff image_eqI set_map)
  with assms(2) Same(1,2) show ?thesis by (fastforce simp: conns_inv_def)
next
  case (Open new)
  with assms(2) show ?thesis by (fastforce simp: conns_inv_def dest: new_tasks_in)
qed (use assms(2) in \<open>auto simp: conns_inv_def\<close>)

text \<open>A context that has ended does not come back.\<close>

lemma ctx_stays_dead:
  assumes "agent_step w url_parse os' uploader err_text z sha a a'" "conns_inv a" "k < length (ag_tasks a)"
    and "\<not> ctx_alive a (ag_tasks a ! k)"
  shows "k < length (ag_tasks a') \<and> \<not> ctx_alive a' (ag_tasks a' ! k)"
  using assms(1)
proof (cases rule: agent_step_link)
  case (Same new)
  have len: "k < length (ag_tasks a')" using Same(4) assms(3) by (metis length_append length_map trans_less_add1)
  have "map tk_conn (ag_tasks a') ! k = map tk_conn (ag_tasks a) ! k" using assms(3) by (simp add: Same(4) nth_append)
  with len assms(3,4) Same(1-3) show ?thesis by (auto simp: ctx_alive_def)
next
  case Replay
  have "tk_conn (ag_tasks a ! k) < ag_conn a" using assms(2,3) Replay(1,2) by (simp add: conns_inv_def)
  with Replay assms(3) show ?thesis by (simp add: ctx_alive_def)
next
  case (Open new)
  with assms(3) show ?thesis by (simp add: ctx_alive_def nth_append)
qed (use assms(3) in \<open>simp_all add: ctx_alive_def\<close>)

text \<open>A run whose result is not settled when its connection goes can only fail.\<close>

lemma cancelled_run_fails:
  assumes "Runner_Run (agent_runner osc (cancelled_put uploader n) sj st) pe x (Some m) = (res, evs, x')"
  shows "\<exists>e. res = Inl e"
proof (cases res)
  case (Inr bc)
  with assms have False by (auto simp: cancelled_put_def split: if_splits elim!: run_completed [OF _ uploader_agent_runner])
  then show ?thesis ..
qed simp

definition doomed :: "nat \<Rightarrow> ('x, 's) agent \<Rightarrow> bool" where
  "doomed k a \<longleftrightarrow> conns_inv a \<and> k < length (ag_tasks a) \<and> \<not> ctx_alive a (ag_tasks a ! k) \<and> failing (ag_tasks a ! k)"

lemma doomed_step:
  assumes "agent_step w url_parse os' uploader err_text z sha a a'" "doomed k a"
  shows "doomed k a' \<and> tk_msg (ag_tasks a' ! k) = tk_msg (ag_tasks a ! k)"
proof -
  have inv: "conns_inv a" "k < length (ag_tasks a)" "\<not> ctx_alive a (ag_tasks a ! k)" "failing (ag_tasks a ! k)"
    using assms(2) by (simp_all add: doomed_def)
  have "failing (ag_tasks a' ! k) \<and> tk_msg (ag_tasks a' ! k) = tk_msg (ag_tasks a ! k)"
    using assms(1)
  proof (cases rule: agent_step_kinds)
    case (Delivered new)
    with inv show ?thesis by (simp add: nth_append)
  next
    case (Settled i sj st pe osc up)
    obtain res evs x where R: "Runner_Run (agent_runner osc up sj st) pe (ag_sys a) (Some (tk_msg (ag_tasks a ! i))) = (res, evs, x)"
      "a' = (set_phase i (Returning evs res) a)\<lparr>ag_sys := x, ag_uploads := ag_uploads a @ uploads_of evs\<rparr>"
      by (metis Settled(5) agent_settle_run_parts)
    have "\<exists>e. res = Inl e" if "i = k" using R(1) Settled(6) inv(3) that cancelled_run_fails by fastforce
    with inv R(2) show ?thesis by (cases "i = k") simp_all
  next
    case (Returned i evs res)
    with inv show ?thesis by (cases "i = k") (auto simp: failing_def nth_list_update)
  next
    case (Report i res now)
    with inv failing_report [of "ag_tasks a ! k" res] show ?thesis by (auto simp: agent_report_parts nth_list_update)
  next
    case (Job i)
    with inv show ?thesis by (auto simp: nth_list_update)
  next
    case (Target i sj)
    with inv show ?thesis by (auto simp: nth_list_update)
  qed
  with agent_step_conns [OF assms(1) inv(1)] ctx_stays_dead [OF assms(1) inv(1-3)] show ?thesis by (simp add: doomed_def)
qed

lemma doomed_reach:
  assumes "(agent_step w url_parse os' uploader err_text z sha)\<^sup>*\<^sup>* a a'" "doomed k a"
  shows "doomed k a' \<and> tk_msg (ag_tasks a' ! k) = tk_msg (ag_tasks a ! k)"
  using assms by (induction rule: rtranclp_induct) (simp, metis doomed_step)

lemmas conns_inv_reach = agent_reach_induct [of _ _ _ _ _ _ _ _ _ conns_inv, OF _ conns_inv_init agent_step_conns]

section \<open>What the reports promise\<close>

lemma uploads_of_put: "EvPut pr \<in> set evs \<Longrightarrow> pr \<in> set (uploads_of evs)"
  by (induction evs rule: uploads_of.induct) auto

text \<open>
  \<open>restores_to\<close>: given a token with this key and hash, the tool turns the file into the dump, for
  every environment with the inverse of the compressor and the same hash function.
\<close>

definition restores_to :: "zstd \<Rightarrow> (bytes \<Rightarrow> bytes) \<Rightarrow> bytes \<Rightarrow> string \<Rightarrow> bytes \<Rightarrow> bytes \<Rightarrow> bool" where
  "restores_to z sha key hash file dump \<longleftrightarrow>
     (\<forall>env opts cl. check_token env (Token opts) = Inr (cl, key) \<longrightarrow> SHA256 cl = hash \<longrightarrow> plain_env env
        \<longrightarrow> sha256_sum env = sha \<longrightarrow> (\<forall>d. zstd_decode env (zs_encode z d) = (d, True)) \<longrightarrow> \<not> SkipDecompress opts
        \<longrightarrow> (\<exists>ps. Run (env\<lparr>input_file := Some (reader_of file)\<rparr>) opts = (None, Some dump, ps)))"

text \<open>An upload among \<open>ups\<close> restores to what a driver of the agent dumped.\<close>

definition restorable :: "'x os \<Rightarrow> zstd \<Rightarrow> (bytes \<Rightarrow> bytes) \<Rightarrow> put_request list \<Rightarrow> RunBackupMsg \<Rightarrow> BackupCompleted \<Rightarrow> bool" where
  "restorable os' z sha ups m bc \<longleftrightarrow>
     (\<exists>pr \<in> set ups. \<exists>k d t y k' info w y'. agent_drivers os' k = Some d
        \<and> drv_Dump d y (Some t) (pipe_writer k') = (Inr info, w, y')
        \<and> restores_to z sha (rb_EncryptedDek m) (bc_Sha256 bc) (pr_body pr) (wr_data w))"

lemma restorable_append: "restorable os' z sha ups m bc \<Longrightarrow> restorable os' z sha (ups @ ups') m bc"
  unfolding restorable_def by fastforce

lemma run_report_restorable:
  assumes run: "Runner_Run (agent_runner os' uploader sj st) pe x (Some m) = (Inr bc, evs, x')"
    and whole: "\<And>tmo pr st n. uploader tmo pr = PutResponse st n \<Longrightarrow> st div 100 = 2 \<Longrightarrow> n = length (pr_body pr)"
    and dek: "rb_EncryptedDek m \<noteq> []"
  shows "restorable os' (pe_zstd pe) (pe_sha256 pe) (uploads_of evs) m bc"
proof (rule run_completed [OF run uploader_agent_runner])
  fix job t d encr y info dump pr tmo status n
  assume a: "reaches (agent_runner os' uploader sj st) pe m job t d encr" "complete_dump pe d t encr y info dump x' (pr_body pr)"
    "EvPut pr \<in> set evs" "uploader tmo pr = PutResponse status n" "status div 100 = 2"
    "bc_Sha256 bc = HexEncode (pe_sha256 pe (take n (pr_body pr)))"
  have res: "rn_dekResolver (agent_runner os' uploader sj st) = passthroughDEK"
    "rn_drivers (agent_runner os' uploader sj st) = agent_drivers os'"
    by (simp_all add: agent_runner_def NewRunner_def WithTargetLookup_def WithJobLookup_def)
  have sha: "bc_Sha256 bc = HexEncode (pe_sha256 pe (pr_body pr))" using whole [OF a(4,5)] a(6) by simp
  have "restores_to (pe_zstd pe) (pe_sha256 pe) (rb_EncryptedDek m) (bc_Sha256 bc) (pr_body pr) dump"
    unfolding restores_to_def sha using put_restores [OF a(1,2) res(1) dek] by blast
  moreover obtain w where "drv_Dump d y (Some t) (pipe_writer (pe_cut_dump pe)) = (Inr info, w, x')" "dump = wr_data w"
    using a(2) by (auto simp: complete_dump_def)
  moreover have "agent_drivers os' (dbTypeKey (tg_Type t)) = Some d" using a(1) res(2) by (simp add: reaches_def)
  ultimately show ?thesis unfolding restorable_def using uploads_of_put [OF a(3)] by blast
qed

text \<open>Every completed backup is restorable from an upload.\<close>

definition restorable_inv :: "'x os \<Rightarrow> zstd \<Rightarrow> (bytes \<Rightarrow> bytes) \<Rightarrow> ('x, 's) agent \<Rightarrow> bool" where
  "restorable_inv os' z sha a \<longleftrightarrow> tasks_inv a \<and> (\<forall>t \<in> set (ag_tasks a). rb_EncryptedDek (tk_msg t) \<noteq> [] \<longrightarrow>
     (\<forall>bc. (\<exists>evs. tk_phase t = Returning evs (Inr bc)) \<or> tk_phase t = RunDone (Inr bc)
          \<or> (\<exists>e. tk_phase t = Reported e \<and> env_Payload e = Some (PBackupCompleted (Some bc)))
        \<longrightarrow> restorable os' z sha (ag_uploads a) (tk_msg t) bc))"

lemma restorable_inv_step:
  assumes "agent_step w url_parse os' uploader err_text z sha a a'" "restorable_inv os' z sha a"
    and whole: "\<And>tmo pr st n. uploader tmo pr = PutResponse st n \<Longrightarrow> st div 100 = 2 \<Longrightarrow> n = length (pr_body pr)"
  shows "restorable_inv os' z sha a'"
proof -
  let ?ok = "\<lambda>ups t. rb_EncryptedDek (tk_msg t) \<noteq> [] \<longrightarrow>
     (\<forall>bc. (\<exists>evs. tk_phase t = Returning evs (Inr bc)) \<or> tk_phase t = RunDone (Inr bc)
          \<or> (\<exists>e. tk_phase t = Reported e \<and> env_Payload e = Some (PBackupCompleted (Some bc)))
        \<longrightarrow> restorable os' z sha ups (tk_msg t) bc)"
  have inv: "tasks_inv a" "\<forall>t \<in> set (ag_tasks a). ?ok (ag_uploads a) t" using assms(2) by (simp_all add: restorable_inv_def)
  have "\<forall>t \<in> set (ag_tasks a'). ?ok (ag_uploads a') t"
    using assms(1)
  proof (cases rule: agent_step_kinds)
    case (Delivered new)
    with inv(2) show ?thesis by (auto dest!: new_tasks_in)
  next
    case (Settled k sj st pe osc up)
    let ?m = "tk_msg (ag_tasks a ! k)"
    obtain res evs x where R: "Runner_Run (agent_runner osc up sj st) pe (ag_sys a) (Some ?m) = (res, evs, x)"
      "a' = (set_phase k (Returning evs res) a)\<lparr>ag_sys := x, ag_uploads := ag_uploads a @ uploads_of evs\<rparr>"
      by (metis Settled(5) agent_settle_run_parts)
    have "restorable os' z sha (ag_uploads a @ uploads_of evs) ?m bc" if "res = Inr bc" "rb_EncryptedDek ?m \<noteq> []" for bc
    proof -
      from R(1) that(1) have alive: "ctx_alive a (ag_tasks a ! k)" using Settled(6) cancelled_run_fails by (fastforce split: if_splits)
      with Settled(6) R(1) that(1) have "Runner_Run (agent_runner os' uploader sj st) pe (ag_sys a) (Some ?m) = (Inr bc, evs, x)" by simp
      from run_report_restorable [OF this whole that(2)] Settled(3,4)
      show ?thesis by (fastforce simp: restorable_def)
    qed
    then have "?ok (ag_uploads a @ uploads_of evs) ((ag_tasks a ! k)\<lparr>tk_phase := Returning evs res\<rparr>)" by simp
    moreover have "\<forall>t \<in> set (ag_tasks a). ?ok (ag_uploads a @ uploads_of evs) t"
      using inv(2) restorable_append by blast
    ultimately have "\<forall>t \<in> set ((ag_tasks a)[k := (ag_tasks a ! k)\<lparr>tk_phase := Returning evs res\<rparr>]). ?ok (ag_uploads a @ uploads_of evs) t"
      by (intro all_update)
    then show ?thesis unfolding R(2) by simp
  next
    case (Returned k evs res)
    have "?ok (ag_uploads a) (ag_tasks a ! k)" using inv(2) Returned(1) by simp
    then have "?ok (ag_uploads a) ((ag_tasks a ! k)\<lparr>tk_phase := RunDone res\<rparr>)" by (simp add: Returned(2))
    with inv(2) have "\<forall>t \<in> set ((ag_tasks a)[k := (ag_tasks a ! k)\<lparr>tk_phase := RunDone res\<rparr>]). ?ok (ag_uploads a) t" by (rule all_update)
    then show ?thesis by (simp add: Returned(3))
  next
    case (Report k res now)
    let ?m = "tk_msg (ag_tasks a ! k)"
    have "?ok (ag_uploads a) (ag_tasks a ! k)" using inv(2) Report(1) by simp
    then have "?ok (ag_uploads a) ((ag_tasks a ! k)\<lparr>tk_phase := Reported (report_envelope err_text now ?m res)\<rparr>)"
      using Report(2) by (cases res) (simp_all add: report_envelope_def buildJobFailed_def buildBackupCompleted_def)
    with inv(2) show ?thesis unfolding Report(3) agent_report_parts by (rule all_update)
  next
    case (Job k)
    have "?ok (ag_uploads a) ((ag_tasks a ! k)\<lparr>tk_phase := JobRead (ag_snap a)\<rparr>)" by simp
    with inv(2) show ?thesis unfolding Job(3) set_phase_simps by (rule all_update)
  next
    case (Target k sj)
    have "?ok (ag_uploads a) ((ag_tasks a ! k)\<lparr>tk_phase := Resolved sj (ag_snap a)\<rparr>)" by simp
    with inv(2) show ?thesis unfolding Target(3) set_phase_simps by (rule all_update)
  qed
  with tasks_inv_step [OF assms(1) inv(1)] show ?thesis by (simp add: restorable_inv_def)
qed

lemma restorable_inv_reach:
  assumes "(agent_step w url_parse os' uploader err_text z sha)\<^sup>*\<^sup>* (agent_init w cfg vars m st x) a"
    and "\<And>tmo pr st n. uploader tmo pr = PutResponse st n \<Longrightarrow> st div 100 = 2 \<Longrightarrow> n = length (pr_body pr)"
  shows "restorable_inv os' z sha a"
proof (rule agent_reach_induct [OF assms(1), where I = "restorable_inv os' z sha"])
  show "restorable_inv os' z sha (agent_init w cfg vars m st x)"
    by (simp add: restorable_inv_def tasks_inv_init) (simp add: agent_init_def)
qed (blast intro: restorable_inv_step assms(2))

end
