(* ===== verification/Agent_Metrics.thy ===== *)
theory Agent_Metrics
  imports Agent_Invariants
begin

text \<open>
  The metrics of the running agent: the gauge of the connection state follows the link, the two
  reconnect counters agree, and the counters of the runs count the tasks that are over.
\<close>

section \<open>Reconnects\<close>

text \<open>Only \<open>Start\<close> itself counts reconnects.\<close>

lemma reconnects_stamp [simp]: "cl_reconnectCount (snd (stamp now c e)) = cl_reconnectCount c"
  by (simp add: stamp_def)

lemma reconnects_persist [simp]: "cl_reconnectCount (snd (persist_env w c e)) = cl_reconnectCount c"
  by (simp add: persist_env_def split: option.splits prod.splits)

lemma reconnects_Send [simp]: "cl_reconnectCount (snd (Client_Send w now c e)) = cl_reconnectCount c"
proof (cases e)
  case (Some e0)
  obtain e1 c1 where s: "stamp now c e0 = (e1, c1)" by fastforce
  with reconnects_stamp [of now c e0] have "cl_reconnectCount c1 = cl_reconnectCount c" by simp
  with Some s show ?thesis by (simp add: Client_Send_def split: option.split)
qed (simp add: Client_Send_def)

lemma reconnects_dispatch [simp]: "cl_reconnectCount (snd (dispatch w now env c)) = cl_reconnectCount c"
proof (cases "env_Payload env")
  case (Some p)
  show ?thesis
  proof (cases p)
    case (PConfigUpdate m)
    show ?thesis
      unfolding dispatch_def Some PConfigUpdate option.case payload.case cb_err_def call_def
      by (cases "Option.bind m cu_Config"; cases "Option.bind (w_handlers w) h_OnConfigUpdate"; cases "w_state w";
          cases "marshal_cfg (w_codec w) (the (Option.bind m cu_Config))") simp_all
  next
    case (PPing m)
    define ack where "ack = Some ((NewEnvelope now)\<lparr>env_CorrelationId := env_CorrelationId env,
        env_Payload := Some (PAck (Some \<lparr>ack_CorrelationId = env_CorrelationId env, ack_Accepted = True, ack_Reason = []\<rparr>))\<rparr>)"
    have "snd (dispatch w now env c) = snd (Client_Send w now c ack)"
      by (simp add: dispatch_def Some PPing ack_def split: prod.split)
    then show ?thesis by simp
  qed (simp_all add: Some dispatch_def cb_err_def call_def split: option.split)
qed (simp add: dispatch_def)

lemma reconnects_live_step: "live_step w ev c = (e, c') \<Longrightarrow> cl_reconnectCount c' = cl_reconnectCount c"
proof (cases ev)
  case (EvSend now env)
  assume "live_step w ev c = (e, c')"
  with EvSend show ?thesis using reconnects_Send [of w now c env] by auto
next
  case (EvFrame now fr)
  assume "live_step w ev c = (e, c')"
  with EvFrame show ?thesis by (auto simp: read_step_def split: option.splits prod.splits if_splits)
next
  case (EvWrite now b)
  assume live: "live_step w ev c = (e, c')"
  show ?thesis
  proof (cases "\<exists>e0 out. cl_out c = Some (e0 # out)")
    case True
    then obtain e0 out where o': "cl_out c = Some (e0 # out)" by blast
    obtain e1 c1 where s: "stamp now (c\<lparr>cl_out := Some out\<rparr>) e0 = (e1, c1)" by fastforce
    with reconnects_stamp [of now "c\<lparr>cl_out := Some out\<rparr>" e0] have "cl_reconnectCount c1 = cl_reconnectCount c" by simp
    with live o' s EvWrite show ?thesis by (auto simp: write_step_def split: option.splits if_splits)
  qed (use live EvWrite in \<open>auto simp: write_step_def split: option.splits list.splits\<close>)
next
  case (EvTick now ms)
  assume "live_step w ev c = (e, c')"
  with EvTick show ?thesis by (auto simp: emitHeartbeat_def Let_def split: option.splits if_splits)
qed

lemma reconnects_connect:
  assumes "connect w url_parse dial_ok now write_ok reply ms c = (e, c')"
  shows "cl_reconnectCount c' = cl_reconnectCount c"
proof -
  have h: "cl_reconnectCount (snd (handshake w now write_ok reply c)) = cl_reconnectCount c"
    by (simp add: handshake_def Let_def split: option.split prod.split payload.split)
  have a: "cl_reconnectCount (apply_ack w ms a c1) = cl_reconnectCount c1" for a c1
    by (auto simp: apply_ack_def Let_def call_def split: option.split)
  obtain r c1 where H: "handshake w now write_ok reply c = (r, c1)" by fastforce
  with h have "cl_reconnectCount c1 = cl_reconnectCount c" by simp
  with assms H a show ?thesis by (cases r) (auto simp: connect_cases split: sum.splits if_splits)
qed

lemma reconnects_replay_loop: "replay_loop w Q ctx_done i js c = (e, c') \<Longrightarrow> cl_reconnectCount c' = cl_reconnectCount c"
proof -
  have "cl_reconnectCount (snd (replay_loop w Q ctx_done i js c)) = cl_reconnectCount c"
    by (induction w Q ctx_done i js c rule: replay_loop.induct) (auto split: option.split)
  then show "replay_loop w Q ctx_done i js c = (e, c') \<Longrightarrow> cl_reconnectCount c' = cl_reconnectCount c" by simp
qed

section \<open>The metrics of a run\<close>

text \<open>The checks before the metrics are set up.\<close>

definition has_creds :: "RunBackupMsg \<Rightarrow> bool" where
  "has_creds rq \<longleftrightarrow> (\<exists>creds. rb_UploadCreds rq = Some creds \<and> up_PresignedPutUrl creds \<noteq> [])"

definition is_metric :: "run_event \<Rightarrow> bool" where
  "is_metric ev \<longleftrightarrow> (case ev of EvMetric j b s \<Rightarrow> True | _ \<Rightarrow> False)"

lemma is_metric_simps [simp]:
  "is_metric (EvMetric j b s)" "\<not> is_metric EvValidate" "\<not> is_metric (EvPreHook c e t)" "\<not> is_metric EvDump"
  "\<not> is_metric (EvPut pr)" "\<not> is_metric (EvPostHook c e t)"
  by (simp_all add: is_metric_def)

lemma observe_no_metric: "\<forall>ev \<in> set evs. \<not> is_metric ev \<Longrightarrow> observe_events (evs @ rest) m = observe_events rest m"
  by (induction evs m rule: observe_events.induct) auto

lemma pre_hooks_no_metric: "run_pre_hooks sh os_env h i cs = (h', r, evs) \<Longrightarrow> \<forall>ev \<in> set evs. \<not> is_metric ev"
  by (induction sh os_env h i cs arbitrary: h' r evs rule: run_pre_hooks.induct)
     (auto split: if_splits prod.splits option.splits)

lemma post_hooks_no_metric: "\<forall>ev \<in> set (run_post_hooks sh os_env h i cs). \<not> is_metric ev"
  by (induction sh os_env h i cs rule: run_post_hooks.induct) (auto split: prod.split)

lemma pipeline_no_metric:
  assumes "run_pipeline pe d t encr http creds rq x = (res, evs, x1)"
  shows "\<forall>ev \<in> set evs. \<not> is_metric ev"
proof -
  have "\<forall>ev \<in> set evs1. \<not> is_metric ev" if "stage_upload pe http u encR = (e4, sha, n, evs1)" for u encR e4 sha n evs1
    using that by (auto simp: stage_upload_def split: prod.splits option.splits if_splits sum.splits)
  with assms show ?thesis
    by (fastforce simp: run_pipeline_def split: prod.splits option.splits)
qed

lemma hooked_no_metric:
  assumes "run_hooked pe d job t encr up creds rq x = (res, evs, x')"
  shows "\<forall>ev \<in> set evs. \<not> is_metric ev"
proof -
  define tmo where "tmo = (case job of None \<Rightarrow> None | Some j \<Rightarrow> if bj_TimeoutSec j > 0 then Some (bj_TimeoutSec j) else None)"
  obtain h f evs1 where H: "run_pre_hooks (pe_shell pe tmo) (pe_os_env pe) NewHookSet 0
      (case job of None \<Rightarrow> [] | Some j \<Rightarrow> bj_PreHooks j) = (h, f, evs1)" by (metis prod_cases3)
  obtain res' evs2 x2 where P: "run_pipeline pe d t encr (up tmo) creds rq x = (res', evs2, x2)" by (metis prod_cases3)
  from assms H P pre_hooks_no_metric [OF H] pipeline_no_metric [OF P] show ?thesis
    by (cases f) (auto simp: run_hooked_def tmo_def [symmetric] post_hooks_no_metric)
qed

lemma started_no_metric:
  assumes "run_started r pe up creds rq x = (res, evs, x')"
  shows "\<forall>ev \<in> set evs. \<not> is_metric ev"
proof -
  have "\<forall>ev \<in> set evs1. \<not> is_metric ev" if "run_hooked pe d job t encr up creds rq y = (res1, evs1, y')" for d job t encr y res1 evs1 y'
    using hooked_no_metric [OF that] .
  with assms show ?thesis
    by (fastforce simp: run_started_def split: sum.splits option.splits prod.splits)
qed

lemma Runner_Run_metrics:
  assumes "Runner_Run r pe x (Some rq) = (res, evs, x')" "rn_uploader r = Some up"
  shows "observe_events evs m =
      (if has_creds rq then observe_run (rb_JobId rq) (\<not> isl res) (case res of Inl e \<Rightarrow> None | Inr c \<Rightarrow> Some (bc_SizeBytes c)) m else m)"
    "\<not> has_creds rq \<Longrightarrow> isl res"
proof -
  have "observe_events evs m =
      (if has_creds rq then observe_run (rb_JobId rq) (\<not> isl res) (case res of Inl e \<Rightarrow> None | Inr c \<Rightarrow> Some (bc_SizeBytes c)) m else m)
    \<and> (has_creds rq \<or> isl res)"
  proof (cases "has_creds rq")
    case False
    with assms show ?thesis by (auto simp: Runner_Run_def has_creds_def split: option.splits if_splits)
  next
    case True
    then obtain creds where c: "rb_UploadCreds rq = Some creds" "up_PresignedPutUrl creds \<noteq> []" by (auto simp: has_creds_def)
    obtain res1 evs1 x1 where S: "run_started r pe up creds rq x = (res1, evs1, x1)" by (metis prod_cases3)
    from assms c S True show ?thesis
      by (cases res1) (auto simp: Runner_Run_def observe_no_metric [OF started_no_metric [OF S]])
  qed
  then show "observe_events evs m =
      (if has_creds rq then observe_run (rb_JobId rq) (\<not> isl res) (case res of Inl e \<Rightarrow> None | Inr c \<Rightarrow> Some (bc_SizeBytes c)) m else m)"
    "\<not> has_creds rq \<Longrightarrow> isl res" by blast+
qed

section \<open>The invariant\<close>

text \<open>At process start nothing was counted and no gauge set.\<close>

definition fresh_metrics :: Metrics where
  "fresh_metrics = \<lparr>mt_RunsTotal = (\<lambda>_. 0), mt_RunDuration = (\<lambda>_. 0), mt_RunSizeBytes = (\<lambda>_. []), mt_WSSState = Map.empty,
     mt_WSSReconnects = 0, mt_DispatchPending = 0, mt_BuildInfo = Map.empty\<rparr>"

definition outcome :: "task \<Rightarrow> bool option" where
  "outcome t =
     (case tk_phase t of
        RunDone res \<Rightarrow> Some (\<not> isl res)
      | Reported e \<Rightarrow> Some (case env_Payload e of Some (PBackupCompleted bc) \<Rightarrow> True | _ \<Rightarrow> False)
      | _ \<Rightarrow> None)"

definition counted :: "string \<Rightarrow> bool \<Rightarrow> task \<Rightarrow> bool" where
  "counted j b t \<longleftrightarrow> rb_JobId (tk_msg t) = j \<and> has_creds (tk_msg t) \<and> outcome t = Some b"

definition runs_counted :: "('x, 's) agent \<Rightarrow> bool" where
  "runs_counted a \<longleftrightarrow> (\<forall>j. mt_RunsTotal (ag_metrics a) (j, ''success'') = length (filter (counted j True) (ag_tasks a))
     \<and> mt_RunsTotal (ag_metrics a) (j, ''failure'') = length (filter (counted j False) (ag_tasks a))
     \<and> length (mt_RunSizeBytes (ag_metrics a) j) = length (filter (counted j True) (ag_tasks a)))"

definition gauge_is :: "string \<Rightarrow> Metrics \<Rightarrow> bool" where
  "gauge_is st m \<longleftrightarrow> (\<forall>s \<in> set wss_states. mt_WSSState m s = Some (if s = st then 1 else 0))"

definition link_shown :: "('x, 's) agent \<Rightarrow> bool" where
  "link_shown a \<longleftrightarrow> of_nat (mt_WSSReconnects (ag_metrics a)) = cl_reconnectCount (ag_client a)
     \<and> (if ag_link a = Down then gauge_is ''reconnecting'' (ag_metrics a) \<or> gauge_is ''disconnected'' (ag_metrics a)
        else gauge_is ''connected'' (ag_metrics a))"

lemma gauge_is_SetWSSState: "st \<in> set wss_states \<Longrightarrow> gauge_is st (SetWSSState st m)"
  by (simp add: gauge_is_def SetWSSState_simps)

lemma observe_other [simp]:
  "mt_WSSState (observe_events evs m) = mt_WSSState m" "mt_WSSReconnects (observe_events evs m) = mt_WSSReconnects m"
  by (induction evs m rule: observe_events.induct) (simp_all add: observe_run_def Let_def split: option.split)

lemma link_shown_init: "link_shown (agent_init w cfg vars fresh_metrics st x)"
proof -
  have "gauge_is ''disconnected'' (SetWSSState ''disconnected'' m)" for m
    by (rule gauge_is_SetWSSState) (simp add: wss_states_def)
  then show ?thesis
    by (simp add: link_shown_def agent_init_def NewClient_def SetBuildInfo_def fresh_metrics_def Let_def)
qed

lemma link_shown_lost: "link_shown a \<Longrightarrow> link_shown (link_lost a)"
proof -
  have "gauge_is ''reconnecting'' (SetWSSState ''reconnecting'' m)" for m
    by (rule gauge_is_SetWSSState) (simp add: wss_states_def)
  then show "link_shown a \<Longrightarrow> link_shown (link_lost a)"
    by (simp add: link_shown_def link_lost_def WSSReconnects_Inc_def disconnect_def)
qed

lemma link_shown_run:
  "link_shown (agent_settle_run osc up pe k sj st a) = link_shown a" "link_shown (agent_return_run k evs res a) = link_shown a"
  by (simp_all add: link_shown_def gauge_is_def)

lemma link_shown_step:
  assumes "agent_step w url_parse os' uploader err_text z sha a a'" "link_shown a"
  shows "link_shown a'"
  using assms(1)
proof (cases rule: agent_step.cases)
  case (ConnectFails dial_ok now write_ok reply ms e c)
  have "link_shown (a\<lparr>ag_client := c\<rparr>)"
    using assms(2) reconnects_connect [OF ConnectFails(4)] by (simp add: link_shown_def)
  then show ?thesis unfolding ConnectFails(1) by (rule link_shown_lost)
next
  case (Connects dial_ok now write_ok reply ms c a1)
  have "gauge_is ''connected'' (SetWSSState ''connected'' m)" for m
    by (rule gauge_is_SetWSSState) (simp add: wss_states_def)
  moreover obtain new where "a1 = a\<lparr>ag_client := c, ag_snap := foldl config_effect (ag_snap a) new, ag_tasks := ag_tasks a @ new_tasks (ag_conn a) new\<rparr>"
    using agent_deliver_effect [OF Connects(5) more_calls_connect [OF Connects(4)]] by blast
  ultimately show ?thesis
    using assms(2) reconnects_connect [OF Connects(4)] by (simp add: Connects(1) link_shown_def link_opened_def)
next
  case (Live ev c)
  have "more_calls (ag_client a) c" using more_calls_live_step [of "ag_client a" w ev] Live(2) by simp
  from agent_deliver_effect [OF Live(3) this] obtain new where
    "a' = a\<lparr>ag_client := c, ag_snap := foldl config_effect (ag_snap a) new, ag_tasks := ag_tasks a @ new_tasks (ag_conn a) new\<rparr>"
    by blast
  then show ?thesis using assms(2) reconnects_live_step [OF Live(2)] by (simp add: link_shown_def)
next
  case (Lost ev e c)
  have "link_shown (a\<lparr>ag_client := c\<rparr>)"
    using assms(2) reconnects_live_step [OF Lost(3)] by (simp add: link_shown_def)
  then show ?thesis unfolding Lost(1) by (rule link_shown_lost)
next
  case (ReplaysJob j js Q c)
  then show ?thesis using assms(2) reconnects_replay_loop [OF ReplaysJob(4)] by (simp add: link_shown_def)
next
  case Closed
  have "gauge_is ''disconnected'' (SetWSSState ''disconnected'' m)" for m
    by (rule gauge_is_SetWSSState) (simp add: wss_states_def)
  then show ?thesis using assms(2) by (simp add: Closed(1) link_shown_def link_closed_def disconnect_def)
next
  case (Settles k sj st pe)
  then show ?thesis using assms(2) by (simp add: link_shown_run)
next
  case (SettlesCancelled k sj st pe osc n)
  then show ?thesis using assms(2) by (simp add: link_shown_run)
next
  case (Returns k evs res)
  then show ?thesis using assms(2) by (simp add: link_shown_run)
next
  case (Reports k res now)
  then show ?thesis using assms(2) by (simp add: link_shown_def agent_report_def Let_def)
next
  case (Scans now d s)
  then show ?thesis using assms(2) by (simp add: link_shown_def agent_scan_def split: sum.split)
qed (use assms(2) in \<open>simp_all add: link_shown_def\<close>)

text \<open>A task that moves changes the counts by its own outcome.\<close>

lemma length_filter_update:
  assumes "k < length ts"
  shows "length (filter P (ts[k := t])) + (if P (ts ! k) then 1 else 0) = length (filter P ts) + (if P t then 1 else 0)"
proof -
  have "filter P ts = filter P (take k ts @ ts ! k # drop (Suc k) ts)" using id_take_nth_drop [OF assms] by metis
  then show ?thesis by (simp add: upd_conv_take_nth_drop [OF assms])
qed

lemma runs_counted_same:
  assumes "runs_counted a" "k < length (ag_tasks a)" "outcome (ag_tasks a ! k) = outcome ((ag_tasks a ! k)\<lparr>tk_phase := ph\<rparr>)"
    and "ag_tasks a' = (ag_tasks a)[k := (ag_tasks a ! k)\<lparr>tk_phase := ph\<rparr>]" "ag_metrics a' = ag_metrics a"
  shows "runs_counted a'"
proof -
  have "length (filter (counted j b) (ag_tasks a')) = length (filter (counted j b) (ag_tasks a))" for j b
    using length_filter_update [OF assms(2), of "counted j b" "(ag_tasks a ! k)\<lparr>tk_phase := ph\<rparr>"] assms(3,4)
    by (simp add: counted_def split: if_splits)
  with assms(1,5) show ?thesis by (simp add: runs_counted_def)
qed

text \<open>A run that is about to return has set up its metrics if it came with credentials.\<close>

definition metrics_due :: "task \<Rightarrow> bool" where
  "metrics_due t \<longleftrightarrow>
     (case tk_phase t of
        Returning evs res \<Rightarrow> \<forall>m. observe_events evs m =
          (if has_creds (tk_msg t)
           then observe_run (rb_JobId (tk_msg t)) (\<not> isl res) (case res of Inl e \<Rightarrow> None | Inr c \<Rightarrow> Some (bc_SizeBytes c)) m else m)
      | _ \<Rightarrow> True)"

lemma metrics_due_simps [simp]:
  "metrics_due (t\<lparr>tk_phase := Spawned\<rparr>)" "metrics_due (t\<lparr>tk_phase := JobRead sj\<rparr>)" "metrics_due (t\<lparr>tk_phase := Resolved sj st\<rparr>)"
  "metrics_due (t\<lparr>tk_phase := RunDone res\<rparr>)" "metrics_due (t\<lparr>tk_phase := Reported e\<rparr>)"
  by (simp_all add: metrics_due_def)

lemma metrics_due_init: "\<forall>t \<in> set (ag_tasks (agent_init w cfg vars m st x)). metrics_due t"
  by (simp add: agent_init_def)

lemma metrics_due_step:
  assumes "agent_step w url_parse os' uploader err_text z sha a a'" "\<forall>t \<in> set (ag_tasks a). metrics_due t"
  shows "\<forall>t \<in> set (ag_tasks a'). metrics_due t"
  using assms(1)
proof (cases rule: agent_step_kinds)
  case (Delivered new)
  have "metrics_due t" if "t \<in> set (new_tasks (ag_conn a) new)" for t
    using new_tasks_in [OF that] by (simp add: metrics_due_def)
  with Delivered(3) assms(2) show ?thesis by auto
next
  case (Settled k sj st pe osc up)
  obtain res evs x where R: "Runner_Run (agent_runner osc up sj st) pe (ag_sys a) (Some (tk_msg (ag_tasks a ! k))) = (res, evs, x)"
    "a' = (set_phase k (Returning evs res) a)\<lparr>ag_sys := x, ag_uploads := ag_uploads a @ uploads_of evs\<rparr>"
    by (metis Settled(5) agent_settle_run_parts)
  have "metrics_due ((ag_tasks a ! k)\<lparr>tk_phase := Returning evs res\<rparr>)"
    by (simp add: metrics_due_def Runner_Run_metrics(1) [OF R(1) uploader_agent_runner])
  from all_update [OF assms(2) this, of k] show ?thesis by (simp add: R(2))
next
  case (Returned k evs res)
  have "metrics_due ((ag_tasks a ! k)\<lparr>tk_phase := RunDone res\<rparr>)" by simp
  from all_update [OF assms(2) this, of k] show ?thesis by (simp add: Returned(3))
next
  case (Report k res now)
  have "metrics_due ((ag_tasks a ! k)\<lparr>tk_phase := Reported (report_envelope err_text now (tk_msg (ag_tasks a ! k)) res)\<rparr>)" by simp
  from all_update [OF assms(2) this, of k] show ?thesis by (simp add: Report(3) agent_report_parts)
next
  case (Job k)
  have "metrics_due ((ag_tasks a ! k)\<lparr>tk_phase := JobRead (ag_snap a)\<rparr>)" by simp
  from all_update [OF assms(2) this, of k] show ?thesis by (simp add: Job(3))
next
  case (Target k sj)
  have "metrics_due ((ag_tasks a ! k)\<lparr>tk_phase := Resolved sj (ag_snap a)\<rparr>)" by simp
  from all_update [OF assms(2) this, of k] show ?thesis by (simp add: Target(3))
qed

lemma runs_counted_return:
  assumes "runs_counted a" "k < length (ag_tasks a)" "tk_phase (ag_tasks a ! k) = Returning evs res" "metrics_due (ag_tasks a ! k)"
  shows "runs_counted (agent_return_run k evs res a)"
proof -
  let ?t = "ag_tasks a ! k" and ?a' = "agent_return_run k evs res a"
  have met: "observe_events evs m = (if has_creds (tk_msg ?t)
      then observe_run (rb_JobId (tk_msg ?t)) (\<not> isl res) (case res of Inl e \<Rightarrow> None | Inr c \<Rightarrow> Some (bc_SizeBytes c)) m else m)" for m
    using assms(3,4) by (simp add: metrics_due_def)
  have count: "length (filter (counted j b) (ag_tasks ?a')) =
      length (filter (counted j b) (ag_tasks a)) + (if rb_JobId (tk_msg ?t) = j \<and> has_creds (tk_msg ?t) \<and> (\<not> isl res) = b then 1 else 0)" for j b
    using length_filter_update [OF assms(2), of "counted j b" "?t\<lparr>tk_phase := RunDone res\<rparr>"] assms(3)
    by (simp add: counted_def outcome_def)
  show ?thesis
    using assms(1) unfolding runs_counted_def count agent_return_run_parts(2) met
    by (cases res) (auto simp: observe_run_def Let_def)
qed

lemma runs_counted_init: "runs_counted (agent_init w cfg vars fresh_metrics st x)"
  by (simp add: runs_counted_def agent_init_def SetBuildInfo_def fresh_metrics_def)

lemma runs_counted_step:
  assumes "agent_step w url_parse os' uploader err_text z sha a a'" "runs_counted a" "\<forall>t \<in> set (ag_tasks a). metrics_due t"
  shows "runs_counted a'"
  using assms(1)
proof (cases rule: agent_step_kinds)
  case (Delivered new)
  have "filter (counted j b) (new_tasks (ag_conn a) new) = []" for j b
    by (auto simp: filter_empty_conv counted_def outcome_def dest!: new_tasks_in)
  with Delivered assms(2) show ?thesis by (simp add: runs_counted_def)
next
  case (Settled k sj st pe osc up)
  obtain res evs x where R: "a' = (set_phase k (Returning evs res) a)\<lparr>ag_sys := x, ag_uploads := ag_uploads a @ uploads_of evs\<rparr>"
    by (metis Settled(5) agent_settle_run_parts)
  show ?thesis
    by (rule runs_counted_same [OF assms(2) Settled(1), of "Returning evs res"]) (simp_all add: outcome_def Settled(2) R)
next
  case (Returned k evs res)
  then show ?thesis using runs_counted_return assms(2,3) by (metis nth_mem)
next
  case (Report k res now)
  have same: "outcome (ag_tasks a ! k) = outcome ((ag_tasks a ! k)\<lparr>tk_phase := Reported (report_envelope err_text now (tk_msg (ag_tasks a ! k)) res)\<rparr>)"
    using Report(2) by (cases res) (simp_all add: outcome_def report_envelope_def buildJobFailed_def buildBackupCompleted_def)
  show ?thesis
    unfolding Report(3) by (rule runs_counted_same [OF assms(2) Report(1) same]) (simp_all add: agent_report_parts)
next
  case (Job k)
  show ?thesis
    unfolding Job(3) by (rule runs_counted_same [OF assms(2) Job(1)]) (simp_all add: outcome_def Job(2))
next
  case (Target k sj)
  show ?thesis
    unfolding Target(3) by (rule runs_counted_same [OF assms(2) Target(1)]) (simp_all add: outcome_def Target(2))
qed

text \<open>Both invariants, in every reachable state.\<close>

lemma metrics_reach:
  assumes "(agent_step w url_parse os' uploader err_text z sha)\<^sup>*\<^sup>* (agent_init w cfg vars fresh_metrics st x) a"
  shows "link_shown a \<and> runs_counted a"
proof -
  have "(\<forall>t \<in> set (ag_tasks a). metrics_due t) \<and> link_shown a \<and> runs_counted a"
  proof (rule agent_reach_induct [OF assms, where I = "\<lambda>a. (\<forall>t \<in> set (ag_tasks a). metrics_due t) \<and> link_shown a \<and> runs_counted a"])
    show "(\<forall>t \<in> set (ag_tasks (agent_init w cfg vars fresh_metrics st x)). metrics_due t)
      \<and> link_shown (agent_init w cfg vars fresh_metrics st x) \<and> runs_counted (agent_init w cfg vars fresh_metrics st x)"
      by (intro conjI metrics_due_init link_shown_init runs_counted_init)
  qed (metis metrics_due_step link_shown_step runs_counted_step)
  then show ?thesis by simp
qed

end
