(* ===== verification/Metrics_Server.thy ===== *)
theory Metrics_Server
  imports Telemetry
begin

text \<open>
  \<open>metrics/server.go\<close>: the metrics endpoint. \<open>ListenAndServe\<close> starts a goroutine that serves and waits for
  its result or for the end of the context. The HTTP server is standard library: \<open>Serve\<close> returns
  an error of its own at any time, or \<open>ErrServerClosed\<close> after \<open>Shutdown\<close>.
\<close>

definition DefaultAddr :: string where "DefaultAddr = ''127.0.0.1:9090''"

text \<open>The server it configures: address, routes, and the time for the header of a request.\<close>

record http_server =
  srv_Addr :: string
  srv_Routes :: "string list"
  srv_ReadHeaderTimeout :: int

definition metrics_http_server :: "string \<Rightarrow> http_server" where
  "metrics_http_server addr =
     \<lparr>srv_Addr = (if addr = [] then DefaultAddr else addr), srv_Routes = [''/metrics''],
      srv_ReadHeaderTimeout = 5 * 1000000000\<rparr>"

text \<open>The goroutine of \<open>Serve\<close>, and \<open>ListenAndServe\<close> itself at its \<open>select\<close>, at the receive after it, or returned.\<close>

datatype 'e serving = Serving | ServeReturned "'e option" | ServeGone

datatype 'e waiting = Selecting | Draining | Returned "'e option"

record 'e metrics_endpoint =
  en_serving :: "'e serving"
  en_waiting :: "'e waiting"
  en_errCh :: "'e option list"
  en_ctx_done :: bool
  en_shutdown :: bool

datatype 'e listen_result = ListenFailed string 'e | Listening "'e metrics_endpoint"

text \<open>\<open>net.Listen\<close> is an argument: the error for an address, if any.\<close>

definition ListenAndServe :: "(string \<Rightarrow> 'e option) \<Rightarrow> string \<Rightarrow> 'e listen_result" where
  "ListenAndServe listen addr =
     (let srv = metrics_http_server addr
      in case listen (srv_Addr srv) of
          Some e \<Rightarrow> ListenFailed (srv_Addr srv) e
        | None \<Rightarrow> Listening \<lparr>en_serving = Serving, en_waiting = Selecting, en_errCh = [], en_ctx_done = False, en_shutdown = False\<rparr>)"

inductive endpoint_step :: "'e metrics_endpoint \<Rightarrow> 'e metrics_endpoint \<Rightarrow> bool" where
  Cancelled: "\<not> en_ctx_done s \<Longrightarrow> endpoint_step s (s\<lparr>en_ctx_done := True\<rparr>)"
| ServeFails: "en_serving s = Serving \<Longrightarrow> \<not> en_shutdown s \<Longrightarrow> endpoint_step s (s\<lparr>en_serving := ServeReturned (Some e)\<rparr>)"
| ServeCloses: "en_serving s = Serving \<Longrightarrow> en_shutdown s \<Longrightarrow> endpoint_step s (s\<lparr>en_serving := ServeReturned None\<rparr>)"
| ServeReports: "en_serving s = ServeReturned r \<Longrightarrow> endpoint_step s (s\<lparr>en_serving := ServeGone, en_errCh := en_errCh s @ [r]\<rparr>)"
| SelectsDone: "en_waiting s = Selecting \<Longrightarrow> en_ctx_done s \<Longrightarrow> endpoint_step s (s\<lparr>en_waiting := Draining, en_shutdown := True\<rparr>)"
| SelectsErr: "en_waiting s = Selecting \<Longrightarrow> en_errCh s = r # rs \<Longrightarrow> endpoint_step s (s\<lparr>en_waiting := Returned r, en_errCh := rs\<rparr>)"
| Drains: "en_waiting s = Draining \<Longrightarrow> en_errCh s = r # rs \<Longrightarrow> endpoint_step s (s\<lparr>en_waiting := Returned None, en_errCh := rs\<rparr>)"

text \<open>The one result is on its way from \<open>Serve\<close> through the channel to its receiver.\<close>

definition endpoint_inv :: "'e metrics_endpoint \<Rightarrow> bool" where
  "endpoint_inv s \<longleftrightarrow>
     (en_serving s = ServeGone \<longrightarrow> (if \<exists>r. en_waiting s = Returned r then en_errCh s = [] else length (en_errCh s) = 1))
     \<and> (en_serving s \<noteq> ServeGone \<longrightarrow> en_errCh s = [] \<and> (\<forall>r. en_waiting s \<noteq> Returned r))
     \<and> (en_shutdown s \<longrightarrow> en_ctx_done s) \<and> (en_waiting s = Selecting \<longrightarrow> \<not> en_shutdown s) \<and> (en_waiting s = Draining \<longrightarrow> en_shutdown s)"

lemma endpoint_inv_step: "endpoint_step s s' \<Longrightarrow> endpoint_inv s \<Longrightarrow> endpoint_inv s'"
  by (cases rule: endpoint_step.cases, assumption) (auto simp: endpoint_inv_def split: if_splits)

lemma endpoint_inv_reach:
  assumes "ListenAndServe listen addr = Listening s0" "endpoint_step\<^sup>*\<^sup>* s0 s"
  shows "endpoint_inv s"
  using assms(2)
proof (induction rule: rtranclp_induct)
  case base
  from assms(1) show ?case by (auto simp: ListenAndServe_def endpoint_inv_def Let_def split: option.splits)
qed (rule endpoint_inv_step)

text \<open>When \<open>ListenAndServe\<close> has returned its goroutine is gone: nothing serves any more.\<close>

lemma endpoint_returned_clean:
  assumes "ListenAndServe listen addr = Listening s0" "endpoint_step\<^sup>*\<^sup>* s0 s" "en_waiting s = Returned r"
  shows "en_serving s = ServeGone"
  using endpoint_inv_reach [OF assms(1,2)] assms(3) by (auto simp: endpoint_inv_def)

text \<open>Once the context is done it is never stuck before it has returned, and needs at most four more steps.\<close>

definition endpoint_left :: "'e metrics_endpoint \<Rightarrow> nat" where
  "endpoint_left s = (case en_serving s of Serving \<Rightarrow> 2 | ServeReturned r \<Rightarrow> 1 | ServeGone \<Rightarrow> 0)
     + (case en_waiting s of Selecting \<Rightarrow> 2 | Draining \<Rightarrow> 1 | Returned r \<Rightarrow> 0) + (if en_ctx_done s then 0 else 1)"

lemma endpoint_left_falls: "endpoint_step s s' \<Longrightarrow> endpoint_left s' < endpoint_left s"
  by (cases rule: endpoint_step.cases, assumption) (auto simp: endpoint_left_def)

lemma endpoint_not_stuck:
  assumes "ListenAndServe listen addr = Listening s0" "endpoint_step\<^sup>*\<^sup>* s0 s" "en_ctx_done s"
  shows "(\<exists>s'. endpoint_step s s') \<or> (\<exists>r. en_waiting s = Returned r)"
proof (cases "en_waiting s")
  case Selecting
  from SelectsDone [OF this assms(3)] show ?thesis by blast
next
  case Draining
  with endpoint_inv_reach [OF assms(1,2)] have sh: "en_shutdown s" by (simp add: endpoint_inv_def)
  show ?thesis
  proof (cases "en_serving s")
    case Serving
    from ServeCloses [OF this sh] show ?thesis by blast
  next
    case (ServeReturned r)
    from ServeReports [OF this] show ?thesis by blast
  next
    case ServeGone
    with endpoint_inv_reach [OF assms(1,2)] Draining obtain r where "en_errCh s = [r]"
      by (auto simp: endpoint_inv_def length_Suc_conv)
    with Drains [OF Draining] show ?thesis by blast
  qed
qed simp

end
