(* ===== verification/Commands.thy ===== *)
theory Commands
  imports Agent_System Metrics_Server
begin

text \<open>
  \<open>cmd/agent\<close>: the sub-commands \<open>run\<close>, \<open>version\<close>, \<open>health-check\<close> and \<open>dump-state\<close> and the root command
  that dispatches to them.
\<close>

section \<open>The commands\<close>

text \<open>What the commands find on the host they start on.\<close>

record 'b host =
  ho_env :: "Config option"
  ho_url :: "string \<Rightarrow> url option"
  ho_fs :: probe_fs
  ho_hkdf :: hkdf
  ho_bolt_open :: "string \<Rightarrow> int \<Rightarrow> 'b db option"
  ho_rand :: rng
  ho_disk :: "nat \<Rightarrow> bool"

datatype cmd_failure = ConfigFailed config_err | StateFailed store_err | UnknownCommand string

definition load_and_open :: "'b bolt \<Rightarrow> 'b host \<Rightarrow> cmd_failure + (Config \<times> 'b Store)" where
  "load_and_open B ho =
     (case Config_Load (ho_env ho) (ho_url ho) (ho_fs ho) of
        Inl e \<Rightarrow> Inl (ConfigFailed e)
      | Inr cfg \<Rightarrow>
          (case Store_Open B (ho_hkdf ho) (ho_bolt_open ho) (ho_rand ho) (ho_disk ho) (StateDBPath cfg) 0 (cf_AgentKey cfg) of
             Inl e \<Rightarrow> Inl (StateFailed e)
           | Inr s \<Rightarrow> Inr (cfg, s)))"

text \<open>\<open>runAgent\<close> up to \<open>client.Start\<close>; the steps it takes from there are those of \<open>agent_step\<close>.\<close>

definition runAgent ::
  "'b bolt \<Rightarrow> 'b host \<Rightarrow> 'b Store World \<Rightarrow> Info \<Rightarrow> Metrics \<Rightarrow> 'x \<Rightarrow> cmd_failure + ('x, 'b Store) agent" where
  "runAgent B ho w vars m x =
     (case load_and_open B ho of
        Inl e \<Rightarrow> Inl e
      | Inr (cfg, s) \<Rightarrow>
          Inr (agent_init w cfg vars m s x))"

text \<open>The metrics endpoint \<open>runAgent\<close> starts, unless it is switched off.\<close>

definition agent_endpoint :: "(string \<Rightarrow> 'e option) \<Rightarrow> Config \<Rightarrow> 'e listen_result option" where
  "agent_endpoint listen cfg =
     (if cf_MetricsListenAddr cfg \<noteq> [] then Some (ListenAndServe listen (cf_MetricsListenAddr cfg)) else None)"

text \<open>\<open>agent health-check\<close>: the exit code.\<close>

definition health_check :: "'b bolt \<Rightarrow> 'b host \<Rightarrow> int" where
  "health_check B ho =
     (case load_and_open B ho of
        Inl e \<Rightarrow> 1
      | Inr (cfg, s) \<Rightarrow> (case Store_Close (Some s) of _ \<Rightarrow> 0))"

record stateDump =
  sd_Path :: string
  sd_SessionID :: string
  sd_ConfigVersion :: uint64
  sd_ConfigBytes :: string
  sd_QueueDepth :: int
  sd_Queue :: "(string \<times> string) list"
  sd_LastHeartbeat :: int64
  sd_Note :: string

definition dump_store :: "'b bolt \<Rightarrow> bool \<Rightarrow> string \<Rightarrow> 'b Store \<Rightarrow> stateDump" where
  "dump_store B allowSecrets path s =
     (let d0 = \<lparr>sd_Path = path, sd_SessionID = [], sd_ConfigVersion = 0, sd_ConfigBytes = [], sd_QueueDepth = 0,
                sd_Queue = [], sd_LastHeartbeat = 0, sd_Note = []\<rparr>;
          d1 = (case LoadConfig B s of
                  Inl e \<Rightarrow> d0
                | Inr (v, raw) \<Rightarrow>
                    if allowSecrets then d0\<lparr>sd_ConfigVersion := v, sd_ConfigBytes := HexEncode raw\<rparr>
                    else d0\<lparr>sd_ConfigVersion := v,
                            sd_Note := ''config bytes omitted; re-run with --allow-secrets to include''\<rparr>);
          d2 = (case LoadSession B s of Inl e \<Rightarrow> d1 | Inr sid \<Rightarrow> d1\<lparr>sd_SessionID := sid\<rparr>);
          d3 = (case LastHeartbeat B s of Inl e \<Rightarrow> d2 | Inr hb \<Rightarrow> d2\<lparr>sd_LastHeartbeat := hb\<rparr>);
          d4 = (case QueueDepth B s of Inl e \<Rightarrow> d3 | Inr n \<Rightarrow> d3\<lparr>sd_QueueDepth := n\<rparr>)
      in if allowSecrets then
           (case DequeueJobs B s 100 of
              Inl e \<Rightarrow> d4
            | Inr jobs \<Rightarrow> d4\<lparr>sd_Queue := map (\<lambda>(r, p). (r, HexEncode p)) jobs\<rparr>)
         else d4)"

definition dump_state :: "'b bolt \<Rightarrow> 'b host \<Rightarrow> bool \<Rightarrow> cmd_failure + stateDump" where
  "dump_state B ho allowSecrets =
     (case load_and_open B ho of
        Inl e \<Rightarrow> Inl e
      | Inr (cfg, s) \<Rightarrow> Inr (dump_store B allowSecrets (StateDBPath cfg) s))"

text \<open>The root command without a sub-command; \<open>run_cmd\<close> is \<open>newRunCmd().RunE\<close>.\<close>

definition root_RunE :: "string list \<Rightarrow> (unit \<Rightarrow> cmd_failure + 'r) \<Rightarrow> cmd_failure + 'r" where
  "root_RunE args run_cmd = (case args of arg # _ \<Rightarrow> Inl (UnknownCommand arg) | [] \<Rightarrow> run_cmd ())"

text \<open>
  The command tree. Cobra runs the sub-command named by the first argument, and the root command
  where there is none.
\<close>

datatype agent_command = RunCmd | VersionCmd | HealthCheckCmd | DumpStateCmd

definition newRootCmd :: "(string \<times> agent_command) list" where
  "newRootCmd = [(''run'', RunCmd), (''version'', VersionCmd), (''health-check'', HealthCheckCmd), (''dump-state'', DumpStateCmd)]"

definition root_execute :: "string list \<Rightarrow> cmd_failure + agent_command" where
  "root_execute args =
     (case args of
        [] \<Rightarrow> root_RunE [] (\<lambda>_. Inr RunCmd)
      | arg # _ \<Rightarrow> (case map_of newRootCmd arg of Some c \<Rightarrow> Inr c | None \<Rightarrow> root_RunE args (\<lambda>_. Inr RunCmd)))"

definition main_exit :: "cmd_failure + 'r \<Rightarrow> int" where
  "main_exit r = (case r of Inl e \<Rightarrow> 1 | Inr _ \<Rightarrow> 0)"

text \<open>Without arguments the agent runs; anything but the four commands ends with exit code 1.\<close>

lemma root_execute_cases:
  "root_execute [] = Inr RunCmd"
  "arg \<notin> {''run'', ''version'', ''health-check'', ''dump-state''} \<Longrightarrow> main_exit (root_execute (arg # args)) = 1"
  by (auto simp: root_execute_def root_RunE_def newRootCmd_def main_exit_def)

end
