(* ===== verification/Agent_Example.thy ===== *)
theory Agent_Example
  imports Agent_Metrics Commands
begin

text \<open>
  A concrete agent for the witnesses: its frames are scripted by a map from the bytes of a frame to
  the payload they decode to, its programs answer everything with a PostgreSQL archive, its object
  store confirms what it has read, its state file is a reference store.
\<close>

section \<open>The parts\<close>

definition script_codec :: "(bytes \<rightharpoonup> payload) \<Rightarrow> codec" where
  "script_codec f = \<lparr>marshal_env = (\<lambda>_. Some []), unmarshal_env = (\<lambda>b. map_option (\<lambda>p. (NewEnvelope 1)\<lparr>env_Payload := Some p\<rparr>) (f b)),
     marshal_cfg = (\<lambda>_. None), unmarshal_cfg = (\<lambda>_. None)\<rparr>"

definition script_world :: "(bytes \<rightharpoonup> payload) \<Rightarrow> ref_bucket Store World" where
  "script_world f = agent_world (script_codec f) ref_bolt None [] []"

definition hello :: RegisterAck where
  "hello = \<lparr>ra_SessionId = [], ra_Config = None, ra_HeartbeatIntervalSec = 30, ra_ServerTimeIso = []\<rparr>"

definition idle_os :: "unit os" where
  "idle_os = \<lparr>os_exec = (\<lambda>_ _ _ x. (\<lparr>ex_stdout = [], ex_stderr = [], ex_status = ExecOk\<rparr>, x)), os_environ = [],
     os_now = (\<lambda>_. 0), os_sleep = (\<lambda>_ x. x), os_cancelled = (\<lambda>_. False), os_stat = (\<lambda>_ _. True), os_open = (\<lambda>_ _. None),
     os_create_temp = (\<lambda>x. (None, x)), os_remove = (\<lambda>_ x. x), os_gzip = id, os_tar_header = (\<lambda>_ _ _. None)\<rparr>"

definition plain_zstd :: zstd where
  "plain_zstd = \<lparr>zs_new_ok = True, zs_encode = id\<rparr>"

definition refusing :: "uint32 option \<Rightarrow> http_put" where
  "refusing _ _ = PutBuildFailed"

definition example_config :: Config where
  "example_config = \<lparr>cf_ServerURL = ''https://api'', cf_AgentKey = replicate 64 (CHR ''a''), cf_StateDir = ''/d'', cf_LogLevel = ''info'',
     cf_DockerSocket = [], cf_DevAllowInsecure = False, cf_MetricsListenAddr = []\<rparr>"

definition example_host :: "ref_bucket host" where
  "example_host = \<lparr>ho_env = Some example_config, ho_url = (\<lambda>_. Some \<lparr>u_Scheme = ''https'', u_Host = ''api'', u_Path = [], u_rest = []\<rparr>),
     ho_fs = \<lparr>MkdirAll = \<lambda>_. True, CreateTemp = \<lambda>_. True\<rparr>, ho_hkdf = (\<lambda>_ _ _ n. Some (replicate n 0)),
     ho_bolt_open = (\<lambda>_ _. Some Map.empty), ho_rand = (\<lambda>i. Some (of_nat i)), ho_disk = (\<lambda>_. True)\<rparr>"

definition dump_os :: "unit os" where
  "dump_os = idle_os\<lparr>os_exec := (\<lambda>_ _ _ x. (\<lparr>ex_stdout = bytes_of_string ''PGDMP pg_dump'', ex_stderr = [], ex_status = ExecOk\<rparr>, x))\<rparr>"

definition confirming :: "uint32 option \<Rightarrow> http_put" where
  "confirming tmo pr = PutResponse 200 (length (pr_body pr))"

definition dump_config :: AgentConfig where
  "dump_config = \<lparr>ac_Version = 3, ac_Targets = [example_pg_target], ac_Jobs = [example_job [] []], ac_HealthChecks = [],
     ac_Maintenance = None, ac_Advanced = None\<rparr>"

text \<open>The script: acknowledgement, configuration, request, an empty configuration.\<close>

abbreviation dump_request :: RunBackupMsg where
  "dump_request \<equiv> example_request (replicate 32 0)"

definition no_jobs :: AgentConfig where
  "no_jobs = \<lparr>ac_Version = 4, ac_Targets = [], ac_Jobs = [], ac_HealthChecks = [], ac_Maintenance = None, ac_Advanced = None\<rparr>"

definition dump_script :: "bytes \<rightharpoonup> payload" where
  "dump_script = [[0] \<mapsto> PRegisterAck (Some hello), [1] \<mapsto> PConfigUpdate (Some \<lparr>cu_Config = Some dump_config\<rparr>),
     [2] \<mapsto> PRunBackup (Some dump_request), [3] \<mapsto> PConfigUpdate (Some \<lparr>cu_Config = Some no_jobs\<rparr>)]"

text \<open>Its steps, with everything fixed but the programs and the object store.\<close>

abbreviation example_step ::
  "(bytes \<rightharpoonup> payload) \<Rightarrow> unit os \<Rightarrow> (uint32 option \<Rightarrow> http_put)
     \<Rightarrow> (unit, ref_bucket Store) agent \<Rightarrow> (unit, ref_bucket Store) agent \<Rightarrow> bool" where
  "example_step f os' up \<equiv> agent_step (script_world f) (ho_url example_host) os' up (\<lambda>_. []) plain_zstd (take 32)"

abbreviation example_agent :: "(bytes \<rightharpoonup> payload) \<Rightarrow> ref_bucket Store \<Rightarrow> (unit, ref_bucket Store) agent" where
  "example_agent f st \<equiv> agent_init (script_world f) example_config unstamped fresh_metrics st ()"

lemma script_world_simps [simp]:
  "w_codec (script_world f) = script_codec f" "w_queue (script_world f) = Some (boltQueue ref_bolt)"
  "w_state (script_world f) = Some (store_ops ref_bolt)" "w_handlers (script_world f) = Some agent_handlers"
  by (simp_all add: script_world_def agent_world_def)

section \<open>Getting connected\<close>

lemma pop_other:
  assumes "changes_bucket bktRegistry s R (r, s')"
  shows "boltQueue_Pop B s' n = boltQueue_Pop B s n"
proof -
  have "st_db s' bktQueue = st_db s bktQueue" by (rule changes_other_bucket [OF assms]) (simp add: bktRegistry_def bktQueue_def)
  moreover have "st_open s' = st_open s" "st_aead s' = st_aead s" using assms by (simp_all add: changes_bucket_def)
  ultimately show ?thesis by (simp add: boltQueue_Pop_def DequeueJobs_def db_view_def in_bucket_def cong: option.case_cong)
qed

lemma example_popped:
  assumes "queue_inv ref_bolt ref_ok st" "pending_jobs ref_bolt st = []" "cl_disk c = snd (SaveSession ref_bolt st i ms)"
  shows "popped (script_world f) c = []"
proof -
  have ok: "buckets_ok ref_ok (st_db st)" "aead_laws (st_aead st)" using assms(1) by (simp_all add: queue_inv_def store_ok_def)
  obtain r s' where S: "SaveSession ref_bolt st i ms = (r, s')" by fastforce
  from pop_other [OF ref_bolt.SaveSession_changes [OF ok, of i ms, unfolded S]] ref_bolt.queue_pop [OF assms(1), of 100]
  show ?thesis using assms(2,3) S by (simp add: popped_def boltQueue_def)
qed

text \<open>An agent in the loops of its first connection, with nothing received yet.\<close>

definition linked :: "(unit, ref_bucket Store) agent \<Rightarrow> bool" where
  "linked a \<longleftrightarrow> ag_link a = Up \<and> \<not> ag_stopping a \<and> cl_out (ag_client a) = Some []"

lemma example_connects:
  assumes "f [0] = Some (PRegisterAck (Some hello))" "queue_inv ref_bolt ref_ok st" "pending_jobs ref_bolt st = []"
  shows "\<exists>a. (example_step f os' up)\<^sup>*\<^sup>* (example_agent f st) a \<and> linked a \<and> ag_tasks a = [] \<and> ag_sent a = [] \<and> ag_uploads a = []
    \<and> cl_calls (ag_client a) = [] \<and> ag_snap a = newConfigSnapshot"
proof -
  let ?a0 = "example_agent f st" and ?w = "script_world f"
  obtain c where c: "connect ?w (ho_url example_host) True 1 True (Some (True, [0])) 5 (ag_client ?a0) = (None, c)"
    "cl_calls c = []" "cl_out c = Some []" "cl_disk c = snd (SaveSession ref_bolt st [] 5)"
    using assms(1)
    by (simp add: connect_cases buildWSURL_def handshake_def register_env_def agent_init_def NewClient_def agent_wss_config_def example_config_def
        example_host_def script_codec_def apply_ack_def hello_def store_ops_def Let_def split: if_splits)
  have del: "agent_deliver c ?a0 = Some (?a0\<lparr>ag_client := c\<rparr>)" by (simp add: agent_deliver_def c(2))
  have init: "ag_link ?a0 = Down" "\<not> ag_stopping ?a0" by (simp_all add: agent_init_def)
  define a1 where "a1 = link_opened (?a0\<lparr>ag_client := c\<rparr>)"
  have s1: "example_step f os' up ?a0 a1" unfolding a1_def by (rule agent_step.Connects [OF init c(1) del])
  define a2 where "a2 = a1\<lparr>ag_link := Replaying (popped ?w (ag_client a1))\<rparr>"
  have s2: "example_step f os' up a1 a2" unfolding a2_def by (rule agent_step.ReplayStarts) (simp add: a1_def link_opened_def)
  have "popped ?w (ag_client a1) = []" using example_popped [OF assms(2,3)] c(4) by (simp add: a1_def)
  then have s3: "example_step f os' up a2 (a2\<lparr>ag_link := Up\<rparr>)" by (intro agent_step.ReplayEnds) (simp add: a2_def)
  from s1 s2 s3 have "(example_step f os' up)\<^sup>*\<^sup>* ?a0 (a2\<lparr>ag_link := Up\<rparr>)" by (meson converse_rtranclp_into_rtranclp r_into_rtranclp)
  then show ?thesis
    using c(2,3) by (intro exI [of _ "a2\<lparr>ag_link := Up\<rparr>"]) (simp add: linked_def a2_def a1_def link_opened_def agent_init_def)
qed

section \<open>Receiving\<close>

lemma example_receives:
  assumes "linked a" "f d = Some p"
    and "p = PRunBackup (Some m) \<and> cb = CbRunBackup (Some m) \<or> p = PConfigUpdate (Some k) \<and> cb = CbConfigUpdate (Some k)"
  shows "\<exists>a'. example_step f os' up a a' \<and> linked a' \<and> cl_calls (ag_client a') = cl_calls (ag_client a) @ [cb]
    \<and> ag_tasks a' = ag_tasks a @ new_tasks (ag_conn a) [cb] \<and> ag_snap a' = config_effect (ag_snap a) cb
    \<and> ag_conn a' = ag_conn a \<and> ag_sent a' = ag_sent a \<and> ag_uploads a' = ag_uploads a"
proof -
  let ?w = "script_world f" and ?c = "ag_client a"
  obtain c where c: "snd (dispatch ?w 1 ((NewEnvelope 1)\<lparr>env_Payload := Some p\<rparr>) ?c) = c" "cl_calls c = cl_calls ?c @ [cb]"
    "cl_out c = cl_out ?c"
    using assms(3) by (auto simp: script_codec_def dispatch_def agent_handlers_def cb_err_def call_def Let_def split: option.split)
  have live: "live_step ?w (EvFrame 1 (Some (True, d))) ?c = (None, c)"
    using c(1) assms(2) by (simp add: read_step_def script_codec_def)
  have "\<exists>a'. agent_callbacks [cb] (a\<lparr>ag_client := c\<rparr>) = Some a'"
    using assms(3) by (auto simp: agent_callback_def bind_eq_Some_conv split: option.split)
  then obtain a' where d: "agent_callbacks [cb] (a\<lparr>ag_client := c\<rparr>) = Some a'" by blast
  have a': "a' = a\<lparr>ag_client := c, ag_snap := config_effect (ag_snap a) cb, ag_tasks := ag_tasks a @ new_tasks (ag_conn a) [cb]\<rparr>"
    using agent_callbacks_effect [OF d] by simp
  have "agent_deliver c a = Some a'" using d c(2) by (simp add: agent_deliver_def)
  moreover have "ag_link a = Up" using assms(1) by (simp add: linked_def)
  ultimately have "example_step f os' up a a'" using live by (blast intro: agent_step.Live)
  then show ?thesis using assms(1) c(2,3) by (intro exI [of _ a']) (simp add: a' linked_def)
qed

text \<open>Connected, with the configuration and one request received.\<close>

lemma dump_requested:
  "\<exists>a. (example_step dump_script os' up)\<^sup>*\<^sup>* (example_agent dump_script example_store) a \<and> linked a
    \<and> ag_tasks a = new_tasks (ag_conn a) [CbRunBackup (Some dump_request)] \<and> ag_snap a = configSnapshot_Set newConfigSnapshot dump_config
    \<and> cl_calls (ag_client a) = [CbConfigUpdate (Some \<lparr>cu_Config = Some dump_config\<rparr>), CbRunBackup (Some dump_request)]
    \<and> ag_sent a = [] \<and> ag_uploads a = []"
proof -
  have empty: "pending_jobs ref_bolt example_store = []" by (simp add: pending_jobs_def) (simp add: ref_bolt_def)
  obtain a0 where a0: "(example_step dump_script os' up)\<^sup>*\<^sup>* (example_agent dump_script example_store) a0" "linked a0" "ag_tasks a0 = []"
    "ag_sent a0 = []" "ag_uploads a0 = []" "cl_calls (ag_client a0) = []" "ag_snap a0 = newConfigSnapshot"
    using example_connects [of dump_script example_store os' up] empty by (auto simp: dump_script_def)
  have script: "dump_script [1] = Some (PConfigUpdate (Some \<lparr>cu_Config = Some dump_config\<rparr>))" "dump_script [2] = Some (PRunBackup (Some dump_request))"
    by (simp_all add: dump_script_def)
  obtain a1 where a1: "example_step dump_script os' up a0 a1" "linked a1" "ag_tasks a1 = []" "ag_sent a1 = []" "ag_uploads a1 = []"
    "cl_calls (ag_client a1) = [CbConfigUpdate (Some \<lparr>cu_Config = Some dump_config\<rparr>)]"
    "ag_snap a1 = config_effect newConfigSnapshot (CbConfigUpdate (Some \<lparr>cu_Config = Some dump_config\<rparr>))"
    using example_receives [where f = dump_script and d = "[1]" and cb = "CbConfigUpdate (Some \<lparr>cu_Config = Some dump_config\<rparr>)"
        and os' = os' and up = up, OF a0(2) script(1)]
      a0(3-7) by (auto simp: new_tasks_def)
  obtain a2 where a2: "example_step dump_script os' up a1 a2" "linked a2" "ag_tasks a2 = new_tasks (ag_conn a2) [CbRunBackup (Some dump_request)]"
    "ag_sent a2 = []" "ag_uploads a2 = []" "cl_calls (ag_client a2) = cl_calls (ag_client a1) @ [CbRunBackup (Some dump_request)]"
    "ag_snap a2 = config_effect (ag_snap a1) (CbRunBackup (Some dump_request))"
    using example_receives [where f = dump_script and d = "[2]" and cb = "CbRunBackup (Some dump_request)" and os' = os' and up = up,
        OF a1(2) script(2)] a1(3-6) by auto
  from a0(1) a1(1) a2(1) have "(example_step dump_script os' up)\<^sup>*\<^sup>* (example_agent dump_script example_store) a2" by (meson rtranclp.rtrancl_into_rtrancl)
  with a1 a2 show ?thesis by (intro exI [of _ a2]) (simp add: config_effect_def)
qed

section \<open>Running and reporting\<close>

lemma dump_snapshot:
  "resolve (agent_runner dump_os confirming (configSnapshot_Set s dump_config) (configSnapshot_Set s' dump_config)) (example_request dk) =
     Inr (Some (example_job [] []), example_pg_target)"
  by (simp add: resolve_def agent_runner_def NewRunner_def WithTargetLookup_def WithJobLookup_def configSnapshot_Job_def
      configSnapshot_Target_def configSnapshot_Set_def dump_config_def example_job_def example_request_def example_pg_target_def)

text \<open>The driver on this system: it validates, dumps the archive, and the archive passes the smoke test.\<close>

lemma dump_driver_works:
  obtains info where "drv_Validate (NewPgDump dump_os) () (Some example_pg_target) = (None, ())"
    "drv_Dump (NewPgDump dump_os) () (Some example_pg_target) (pipe_writer None) =
      (Inr info, wr_append (pipe_writer None) (bytes_of_string ''PGDMP pg_dump''), ())"
    "smokeValidatedReader (reader_of (wr_data (wr_append (pipe_writer None) (bytes_of_string ''PGDMP pg_dump''))))
      (drv_Name (NewPgDump dump_os)) = None"
    "agent_drivers dump_os (dbTypeKey (tg_Type example_pg_target)) = Some (NewPgDump dump_os)"
proof -
  have conn: "target_conn (Some example_pg_target) = tg_Connection example_pg_target" "\<exists>c. tg_Connection example_pg_target = Some c"
    by (simp_all add: target_conn_def example_pg_target_def)
  then obtain c where c: "target_conn (Some example_pg_target) = Some c" by auto
  have out: "Output (realRunner dump_os) y n as e = (Inr (bytes_of_string ''PGDMP pg_dump''), y)"
    and stream: "RunStream (realRunner dump_os) y n as e (pipe_writer None)
      = (None, wr_append (pipe_writer None) (bytes_of_string ''PGDMP pg_dump''), y)" for y n as e
    by (simp_all add: realRunner_def realRunner_Output_def realRunner_RunStream_def run_copying_def dump_os_def)
  have "Contains (ToLower (string_of_bytes (bytes_of_string ''PGDMP pg_dump''))) ''pg_dump''" by code_simp
  with c out have v: "drv_Validate (NewPgDump dump_os) () (Some example_pg_target) = (None, ())"
    by (simp add: NewPgDump_def pgDump_Validate_def)
  obtain info where d: "drv_Dump (NewPgDump dump_os) () (Some example_pg_target) (pipe_writer None) =
      (Inr info, wr_append (pipe_writer None) (bytes_of_string ''PGDMP pg_dump''), ())"
    using c by (simp add: NewPgDump_def pgDump_Dump_def stream_then_version_def out stream)
  have "smokeValidatedReader (reader_of (bytes_of_string ''PGDMP pg_dump'')) ''pg_dump'' = None" by code_simp
  then have "smokeValidatedReader (reader_of (wr_data (wr_append (pipe_writer None) (bytes_of_string ''PGDMP pg_dump''))))
      (drv_Name (NewPgDump dump_os)) = None"
    by (simp add: NewPgDump_def)
  moreover have "agent_drivers dump_os (dbTypeKey (tg_Type example_pg_target)) = Some (NewPgDump dump_os)"
    by (simp add: agent_drivers_def)
  ultimately show thesis using that v d by blast
qed

lemma dump_run:
  "\<exists>bc evs. Runner_Run (agent_runner dump_os confirming (configSnapshot_Set s dump_config) (configSnapshot_Set s' dump_config)) example_pipe ()
     (Some dump_request) = (Inr bc, evs, ())"
proof -
  let ?r = "agent_runner dump_os confirming (configSnapshot_Set s dump_config) (configSnapshot_Set s' dump_config)"
  have r: "rn_drivers ?r = agent_drivers dump_os" "rn_dekResolver ?r = passthroughDEK"
    by (simp_all add: agent_runner_def NewRunner_def WithTargetLookup_def WithJobLookup_def)
  obtain info where works: "drv_Validate (NewPgDump dump_os) () (Some example_pg_target) = (None, ())"
    "drv_Dump (NewPgDump dump_os) () (Some example_pg_target) (pipe_writer None) =
      (Inr info, wr_append (pipe_writer None) (bytes_of_string ''PGDMP pg_dump''), ())"
    "smokeValidatedReader (reader_of (wr_data (wr_append (pipe_writer None) (bytes_of_string ''PGDMP pg_dump''))))
      (drv_Name (NewPgDump dump_os)) = None"
    "agent_drivers dump_os (dbTypeKey (tg_Type example_pg_target)) = Some (NewPgDump dump_os)"
    by (rule dump_driver_works)
  have "\<exists>bc evs. Runner_Run ?r example_pipe () (Some dump_request) = (Inr bc, evs, ())
      \<and> bc_JobId bc = rb_JobId dump_request \<and> bc_RunId bc = rb_RunId dump_request"
    by (rule run_works [OF dump_snapshot _ _ _ uploader_agent_runner r(2) _ example_pipe_works(1) example_pipe_works(2) _ works(1-3)])
       (simp_all add: r(1) agent_drivers_def confirming_def, simp_all)
  then show ?thesis by blast
qed

text \<open>The three steps of a task up to the end of its run.\<close>

lemma example_lookups:
  assumes "k < length (ag_tasks a)" "tk_phase (ag_tasks a ! k) = Spawned"
  shows "(example_step f os' up)\<^sup>*\<^sup>* a (set_phase k (Resolved (ag_snap a) (ag_snap a)) a)"
proof -
  let ?a1 = "set_phase k (JobRead (ag_snap a)) a"
  have "example_step f os' up a ?a1" using assms by (rule agent_step.LooksUpJob)
  moreover have "example_step f os' up ?a1 (set_phase k (Resolved (ag_snap a) (ag_snap ?a1)) ?a1)"
    using assms(1) by (intro agent_step.LooksUpTarget) simp_all
  moreover have "set_phase k (Resolved (ag_snap a) (ag_snap ?a1)) ?a1 = set_phase k (Resolved (ag_snap a) (ag_snap a)) a"
    using assms(1) by (simp add: set_phase_def)
  ultimately show ?thesis by (metis (no_types, lifting) converse_rtranclp_into_rtranclp r_into_rtranclp)
qed

lemma example_pipe_fixed: "pe_zstd example_pipe = plain_zstd" "pe_sha256 example_pipe = take 32"
  by (simp_all add: example_pipe_def plain_zstd_def)

text \<open>A backup up to its result, with the post-hooks and the metrics still to come.\<close>

lemma dump_settled:
  "\<exists>a bc evs. (example_step dump_script dump_os confirming)\<^sup>*\<^sup>* (example_agent dump_script example_store) a \<and> linked a
    \<and> ag_tasks a = [\<lparr>tk_msg = dump_request, tk_conn = ag_conn a, tk_phase = Returning evs (Inr bc)\<rparr>] \<and> ag_sent a = []
    \<and> cl_calls (ag_client a) = [CbConfigUpdate (Some \<lparr>cu_Config = Some dump_config\<rparr>), CbRunBackup (Some dump_request)]"
proof -
  let ?step = "example_step dump_script dump_os confirming"
  obtain a where a: "?step\<^sup>*\<^sup>* (example_agent dump_script example_store) a" "linked a"
    "ag_tasks a = [\<lparr>tk_msg = dump_request, tk_conn = ag_conn a, tk_phase = Spawned\<rparr>]" "ag_snap a = configSnapshot_Set newConfigSnapshot dump_config"
    "cl_calls (ag_client a) = [CbConfigUpdate (Some \<lparr>cu_Config = Some dump_config\<rparr>), CbRunBackup (Some dump_request)]"
    "ag_sent a = []" "ag_uploads a = []"
    using dump_requested [of dump_os confirming] by (auto simp: new_tasks_def)
  define b where "b = set_phase 0 (Resolved (ag_snap a) (ag_snap a)) a"
  have s1: "?step\<^sup>*\<^sup>* a b" unfolding b_def using a(3) by (intro example_lookups) simp_all
  have b: "ag_tasks b = [\<lparr>tk_msg = dump_request, tk_conn = ag_conn a, tk_phase = Resolved (ag_snap a) (ag_snap a)\<rparr>]" "ag_sys b = ()"
    using a(3) by (simp_all add: b_def)
  obtain bc evs where run: "Runner_Run (agent_runner dump_os confirming (ag_snap a) (ag_snap a)) example_pipe () (Some dump_request) = (Inr bc, evs, ())"
    using dump_run a(4) by metis
  define c where "c = agent_settle_run dump_os confirming example_pipe 0 (ag_snap a) (ag_snap a) b"
  have "?step b c"
    unfolding c_def using a(2) b by (intro agent_step.Settles) (simp_all add: example_pipe_fixed ctx_alive_def linked_def, simp_all add: b_def)
  with a(1) s1 have reach: "?step\<^sup>*\<^sup>* (example_agent dump_script example_store) c" by (meson rtranclp.rtrancl_into_rtrancl rtranclp_trans)
  have "ag_tasks c = [\<lparr>tk_msg = dump_request, tk_conn = ag_conn a, tk_phase = Returning evs (Inr bc)\<rparr>]"
    using run b by (simp add: c_def agent_settle_run_def)
  moreover have "linked c" "ag_conn c = ag_conn a" "ag_sent c = []" "ag_client c = ag_client a"
    using a(2,6) by (simp_all add: c_def linked_def) (simp_all add: b_def)
  ultimately show ?thesis using reach a(5) by (intro exI [of _ c] exI [of _ bc] exI [of _ evs]) simp
qed

text \<open>The last two steps of a task, from its result to its report.\<close>

lemma example_reports:
  assumes "k < length (ag_tasks a)" "tk_phase (ag_tasks a ! k) = Returning evs res"
  shows "(example_step f os' up)\<^sup>*\<^sup>* a (agent_report (script_world f) (\<lambda>_. []) 2 k res (agent_return_run k evs res a))"
proof -
  have "example_step f os' up a (agent_return_run k evs res a)" by (rule agent_step.Returns [OF assms])
  moreover have "example_step f os' up (agent_return_run k evs res a) (agent_report (script_world f) (\<lambda>_. []) 2 k res (agent_return_run k evs res a))"
    using assms(1) by (intro agent_step.Reports) simp_all
  ultimately show ?thesis by (meson converse_rtranclp_into_rtranclp r_into_rtranclp)
qed

text \<open>A backup from the request to the report.\<close>

lemma dump_reported:
  "\<exists>a bc. (example_step dump_script dump_os confirming)\<^sup>*\<^sup>* (example_agent dump_script example_store) a
    \<and> tk_phase (ag_tasks a ! 0) = Reported (buildBackupCompleted 2 bc) \<and> length (ag_tasks a) = 1 \<and> tk_msg (ag_tasks a ! 0) = dump_request
    \<and> ag_sent a = [(0, buildBackupCompleted 2 bc)]
    \<and> cl_calls (ag_client a) = [CbConfigUpdate (Some \<lparr>cu_Config = Some dump_config\<rparr>), CbRunBackup (Some dump_request)]"
proof -
  obtain a bc evs where a: "(example_step dump_script dump_os confirming)\<^sup>*\<^sup>* (example_agent dump_script example_store) a"
    "ag_tasks a = [\<lparr>tk_msg = dump_request, tk_conn = ag_conn a, tk_phase = Returning evs (Inr bc)\<rparr>]" "ag_sent a = []"
    "cl_calls (ag_client a) = [CbConfigUpdate (Some \<lparr>cu_Config = Some dump_config\<rparr>), CbRunBackup (Some dump_request)]"
    using dump_settled by blast
  define d where "d = agent_report (script_world dump_script) (\<lambda>_. []) 2 0 (Inr bc) (agent_return_run 0 evs (Inr bc) a)"
  have "(example_step dump_script dump_os confirming)\<^sup>*\<^sup>* a d" unfolding d_def using a(2) by (intro example_reports) simp_all
  with a(1) have "(example_step dump_script dump_os confirming)\<^sup>*\<^sup>* (example_agent dump_script example_store) d" by (rule rtranclp_trans)
  then show ?thesis
    using a(2-4) by (intro exI [of _ d] exI [of _ bc]) (simp add: d_def agent_report_parts report_envelope_def)
qed

end
