(* ===== verification/Agent_Store.thy ===== *)
theory Agent_Store
  imports Agent_Invariants Agent_Example
begin

text \<open>
  The state file under the running agent. Whatever the agent does to it is one of five typed
  operations, so that what it finds there later can always be read: the buckets exist, every
  pending job opens and decodes as an envelope, and the stored configuration decodes with the
  version that is stored beside it.
\<close>

section \<open>Well-typed stores\<close>

definition typed_store :: "codec \<Rightarrow> 'b bolt \<Rightarrow> ('b \<Rightarrow> bool) \<Rightarrow> 'b Store \<Rightarrow> bool" where
  "typed_store P B ok s \<longleftrightarrow> queue_inv B ok s
     \<and> (\<forall>j \<in> set (pending_jobs B s). \<exists>e. unmarshal_env P (snd j) = Some e)
     \<and> (\<forall>v raw. LoadConfig B s = Inr (v, raw) \<longrightarrow> (\<exists>cfg. unmarshal_cfg P raw = Some cfg \<and> ac_Version cfg = v))"

text \<open>The operations: what is saved or queued is a marshalled message.\<close>

inductive disk_op :: "codec \<Rightarrow> 'b bolt \<Rightarrow> 'b Store \<Rightarrow> 'b Store \<Rightarrow> bool" for P B where
  Config: "marshal_cfg P cfg = Some raw \<Longrightarrow> disk_op P B s (snd (SaveConfig B s (ac_Version cfg) raw))"
| Session: "disk_op P B s (snd (SaveSession B s sid t))"
| Beat: "disk_op P B s (snd (RecordHeartbeat B s t))"
| Queue: "marshal_env P e = Some raw \<Longrightarrow> disk_op P B s (snd (boltQueue_Enqueue B s key raw))"
| Acked: "disk_op P B s (snd (boltQueue_Ack B s key))"

lemma load_config_cong:
  "st_db s' bktConfig = st_db s bktConfig \<Longrightarrow> st_open s' = st_open s \<Longrightarrow> st_aead s' = st_aead s \<Longrightarrow> LoadConfig B s' = LoadConfig B s"
  by (simp add: LoadConfig_def db_view_def in_bucket_def cong: option.case_cong)

lemma pending_cong:
  "st_db s' bktQueue = st_db s bktQueue \<Longrightarrow> st_aead s' = st_aead s \<Longrightarrow> pending_jobs B s' = pending_jobs B s"
  by (simp add: pending_jobs_def cong: option.case_cong)

lemma snd_err_of [simp]: "snd (err_of r) = snd r"
  by (cases r) (simp add: err_of_def split: sum.split)

lemma queue_keeps_config:
  assumes "changes_bucket bktQueue s R r"
  shows "LoadConfig B (snd r) = LoadConfig B s"
  using assms by (intro load_config_cong) (auto simp: changes_bucket_def split: prod.splits sum.splits)

text \<open>An operation on one bucket that keeps it in order leaves the others as they are.\<close>

lemma typed_other_bucket:
  assumes "changes_bucket n s R (r, s')" "typed_store P B ok s" "n \<in> set core_buckets" "n \<noteq> bktQueue"
    and "\<And>b x b'. ok b \<Longrightarrow> R b x b' \<Longrightarrow> ok b'"
    and "\<And>v raw. LoadConfig B s' = Inr (v, raw) \<Longrightarrow> \<exists>cfg. unmarshal_cfg P raw = Some cfg \<and> ac_Version cfg = v"
  shows "typed_store P B ok s'"
proof -
  have st: "store_ok ok s" using assms(2) by (simp add: typed_store_def queue_inv_def)
  have "store_ok ok s'" by (rule changes_store_ok [OF assms(1) st assms(5) assms(3)])
  moreover have "st_db s' bktQueue = st_db s bktQueue" by (rule changes_other_bucket [OF assms(1)]) (use assms(4) in simp)
  moreover have "st_aead s' = st_aead s" using assms(1) by (simp add: changes_bucket_def)
  ultimately show ?thesis
    using assms(2,6) by (simp add: typed_store_def queue_inv_def pending_cong [of s' s])
qed

lemma typed_registry:
  assumes "changes_bucket bktRegistry s R (r, s')" "typed_store P B ok s" "\<And>b x b'. ok b \<Longrightarrow> R b x b' \<Longrightarrow> ok b'"
  shows "typed_store P B ok s'"
proof (rule typed_other_bucket [OF assms(1,2) _ _ assms(3)])
  have "LoadConfig B s' = LoadConfig B s"
    by (rule load_config_cong) (use assms(1) in \<open>auto simp: changes_bucket_def split: sum.splits\<close>)
  then show "LoadConfig B s' = Inr (v, raw) \<Longrightarrow> \<exists>cfg. unmarshal_cfg P raw = Some cfg \<and> ac_Version cfg = v" for v raw
    using assms(2) by (simp add: typed_store_def)
qed simp_all

lemma typed_disk_op:
  assumes "bolt_laws B ok" "proto_codec P" "disk_op P B s s'" "typed_store P B ok s"
  shows "typed_store P B ok s'"
proof -
  have inv: "queue_inv B ok s" and bs: "buckets_ok ok (st_db s)" "aead_laws (st_aead s)" "store_ok ok s"
    using assms(4) by (simp_all add: typed_store_def queue_inv_def store_ok_def)
  from assms(3) show ?thesis
  proof cases
    case (Config cfg raw)
    obtain x where x: "SaveConfig B s (ac_Version cfg) raw = (x, s')" using Config(1) by (metis prod.collapse)
    have ch: "changes_bucket bktConfig s (\<lambda>b x b'. ok b'
      \<and> (\<exists>enc. bk_get B b' keyConfigCurrent = Some enc \<and> state_open (st_aead s) enc = Inr raw)
      \<and> bk_get B b' keyConfigVersion = Some (u64Bytes (ac_Version cfg))) (x, s')"
      using bolt_laws.SaveConfig_changes [OF assms(1) bs(1,2), of raw "ac_Version cfg"] x by simp
    show ?thesis
    proof (rule typed_other_bucket [OF ch assms(4)])
      fix v raw' assume l: "LoadConfig B s' = Inr (v, raw')"
      show "\<exists>cfg. unmarshal_cfg P raw' = Some cfg \<and> ac_Version cfg = v"
      proof (cases x)
        case (Inl e)
        have "LoadConfig B s' = LoadConfig B s"
          by (rule load_config_cong) (use ch Inl in \<open>simp_all add: changes_bucket_def\<close>)
        with l assms(4) show ?thesis by (simp add: typed_store_def)
      next
        case (Inr u)
        with bolt_laws.config_saved [OF assms(1) bs(3)] x l proto_codec.cfg_roundtrip [OF assms(2) Config(2)] show ?thesis by auto
      qed
    qed simp_all
  next
    case (Session sid t)
    obtain x where x: "SaveSession B s sid t = (x, s')" using Session by (metis prod.collapse)
    from bolt_laws.SaveSession_changes [OF assms(1) bs(1,2), of sid t] show ?thesis
      unfolding x by (rule typed_registry [OF _ assms(4)]) simp
  next
    case (Beat t)
    obtain x where x: "RecordHeartbeat B s t = (x, s')" using Beat by (metis prod.collapse)
    from bolt_laws.RecordHeartbeat_changes [OF assms(1) bs(1), of t] show ?thesis
      unfolding x by (rule typed_registry [OF _ assms(4)]) simp
  next
    case (Queue e raw key)
    obtain x where x: "boltQueue_Enqueue B s key raw = (x, s')" using Queue(1) by (metis prod.collapse)
    have "LoadConfig B s' = LoadConfig B s"
    proof (cases "key = []")
      case True
      then show ?thesis by (simp add: Queue(1) boltQueue_Enqueue_def EnqueueJob_def)
    next
      case False
      from queue_keeps_config [OF bolt_laws.EnqueueJob_changes [OF assms(1) bs(1,2) False]] show ?thesis
        by (simp add: Queue(1) boltQueue_Enqueue_def)
    qed
    moreover note q = bolt_laws.queue_enqueue [OF assms(1) inv x]
    moreover have "\<exists>e. unmarshal_env P (snd j) = Some e" if "j \<in> set (pending_jobs B s')" for j
    proof -
      have "distinct (map fst (pending_jobs B s'))"
        by (rule job_queue.ids_distinct [OF bolt_laws.boltQueue_laws [OF assms(1)]]) (use q in blast)
      with that have "map_of (pending_jobs B s') (fst j) = Some (snd j)" by simp
      with q have "snd j = raw \<or> j \<in> set (pending_jobs B s)"
        by (cases j) (auto split: if_splits dest!: map_of_SomeD)
      with assms(4) proto_codec.env_roundtrip [OF assms(2) Queue(2)] show ?thesis by (auto simp: typed_store_def)
    qed
    ultimately show ?thesis using assms(4) by (simp add: typed_store_def)
  next
    case (Acked key)
    obtain x where x: "boltQueue_Ack B s key = (x, s')" using Acked by (metis prod.collapse)
    have "LoadConfig B s' = LoadConfig B s"
      using queue_keeps_config [OF bolt_laws.AckJob_changes [OF assms(1) bs(1), of key]]
      by (simp add: Acked boltQueue_Ack_def)
    with bolt_laws.queue_ack [OF assms(1) inv x] assms(4) show ?thesis by (auto simp: typed_store_def split: if_splits)
  qed
qed

section \<open>What the client does to its store\<close>

abbreviation disk_ops :: "codec \<Rightarrow> 'b bolt \<Rightarrow> 'b Store Client \<Rightarrow> 'b Store Client \<Rightarrow> bool" where
  "disk_ops P B c c' \<equiv> (disk_op P B)\<^sup>*\<^sup>* (cl_disk c) (cl_disk c')"

definition on_store :: "'b Store World \<Rightarrow> 'b bolt \<Rightarrow> bool" where
  "on_store w B \<longleftrightarrow> w_state w = Some (store_ops B) \<and> w_queue w = Some (boltQueue B)"

lemma disk_stamp [simp]: "cl_disk (snd (stamp now c e)) = cl_disk c"
  by (simp add: stamp_def)

lemma disk_handshake [simp]: "cl_disk (snd (handshake w now write_ok reply c)) = cl_disk c"
  by (simp add: handshake_def Let_def split: option.split prod.split payload.split)

lemma disk_persist:
  assumes "on_store w B"
  shows "disk_ops (w_codec w) B c (snd (persist_env w c e))"
proof (cases "marshal_env (w_codec w) e")
  case (Some raw)
  have "cl_disk (snd (persist_env w c e)) = snd (boltQueue_Enqueue B (cl_disk c) (queue_key e) raw)"
    using assms Some by (simp add: persist_env_def on_store_def boltQueue_def split: prod.split)
  with disk_op.Queue [OF Some] show ?thesis by auto
qed (simp add: persist_env_def)

lemma disk_Send:
  assumes "on_store w B"
  shows "disk_ops (w_codec w) B c (snd (Client_Send w now c e))"
proof (cases e)
  case (Some e0)
  obtain e1 c1 where s: "stamp now c e0 = (e1, c1)" by fastforce
  with disk_stamp [of now c e0] have "cl_disk c1 = cl_disk c" by simp
  with Some s disk_persist [OF assms, of c1 e1] show ?thesis by (simp add: Client_Send_def split: option.split)
qed (simp add: Client_Send_def)

lemma disk_SaveConfig:
  assumes "on_store w B" "w_state w = Some st" "marshal_cfg (w_codec w) cfg = Some raw"
  shows "disk_op (w_codec w) B d (so_SaveConfig st d (ac_Version cfg) raw)"
proof -
  have "so_SaveConfig st d (ac_Version cfg) raw = snd (SaveConfig B d (ac_Version cfg) raw)"
    using assms(1,2) by (auto simp: on_store_def store_ops_def)
  with disk_op.Config [OF assms(3)] show ?thesis by simp
qed

lemma disk_dispatch:
  assumes "on_store w B"
  shows "disk_ops (w_codec w) B c (snd (dispatch w now env c))"
proof (cases "env_Payload env")
  case (Some p)
  show ?thesis
  proof (cases p)
    case (PConfigUpdate m)
    show ?thesis
    proof (cases "Option.bind m cu_Config")
      case None
      then show ?thesis by (simp add: dispatch_def Some PConfigUpdate cb_err_def call_def split: option.split)
    next
      case (Some cfg)
      note bound = this
      show ?thesis
      proof (cases "marshal_cfg (w_codec w) cfg")
        case None
        with bound \<open>env_Payload env = Some p\<close> show ?thesis
          by (simp add: dispatch_def PConfigUpdate cb_err_def call_def Let_def split: option.split)
      next
        case (Some raw)
        have st: "w_state w = Some (store_ops B)" using assms by (simp add: on_store_def)
        have "cl_disk (snd (dispatch w now env c)) = so_SaveConfig (store_ops B) (cl_disk c) (ac_Version cfg) raw"
          using bound Some \<open>env_Payload env = Some p\<close> st
          by (simp add: dispatch_def PConfigUpdate cb_err_def call_def Let_def split: option.split)
        with disk_SaveConfig [OF assms st Some, of "cl_disk c"] show ?thesis by auto
      qed
    qed
  next
    case (PPing m)
    define ack where "ack = Some ((NewEnvelope now)\<lparr>env_CorrelationId := env_CorrelationId env,
        env_Payload := Some (PAck (Some \<lparr>ack_CorrelationId = env_CorrelationId env, ack_Accepted = True, ack_Reason = []\<rparr>))\<rparr>)"
    have "snd (dispatch w now env c) = snd (Client_Send w now c ack)"
      by (simp add: dispatch_def Some PPing ack_def split: prod.split)
    with disk_Send [OF assms, of c now ack] show ?thesis by simp
  qed (simp_all add: Some dispatch_def cb_err_def call_def split: option.split)
qed (simp add: dispatch_def)

lemma disk_live_step:
  assumes "on_store w B"
  shows "disk_ops (w_codec w) B c (snd (live_step w ev c))"
proof (cases ev)
  case (EvSend now e)
  with disk_Send [OF assms] show ?thesis by simp
next
  case (EvFrame now fr)
  with disk_dispatch [OF assms] show ?thesis by (simp add: read_step_def split: option.split prod.split)
next
  case (EvWrite now b)
  show ?thesis
  proof (cases "\<exists>e out. cl_out c = Some (e # out)")
    case True
    then obtain e out where o': "cl_out c = Some (e # out)" by blast
    obtain e1 c1 where s: "stamp now (c\<lparr>cl_out := Some out\<rparr>) e = (e1, c1)" by fastforce
    with disk_stamp [of now "c\<lparr>cl_out := Some out\<rparr>" e] have "cl_disk c1 = cl_disk c" by simp
    with o' s EvWrite show ?thesis by (simp add: write_step_def split: option.split)
  qed (use EvWrite in \<open>auto simp: write_step_def split: option.split list.split\<close>)
next
  case (EvTick now ms)
  have "w_state w = Some (store_ops B)" using assms by (simp add: on_store_def)
  with EvTick disk_op.Beat [of "w_codec w" B "cl_disk c" ms] show ?thesis
    by (auto simp: emitHeartbeat_def store_ops_def Let_def split: option.split)
qed

lemma disk_apply_ack:
  assumes "on_store w B"
  shows "disk_ops (w_codec w) B c (apply_ack w ms a c)"
proof -
  have st: "w_state w = Some (store_ops B)" using assms by (simp add: on_store_def)
  let ?d = "snd (SaveSession B (cl_disk c) (ra_SessionId a) ms)"
  have one: "disk_op (w_codec w) B (cl_disk c) ?d" by (rule disk_op.Session)
  show ?thesis
  proof (cases "Option.bind (ra_Config a) (marshal_cfg (w_codec w))")
    case None
    then have "cl_disk (apply_ack w ms a c) = ?d"
      using st by (auto simp: apply_ack_def call_def store_ops_def Let_def bind_eq_None_conv split: option.split)
    with one show ?thesis by auto
  next
    case (Some raw)
    then obtain cfg where cfg: "ra_Config a = Some cfg" "marshal_cfg (w_codec w) cfg = Some raw" by (auto simp: bind_eq_Some_conv)
    with st have "cl_disk (apply_ack w ms a c) = so_SaveConfig (store_ops B) ?d (ac_Version cfg) raw"
      by (auto simp: apply_ack_def call_def store_ops_def Let_def split: option.split)
    with one disk_SaveConfig [OF assms st cfg(2), of ?d] show ?thesis by auto
  qed
qed

lemma disk_connect:
  assumes "on_store w B" "connect w url_parse dial_ok now write_ok reply ms c = (e, c')"
  shows "disk_ops (w_codec w) B c c'"
proof -
  obtain r c1 where H: "handshake w now write_ok reply c = (r, c1)" by fastforce
  with disk_handshake [of w now write_ok reply c] have c1: "cl_disk c1 = cl_disk c" by simp
  show ?thesis
  proof (cases r)
    case (Inr a)
    from disk_apply_ack [OF assms(1), of c1 ms a] assms(2) H Inr c1 show ?thesis
      by (auto simp: connect_cases split: sum.splits if_splits)
  qed (use assms(2) H c1 in \<open>auto simp: connect_cases split: sum.splits if_splits\<close>)
qed

lemma disk_replay:
  assumes "on_store w B"
  shows "disk_ops (w_codec w) B c (snd (replay_loop w (boltQueue B) done i js c))"
proof (induction js arbitrary: i c)
  case (Cons j js)
  obtain r p where j: "j = (r, p)" by fastforce
  have ack: "disk_op (w_codec w) B (cl_disk c) (snd (boltQueue_Ack B (cl_disk c) r))" by (rule disk_op.Acked)
  have "disk_ops (w_codec w) B c (snd (replay_loop w (boltQueue B) done (Suc i) js (x\<lparr>cl_disk := snd (boltQueue_Ack B (cl_disk c) r)\<rparr>)))" for x
    using Cons.IH [of "x\<lparr>cl_disk := snd (boltQueue_Ack B (cl_disk c) r)\<rparr>" "Suc i"] ack by (simp add: converse_rtranclp_into_rtranclp)
  moreover have "Ack (boltQueue B) = boltQueue_Ack B" by (simp add: boltQueue_def)
  ultimately show ?case using j by (simp split: option.split)
qed simp

lemma deliver_client: "agent_deliver c a = Some a' \<Longrightarrow> more_calls (ag_client a) c \<Longrightarrow> ag_client a' = c"
  by (rule agent_deliver_effect [of c a a']) simp_all

lemma agent_step_disk:
  assumes "on_store w B" "agent_step w url_parse os' uploader err_text z sha a a'"
  shows "disk_ops (w_codec w) B (ag_client a) (ag_client a')"
  using assms(2)
proof (cases rule: agent_step.cases)
  case (ConnectFails dial_ok now write_ok reply ms e c)
  with disk_connect [OF assms(1) ConnectFails(4)] show ?thesis by (simp add: link_lost_def disconnect_def)
next
  case (Connects dial_ok now write_ok reply ms c a1)
  have "ag_client a1 = c" by (rule deliver_client [OF Connects(5) more_calls_connect [OF Connects(4)]])
  with disk_connect [OF assms(1) Connects(4)] Connects(1) show ?thesis by simp
next
  case (ReplaysJob j js Q c)
  have "Q = boltQueue B" using assms(1) ReplaysJob(3) by (simp add: on_store_def)
  with disk_replay [OF assms(1), of "ag_client a" "\<lambda>_. False" 0 "[j]"] ReplaysJob(1,4) show ?thesis by simp
next
  case (Live ev c)
  have more: "more_calls (ag_client a) c" using more_calls_live_step [of "ag_client a" w ev] Live(2) by simp
  have "ag_client a' = c" by (rule deliver_client [OF Live(3) more])
  with disk_live_step [OF assms(1), of "ag_client a" ev] Live(2) show ?thesis by simp
next
  case (Lost ev e c)
  with disk_live_step [OF assms(1), of "ag_client a" ev] show ?thesis by (simp add: link_lost_def disconnect_def)
next
  case (Scans now d s)
  with disk_Send [OF assms(1)] show ?thesis by (simp add: agent_scan_def split: sum.split)
next
  case (Reports k res now)
  with disk_Send [OF assms(1)] show ?thesis by (simp add: agent_report_def Let_def)
next
  case (Settles k sj st pe)
  then show ?thesis by simp
next
  case (SettlesCancelled k sj st pe osc n)
  then show ?thesis by simp
next
  case (Returns k evs res)
  then show ?thesis by simp
qed (simp_all add: link_closed_def disconnect_def)

text \<open>The invariant over all reachable states.\<close>

lemma typed_ops:
  assumes "bolt_laws B ok" "proto_codec P" "(disk_op P B)\<^sup>*\<^sup>* s s'" "typed_store P B ok s"
  shows "typed_store P B ok s'"
  using assms(3,4) by (induction rule: rtranclp_induct) (auto intro: typed_disk_op [OF assms(1,2)])

lemma typed_reach:
  assumes "bolt_laws B ok" "proto_codec (w_codec w)" "on_store w B"
    and "(agent_step w url_parse os' uploader err_text z sha)\<^sup>*\<^sup>* a a'" "typed_store (w_codec w) B ok (cl_disk (ag_client a))"
  shows "typed_store (w_codec w) B ok (cl_disk (ag_client a'))"
  using assms(4,5) by (induction rule: rtranclp_induct) (auto intro: typed_ops [OF assms(1,2) agent_step_disk [OF assms(3)]])

section \<open>An agent that queues a report\<close>

text \<open>A codec that knows one envelope, and a daemon without containers.\<close>

definition one_codec :: "Envelope \<Rightarrow> codec" where
  "one_codec e0 = \<lparr>marshal_env = (\<lambda>e. if e = e0 then Some [7] else None), unmarshal_env = (\<lambda>b. if b = [7] then Some e0 else None),
     marshal_cfg = (\<lambda>_. None), unmarshal_cfg = (\<lambda>_. None)\<rparr>"

lemma one_codec_laws: "proto_codec (one_codec e0)"
  by unfold_locales (auto simp: one_codec_def split: if_splits)

definition idle_daemon :: daemon where
  "idle_daemon = (example_daemon [])\<lparr>dm_get := (\<lambda>_ _. Some (200, [])), dm_list := (\<lambda>_. Some [])\<rparr>"

lemma idle_scan: "Scan idle_daemon s = Inr []"
  by (simp add: Scan_def listContainers_def idle_daemon_def)

definition empty_report :: Envelope where
  "empty_report = (NewEnvelope 1)\<lparr>env_Payload := Some (PDiscovery (Some (BuildReport []))), env_Seq := 1\<rparr>"

lemma example_typed: "typed_store (one_codec e) ref_bolt ref_ok example_store"
proof -
  have "pending_jobs ref_bolt example_store = []" by (simp add: pending_jobs_def) (simp add: ref_bolt_def)
  moreover have "\<exists>e. LoadConfig ref_bolt example_store = Inl e"
    by (simp add: LoadConfig_def db_view_def in_bucket_def) (simp add: ref_bolt_def)
  ultimately show ?thesis by (auto simp: typed_store_def)
qed

section \<open>Property\<close>

text \<open>C22: The state file stays readable: whatever the agent does, and whichever of its writes fail, its
  store keeps its four buckets, every pending job opens and decodes as an envelope (so that a
  replay drops none as corrupt), and the stored configuration decodes and has the version stored
  beside it.\<close>

theorem agent_store_well_typed:
  assumes "bolt_laws B ok" "proto_codec P" "typed_store P B ok st"
    and "(agent_step (agent_world P B hostname goos goarch) url_parse os' uploader err_text z sha)\<^sup>*\<^sup>*
      (agent_init (agent_world P B hostname goos goarch) cfg vars m st x) a"
  shows "typed_store P B ok (cl_disk (ag_client a))
    \<and> (\<forall>j \<in> set (popped (agent_world P B hostname goos goarch) (ag_client a)). \<exists>e. unmarshal_env P (snd j) = Some e)"
proof -
  let ?w = "agent_world P B hostname goos goarch"
  have w: "w_codec ?w = P" "w_queue ?w = Some (boltQueue B)" "on_store ?w B" by (simp_all add: agent_world_def on_store_def)
  have "cl_disk (ag_client (agent_init ?w cfg vars m st x)) = st" by (simp add: agent_init_def NewClient_def Let_def)
  then have typed: "typed_store P B ok (cl_disk (ag_client a))"
    using typed_reach [OF assms(1) _ w(3) assms(4)] assms(2,3) w(1) by simp
  then have "Pop (boltQueue B) (cl_disk (ag_client a)) 100 = Inr (take 100 (pending_jobs B (cl_disk (ag_client a))))"
    using job_queue.pop [OF bolt_laws.boltQueue_laws [OF assms(1)], of "cl_disk (ag_client a)" 100] by (simp add: typed_store_def)
  with typed w(2) show ?thesis by (auto simp: popped_def typed_store_def dest!: in_set_takeD)
qed

theorem agent_store_well_typed_witness:
  "\<exists>a :: (unit, ref_bucket Store) agent. typed_store (one_codec empty_report) ref_bolt ref_ok (cl_disk (ag_client a))
    \<and> pending_jobs ref_bolt (cl_disk (ag_client a)) \<noteq> []"
proof -
  let ?P = "one_codec empty_report"
  let ?w = "agent_world ?P ref_bolt None [] []"
  let ?a0 = "agent_init ?w example_config unstamped fresh_metrics example_store () :: (unit, ref_bucket Store) agent"
  define a where "a = agent_scan ?w 1 idle_daemon (NewScanner []) ?a0"
  have reach: "(agent_step ?w (\<lambda>_. None) idle_os refusing (\<lambda>_. []) plain_zstd id)\<^sup>*\<^sup>* ?a0 a"
    unfolding a_def by (rule r_into_rtranclp) (rule agent_step.Scans)
  note typed = agent_store_well_typed [OF ref_bolt.bolt_laws_axioms one_codec_laws example_typed reach]
  have c: "cl_disk (ag_client ?a0) = example_store" "cl_out (ag_client ?a0) = None" "cl_seq (ag_client ?a0) = 0"
    by (simp_all add: agent_init_def NewClient_def Let_def)
  have "marshal_env ?P empty_report = Some [7]" by (simp add: one_codec_def)
  moreover have "stamp 1 (ag_client ?a0) ((NewEnvelope 1)\<lparr>env_Payload := Some (PDiscovery (Some (BuildReport [])))\<rparr>)
      = (empty_report, (ag_client ?a0)\<lparr>cl_seq := 1\<rparr>)"
    using c(3) by (simp add: stamp_def NewEnvelope_def empty_report_def)
  moreover have "w_queue ?w = Some (boltQueue ref_bolt)" "w_codec ?w = ?P" by (simp_all add: agent_world_def)
  ultimately have d: "cl_disk (ag_client a) = snd (boltQueue_Enqueue ref_bolt example_store (queue_key empty_report) [7])"
    using c by (simp add: a_def agent_scan_def idle_scan Client_Send_def persist_env_def boltQueue_def split: prod.split)
  have key: "queue_key empty_report = ''seq-1''" by (simp add: queue_key_def empty_report_def NewEnvelope_def)
  have "fst (EnqueueJob ref_bolt example_store ''seq-1'' [7]) = Inr ()"
    by (rule ref_bolt.EnqueueJob_works [OF example_store_ok example_works]) simp_all
  then obtain s1 where s1: "EnqueueJob ref_bolt example_store ''seq-1'' [7] = (Inr (), s1)" by (metis prod.collapse)
  then have "boltQueue_Enqueue ref_bolt example_store ''seq-1'' [7] = (None, s1)" by (simp add: boltQueue_Enqueue_def err_of_def)
  with ref_bolt.queue_enqueue [of example_store "''seq-1''" "[7]" None s1] d key example_typed
  have "map_of (pending_jobs ref_bolt (cl_disk (ag_client a))) ''seq-1'' = Some [7]" by (simp add: typed_store_def)
  with typed show ?thesis by (intro exI [of _ a]) auto
qed

end
