(* ===== verification/Agent_Props.thy ===== *)
theory Agent_Props
  imports Agent_Example
begin

text \<open>
  Properties of the agent as a whole: what holds in every reachable state, what a lost connection
  does to a running backup and to a report, which configuration a run sees, what the metrics say
  and what a restarted agent knows.
\<close>

section \<open>The ledger\<close>

text \<open>
  The contract of the agent with the control plane: a ledger of backup requests, each open or
  answered with success or failure. It is driven by what the control plane sees, the requests that
  came in and the reports that were handed out: a request is appended, and a report answers the
  open request it is for. A report for no request, for one already answered, or with other ids than
  those of its request is none the ledger takes.
\<close>

type_synonym ledger = "(RunBackupMsg \<times> bool option) list"

definition answer_of :: "RunBackupMsg \<Rightarrow> Envelope \<Rightarrow> bool option" where
  "answer_of m e =
     (case env_Payload e of
        Some (PBackupCompleted (Some bc)) \<Rightarrow> if bc_JobId bc = rb_JobId m \<and> bc_RunId bc = rb_RunId m then Some True else None
      | Some (PJobUpdate (Some ju)) \<Rightarrow>
          if ju_Status ju = FAILED \<and> ju_JobId ju = rb_JobId m \<and> ju_RunId ju = rb_RunId m then Some False else None
      | _ \<Rightarrow> None)"

fun ledger_answers :: "(nat \<times> Envelope) list \<Rightarrow> ledger \<Rightarrow> ledger option" where
  "ledger_answers [] l = Some l"
| "ledger_answers ((k, e) # ans) l =
     (if k < length l \<and> snd (l ! k) = None
      then (case answer_of (fst (l ! k)) e of
              None \<Rightarrow> None
            | Some ok \<Rightarrow> ledger_answers ans (l[k := (fst (l ! k), Some ok)]))
      else None)"

definition ledger_run :: "RunBackupMsg list \<Rightarrow> (nat \<times> Envelope) list \<Rightarrow> ledger \<Rightarrow> ledger option" where
  "ledger_run rqs ans l = ledger_answers ans (l @ map (\<lambda>m. (m, None)) rqs)"

lemma answer_of_reports [simp]:
  "reports_success m e \<Longrightarrow> answer_of m e = Some True" "reports_failure m e \<Longrightarrow> answer_of m e = Some False"
  by (auto simp: answer_of_def reports_success_def reports_failure_def)

lemma ledger_answers_more: "ledger_answers ans l = Some l' \<Longrightarrow> ledger_answers ans (l @ x) = Some (l' @ x)"
  by (induction ans l rule: ledger_answers.induct) (auto simp: nth_append list_update_append split: if_splits option.splits)

lemma ledger_answers_append: "ledger_answers ans l = Some l' \<Longrightarrow> ledger_answers (ans @ ans') l = ledger_answers ans' l'"
  by (induction ans l rule: ledger_answers.induct) (auto split: if_splits option.splits)

lemma ledger_run_trans:
  "ledger_run rqs ans l = Some l1 \<Longrightarrow> ledger_run rqs' ans' l1 = Some l2 \<Longrightarrow> ledger_run (rqs @ rqs') (ans @ ans') l = Some l2"
  unfolding ledger_run_def map_append append_assoc [symmetric]
  by (simp only: ledger_answers_append [OF ledger_answers_more])

text \<open>An answer is final.\<close>

lemma ledger_answers_final:
  "ledger_answers ans l = Some l' \<Longrightarrow> k < length l \<Longrightarrow> snd (l ! k) \<noteq> None \<Longrightarrow> l' ! k = l ! k"
proof (induction ans l rule: ledger_answers.induct)
  case (2 i e ans l)
  then have "i \<noteq> k" by (auto split: if_splits)
  with 2 show ?case by (auto split: if_splits option.splits)
qed simp

lemma ledger_run_final:
  "ledger_run rqs ans l = Some l' \<Longrightarrow> k < length l \<Longrightarrow> snd (l ! k) \<noteq> None \<Longrightarrow> l' ! k = l ! k"
  unfolding ledger_run_def by (drule ledger_answers_final [where k = k]) (simp_all add: nth_append)

text \<open>The ledger as the agent keeps it: its tasks, and what they have reported.\<close>

definition answer :: "task \<Rightarrow> bool option" where
  "answer t = (case tk_phase t of Reported e \<Rightarrow> answer_of (tk_msg t) e | _ \<Rightarrow> None)"

definition ledger :: "('x, 's) agent \<Rightarrow> ledger" where
  "ledger a = map (\<lambda>t. (tk_msg t, answer t)) (ag_tasks a)"

lemma ledger_unmoved:
  assumes "k < length (ag_tasks a)" "answer (ag_tasks a ! k) = answer ((ag_tasks a ! k)\<lparr>tk_phase := ph\<rparr>)"
    and "ag_tasks a' = (ag_tasks a)[k := (ag_tasks a ! k)\<lparr>tk_phase := ph\<rparr>]"
  shows "ledger a' = ledger a"
proof -
  have "(tk_msg ((ag_tasks a ! k)\<lparr>tk_phase := ph\<rparr>), answer ((ag_tasks a ! k)\<lparr>tk_phase := ph\<rparr>)) = ledger a ! k"
    using assms(1,2) by (simp add: ledger_def)
  then show ?thesis by (simp add: ledger_def assms(3) map_update)
qed

text \<open>What a step adds to the requests and to the reports, and the ledger before and after it.\<close>

definition ledger_moves :: "('x, 's) agent \<Rightarrow> ('x, 's) agent \<Rightarrow> bool" where
  "ledger_moves a a' \<longleftrightarrow>
     (\<exists>rqs ans. run_requests (cl_calls (ag_client a')) = run_requests (cl_calls (ag_client a)) @ rqs
        \<and> ag_sent a' = ag_sent a @ ans \<and> ledger_run rqs ans (ledger a) = Some (ledger a'))"

lemma ledger_moves_same:
  "cl_calls (ag_client a') = cl_calls (ag_client a) \<Longrightarrow> ag_sent a' = ag_sent a \<Longrightarrow> ledger a' = ledger a \<Longrightarrow> ledger_moves a a'"
  unfolding ledger_moves_def by (intro exI [of _ "[]"]) (simp add: ledger_run_def)

lemma ledger_moves_trans: "ledger_moves a b \<Longrightarrow> ledger_moves b c \<Longrightarrow> ledger_moves a c"
  unfolding ledger_moves_def by (metis append_assoc ledger_run_trans)

lemma agent_step_ledger:
  assumes "agent_step w url_parse os' uploader err_text z sha a a'" "tasks_inv a"
  shows "ledger_moves a a'"
  using assms(1)
proof (cases rule: agent_step_kinds)
  case (Delivered new)
  have "ledger a' = ledger a @ map (\<lambda>m. (m, None)) (run_requests new)"
    by (simp add: ledger_def Delivered(3)) (simp add: new_tasks_def answer_def comp_def)
  then show ?thesis
    unfolding ledger_moves_def
    by (intro exI [of _ "run_requests new"] exI [of _ "[]"]) (simp add: ledger_run_def Delivered(1,4))
next
  case (Job k)
  then show ?thesis using ledger_unmoved [of k a "JobRead (ag_snap a)" a'] by (intro ledger_moves_same) (simp_all add: answer_def)
next
  case (Target k sj)
  then show ?thesis using ledger_unmoved [of k a "Resolved sj (ag_snap a)" a'] by (intro ledger_moves_same) (simp_all add: answer_def)
next
  case (Settled k sj st pe osc up)
  obtain res evs x where "a' = (set_phase k (Returning evs res) a)\<lparr>ag_sys := x, ag_uploads := ag_uploads a @ uploads_of evs\<rparr>"
    by (metis Settled(5) agent_settle_run_parts)
  then show ?thesis
    using ledger_unmoved [of k a "Returning evs res" a'] Settled(1,2) by (intro ledger_moves_same) (simp_all add: answer_def)
next
  case (Returned k evs res)
  then show ?thesis using ledger_unmoved [of k a "RunDone res" a'] by (intro ledger_moves_same) (simp_all add: answer_def)
next
  case (Report k res now)
  let ?m = "tk_msg (ag_tasks a ! k)"
  let ?e = "report_envelope err_text now ?m res"
  have "result_matches ?m res"
    using assms(2) Report(1,2) by (auto simp: tasks_inv_def phase_ok_def dest!: bspec [of _ _ "ag_tasks a ! k"])
  then have ans: "answer_of ?m ?e = Some (\<not> isl res)" using report_envelope_kind by (cases res) simp_all
  have open': "k < length (ledger a)" "snd (ledger a ! k) = None" "fst (ledger a ! k) = ?m"
    using Report(1,2) by (simp_all add: ledger_def answer_def)
  have "ledger a' = (ledger a)[k := (?m, Some (\<not> isl res))]"
    using Report(1) ans by (simp add: ledger_def Report(3) agent_report_parts map_update answer_def)
  then have "ledger_run [] [(k, ?e)] (ledger a) = Some (ledger a')" using open' ans by (simp add: ledger_run_def)
  then show ?thesis
    unfolding ledger_moves_def
    by (intro exI [of _ "[]"] exI [of _ "[(k, ?e)]"]) (simp add: Report(3) agent_report_parts)
qed

lemma agent_steps_ledger:
  assumes "(agent_step w url_parse os' uploader err_text z sha)\<^sup>*\<^sup>* a a'" "tasks_inv a"
  shows "ledger_moves a a' \<and> tasks_inv a'"
  using assms
proof (induction rule: rtranclp_induct)
  case (step b c)
  then have b: "ledger_moves a b" "tasks_inv b" by simp_all
  from ledger_moves_trans [OF b(1) agent_step_ledger [OF step(2) b(2)]] tasks_inv_step [OF step(2) b(2)] show ?case ..
qed (simp add: ledger_moves_same)

section \<open>Properties\<close>

text \<open>C3: The agent implements a ledger of backup requests: whatever its goroutines do and in
  which order, between any two moments the requests that came in and the reports that were handed
  out take the ledger of the first moment to that of the second, each new request appended, each
  report answering an open request with its ids; so no request is dropped, reordered or answered
  twice, no answer changes, and a run with a result is answered, if at all, with that result.\<close>

theorem agent_refines_ledger:
  assumes "(agent_step w url_parse os' uploader err_text z sha)\<^sup>*\<^sup>* (agent_init w cfg vars m st x) a"
    and "(agent_step w url_parse os' uploader err_text z sha)\<^sup>*\<^sup>* a a'"
  shows "(\<exists>rqs ans. run_requests (cl_calls (ag_client a')) = run_requests (cl_calls (ag_client a)) @ rqs
      \<and> ag_sent a' = ag_sent a @ ans \<and> ledger_run rqs ans (ledger a) = Some (ledger a'))
    \<and> (\<forall>k < length (ledger a). snd (ledger a ! k) \<noteq> None \<longrightarrow> ledger a' ! k = ledger a ! k)
    \<and> (\<forall>k < length (ledger a). \<forall>res. run_result (ag_tasks a ! k) = Some res \<longrightarrow> snd (ledger a' ! k) \<in> {None, Some (\<not> isl res)})"
proof -
  have inv: "tasks_inv a" by (rule tasks_inv_reach [OF assms(1)])
  have moves: "ledger_moves a a'" using agent_steps_ledger [OF assms(2) inv] by blast
  then have final: "ledger a' ! k = ledger a ! k" if "k < length (ledger a)" "snd (ledger a ! k) \<noteq> None" for k
    using that ledger_run_final unfolding ledger_moves_def by blast
  have result: "snd (ledger a' ! k) \<in> {None, Some (\<not> isl res)}" if "k < length (ledger a)" "run_result (ag_tasks a ! k) = Some res" for k res
  proof -
    have k: "k < length (ag_tasks a)" using that(1) by (simp add: ledger_def)
    have "bound_inv k res a" using inv k that(2) by (simp add: bound_inv_def bound_to_def)
    from agent_reach_induct [OF assms(2), where I = "bound_inv k res", OF this] bound_inv_step
    have "k < length (ag_tasks a')" "bound_to res (ag_tasks a' ! k)" unfolding bound_inv_def by blast+
    then show ?thesis by (auto simp: ledger_def bound_to_def answer_def run_result_def split: phase.splits if_splits)
  qed
  from moves final result show ?thesis unfolding ledger_moves_def by blast
qed

theorem agent_refines_ledger_witness:
  "\<exists>(a :: (unit, ref_bucket Store) agent) e. run_requests (cl_calls (ag_client a)) = [dump_request] \<and> ag_sent a = [(0, e)]
    \<and> ledger_run [dump_request] [(0, e)] [] = Some (ledger a) \<and> ledger a = [(dump_request, Some True)]"
proof -
  obtain a bc where a: "(example_step dump_script dump_os confirming)\<^sup>*\<^sup>* (example_agent dump_script example_store) a"
    "tk_phase (ag_tasks a ! 0) = Reported (buildBackupCompleted 2 bc)" "length (ag_tasks a) = 1" "tk_msg (ag_tasks a ! 0) = dump_request"
    "ag_sent a = [(0, buildBackupCompleted 2 bc)]"
    "cl_calls (ag_client a) = [CbConfigUpdate (Some \<lparr>cu_Config = Some dump_config\<rparr>), CbRunBackup (Some dump_request)]"
    using dump_reported by blast
  from agent_refines_ledger [OF rtranclp.rtrancl_refl a(1)] obtain rqs ans where run:
    "run_requests (cl_calls (ag_client a)) = run_requests (cl_calls (ag_client (example_agent dump_script example_store))) @ rqs"
    "ag_sent a = ag_sent (example_agent dump_script example_store) @ ans"
    "ledger_run rqs ans (ledger (example_agent dump_script example_store)) = Some (ledger a)" by blast
  have start: "ledger (example_agent dump_script example_store) = []" "ag_sent (example_agent dump_script example_store) = []"
    "cl_calls (ag_client (example_agent dump_script example_store)) = []"
    by (simp_all add: ledger_def agent_init_def NewClient_def Let_def)
  from a(3) obtain t where t: "ag_tasks a = [t]" by (auto simp: length_Suc_conv)
  have "answer t \<noteq> None" using run(3) run(1,2) a(5,6) start
    by (cases "answer t") (auto simp: ledger_run_def ledger_def t split: option.splits if_splits)
  then have "ledger a = [(dump_request, Some True)]"
    using a(2,4) t by (auto simp: ledger_def answer_def answer_of_def buildBackupCompleted_def split: if_splits)
  with run a(5,6) start show ?thesis by (intro exI [of _ a] exI [of _ "buildBackupCompleted 2 bc"]) simp
qed

text \<open>C5: Every backup request is answered exactly once: in every reachable state of the agent, whatever the
  interleaving of connections, frames, scans and backup goroutines, the tasks are the requests
  received, in order; the reports handed to the client are those of the tasks that are over, one
  for each; and a report is a completed backup or a failed job with the ids of its request.\<close>

theorem every_run_is_answered:
  assumes "(agent_step w url_parse os' uploader err_text z sha)\<^sup>*\<^sup>* (agent_init w cfg vars m st x) a"
  shows "map tk_msg (ag_tasks a) = run_requests (cl_calls (ag_client a)) \<and> distinct (map fst (ag_sent a))
    \<and> (\<forall>k e. (k, e) \<in> set (ag_sent a) \<longleftrightarrow> k < length (ag_tasks a) \<and> tk_phase (ag_tasks a ! k) = Reported e)
    \<and> (\<forall>(k, e) \<in> set (ag_sent a). reports_failure (tk_msg (ag_tasks a ! k)) e \<or> reports_success (tk_msg (ag_tasks a ! k)) e)"
proof -
  have inv: "tasks_inv a" by (rule tasks_inv_reach [OF assms])
  have "reports_failure (tk_msg (ag_tasks a ! k)) e \<or> reports_success (tk_msg (ag_tasks a ! k)) e" if "(k, e) \<in> set (ag_sent a)" for k e
  proof -
    from inv that have "k < length (ag_tasks a)" "tk_phase (ag_tasks a ! k) = Reported e" "phase_ok (ag_tasks a ! k)"
      by (auto simp: tasks_inv_def)
    then show ?thesis by (simp add: phase_ok_def)
  qed
  with inv show ?thesis by (auto simp: tasks_inv_def)
qed

theorem every_run_is_answered_witness:
  "\<exists>a :: (unit, ref_bucket Store) agent. map tk_msg (ag_tasks a) = [dump_request] \<and> run_requests (cl_calls (ag_client a)) = [dump_request]
    \<and> length (ag_sent a) = 1 \<and> reports_success dump_request (snd (hd (ag_sent a)))"
proof -
  obtain a bc where a: "(example_step dump_script dump_os confirming)\<^sup>*\<^sup>* (example_agent dump_script example_store) a"
    "tk_msg (ag_tasks a ! 0) = dump_request" "ag_sent a = [(0, buildBackupCompleted 2 bc)]"
    "cl_calls (ag_client a) = [CbConfigUpdate (Some \<lparr>cu_Config = Some dump_config\<rparr>), CbRunBackup (Some dump_request)]"
    using dump_reported by blast
  from every_run_is_answered [OF a(1)] a(2-4) show ?thesis
    by (intro exI [of _ a]) (auto simp: reports_failure_def buildBackupCompleted_def)
qed

text \<open>C2: Whatever the agent reports as completed can be restored: in every reachable state, for every report of a
  completed encrypted backup there is an upload which the restore tool, given a token with the
  run's key and the reported hash, turns into exactly what a driver of the agent dumped, provided
  the object store confirms only uploads it has read to the end.\<close>

theorem every_reported_backup_restorable:
  assumes "(agent_step w url_parse os' uploader err_text z sha)\<^sup>*\<^sup>* (agent_init w cfg vars m0 st x) a"
    and "\<And>tmo pr st n. uploader tmo pr = PutResponse st n \<Longrightarrow> st div 100 = 2 \<Longrightarrow> n = length (pr_body pr)"
    and "(k, e) \<in> set (ag_sent a)" "tk_msg (ag_tasks a ! k) = m" "env_Payload e = Some (PBackupCompleted (Some bc))" "rb_EncryptedDek m \<noteq> []"
    and "check_token env (Token opts) = Inr (cl, rb_EncryptedDek m)" "SHA256 cl = bc_Sha256 bc" "\<not> SkipDecompress opts"
    and "plain_env env" "sha256_sum env = sha" "\<And>d. zstd_decode env (zs_encode z d) = (d, True)"
  shows "\<exists>pr \<in> set (ag_uploads a). \<exists>key d t y k' info dump y' ps. agent_drivers os' key = Some d
    \<and> drv_Dump d y (Some t) (pipe_writer k') = (Inr info, dump, y')
    \<and> Run (env\<lparr>input_file := Some (reader_of (pr_body pr))\<rparr>) opts = (None, Some (wr_data dump), ps)"
proof -
  have inv: "restorable_inv os' z sha a" by (rule restorable_inv_reach [OF assms(1,2)])
  then have "k < length (ag_tasks a)" "tk_phase (ag_tasks a ! k) = Reported e"
    using assms(3) by (auto simp: restorable_inv_def tasks_inv_def)
  with inv assms(4-6) have "restorable os' z sha (ag_uploads a) m bc" unfolding restorable_inv_def by (metis nth_mem)
  then obtain pr key d t y k' info dump y' where "pr \<in> set (ag_uploads a)" "agent_drivers os' key = Some d"
    "drv_Dump d y (Some t) (pipe_writer k') = (Inr info, dump, y')"
    "restores_to z sha (rb_EncryptedDek m) (bc_Sha256 bc) (pr_body pr) (wr_data dump)"
    unfolding restorable_def by blast
  moreover from this(4) assms(7-12) obtain ps where
    "Run (env\<lparr>input_file := Some (reader_of (pr_body pr))\<rparr>) opts = (None, Some (wr_data dump), ps)"
    unfolding restores_to_def by blast
  ultimately show ?thesis by blast
qed

theorem every_reported_backup_restorable_witness:
  "\<exists>(a :: (unit, ref_bucket Store) agent) e bc pr dump ps. ag_sent a = [(0, e)] \<and> env_Payload e = Some (PBackupCompleted (Some bc))
    \<and> pr \<in> set (ag_uploads a)
    \<and> Run ((example_env [] (bc_Sha256 bc))\<lparr>input_file := Some (reader_of (pr_body pr))\<rparr>) example_opts = (None, Some dump, ps)"
proof -
  obtain a bc where a: "(example_step dump_script dump_os confirming)\<^sup>*\<^sup>* (example_agent dump_script example_store) a"
    "tk_msg (ag_tasks a ! 0) = dump_request" "ag_sent a = [(0, buildBackupCompleted 2 bc)]"
    using dump_reported by blast
  have pay: "env_Payload (buildBackupCompleted 2 bc) = Some (PBackupCompleted (Some bc))" by (simp add: buildBackupCompleted_def)
  have "\<exists>pr \<in> set (ag_uploads a). \<exists>key d t y k' info dump y' ps. agent_drivers dump_os key = Some d
    \<and> drv_Dump d y (Some t) (pipe_writer k') = (Inr info, dump, y')
    \<and> Run ((example_env [] (bc_Sha256 bc))\<lparr>input_file := Some (reader_of (pr_body pr))\<rparr>) example_opts = (None, Some (wr_data dump), ps)"
    by (rule every_reported_backup_restorable [OF a(1) _ _ a(2) pay, where cl = "example_cl (bc_Sha256 bc)"])
       (use a(3) check_token_example in \<open>auto simp: confirming_def example_env_def example_cl_def example_opts_def plain_env_def plain_zstd_def\<close>)
  with a(3) pay show ?thesis by blast
qed

text \<open>C30: A backup under way does not survive its connection, and one that has its result does: if the
  WebSocket a request came in on is lost (or the process is being stopped) before its run has a
  result, the upload included, then whatever happens afterwards, also after a reconnect, the only
  report that can follow is a failure; if the run has its result by then and only its post-hooks
  are left, the report is the one of that result.\<close>

theorem lost_connection_cancels_backup:
  assumes "(agent_step w url_parse os' uploader err_text z sha)\<^sup>*\<^sup>* (agent_init w cfg vars m st x) a"
    and "k < length (ag_tasks a)" "ag_link a = Down \<or> tk_conn (ag_tasks a ! k) < ag_conn a \<or> ag_stopping a"
    and "(agent_step w url_parse os' uploader err_text z sha)\<^sup>*\<^sup>* a b" "(k, e) \<in> set (ag_sent b)"
  shows "(tk_phase (ag_tasks a ! k) \<in> {Spawned, JobRead sj, Resolved sj st'} \<longrightarrow> reports_failure (tk_msg (ag_tasks a ! k)) e)
    \<and> (run_result (ag_tasks a ! k) = Some res \<longrightarrow>
        (if isl res then reports_failure (tk_msg (ag_tasks a ! k)) e else reports_success (tk_msg (ag_tasks a ! k)) e))"
proof -
  have inv: "tasks_inv a" by (rule tasks_inv_reach [OF assms(1)])
  have conns: "conns_inv a" by (rule conns_inv_reach [OF assms(1)])
  have "tasks_inv b" using tasks_inv_reach [OF rtranclp_trans [OF assms(1,4)]] .
  with assms(5) have reported: "tk_phase (ag_tasks b ! k) = Reported e" by (auto simp: tasks_inv_def)
  have msg: "tk_msg (ag_tasks b ! k) = tk_msg (ag_tasks a ! k)" by (rule tk_msg_stays [OF assms(4,2)])
  have "reports_failure (tk_msg (ag_tasks a ! k)) e" if "tk_phase (ag_tasks a ! k) \<in> {Spawned, JobRead sj, Resolved sj st'}"
  proof -
    have "doomed k a" using conns assms(2,3) that by (auto simp: doomed_def failing_def ctx_alive_def)
    with doomed_reach [OF assms(4)] have "doomed k b" by blast
    with reported msg show ?thesis by (simp add: doomed_def failing_def)
  qed
  moreover have "if isl res then reports_failure (tk_msg (ag_tasks a ! k)) e else reports_success (tk_msg (ag_tasks a ! k)) e"
    if "run_result (ag_tasks a ! k) = Some res"
    using settled_stays [OF assms(4) inv assms(2) that] unfolding bound_to_def msg by (auto simp: reported run_result_def split: if_splits)
  ultimately show ?thesis by blast
qed

text \<open>
  The example agent loses its connection while the backup is requested, reconnects no more, and
  reports a failure; or it loses it when the backup has its result, and reports that.
\<close>

theorem lost_connection_cancels_backup_witness:
  "(\<exists>(a :: (unit, ref_bucket Store) agent) (b :: (unit, ref_bucket Store) agent) e. ag_link a = Down \<and> tk_phase (ag_tasks a ! 0) = Spawned
      \<and> ag_sent b = [(0, e)] \<and> reports_failure dump_request e)
    \<and> (\<exists>(a :: (unit, ref_bucket Store) agent) (b :: (unit, ref_bucket Store) agent) evs bc e. ag_link a = Down
      \<and> tk_phase (ag_tasks a ! 0) = Returning evs (Inr bc) \<and> ag_sent b = [(0, e)] \<and> reports_success dump_request e)"
proof
  let ?step = "example_step dump_script dump_os confirming"
  have lost: "?step\<^sup>*\<^sup>* (example_agent dump_script example_store) (link_lost a0)"
    if "?step\<^sup>*\<^sup>* (example_agent dump_script example_store) a0" "linked a0" for a0
  proof -
    have "live_step (script_world dump_script) (EvFrame 1 None) (ag_client a0) = (Some ReadFailed, ag_client a0)" by (simp add: read_step_def)
    from agent_step.Lost [OF _ this] that(2) have "?step a0 (link_lost (a0\<lparr>ag_client := ag_client a0\<rparr>))" by (simp add: linked_def)
    with that(1) show ?thesis by (simp add: rtranclp.rtrancl_into_rtrancl)
  qed
  show "\<exists>(a :: (unit, ref_bucket Store) agent) (b :: (unit, ref_bucket Store) agent) e. ag_link a = Down \<and> tk_phase (ag_tasks a ! 0) = Spawned
      \<and> ag_sent b = [(0, e)] \<and> reports_failure dump_request e"
  proof -
    obtain a0 where a0: "?step\<^sup>*\<^sup>* (example_agent dump_script example_store) a0" "linked a0"
      "ag_tasks a0 = [\<lparr>tk_msg = dump_request, tk_conn = ag_conn a0, tk_phase = Spawned\<rparr>]" "ag_sent a0 = []"
      using dump_requested [of dump_os confirming] by (auto simp: new_tasks_def)
    define a where "a = link_lost a0"
    have a: "?step\<^sup>*\<^sup>* (example_agent dump_script example_store) a" "ag_tasks a = ag_tasks a0" "ag_link a = Down" "ag_sent a = []"
      using lost [OF a0(1,2)] a0(4) by (simp_all add: a_def) (simp_all add: link_lost_def)
    define b where "b = set_phase 0 (Resolved (ag_snap a) (ag_snap a)) a"
    have s1: "?step\<^sup>*\<^sup>* a b" unfolding b_def using a(2) a0(3) by (intro example_lookups) simp_all
    have b: "ag_tasks b = [\<lparr>tk_msg = dump_request, tk_conn = ag_conn a0, tk_phase = Resolved (ag_snap a) (ag_snap a)\<rparr>]" "ag_sent b = []"
      using a a0(3) by (simp_all add: b_def)
    define c where "c = agent_settle_run dump_os (cancelled_put confirming 0) example_pipe 0 (ag_snap a) (ag_snap a) b"
    have "killed_by_ctx dump_os dump_os" unfolding killed_by_ctx_def
      by (rule exI [of _ "os_exec dump_os"], rule exI [of _ "os_cancelled dump_os"]) simp
    then have s2: "?step b c"
      unfolding c_def using a(3) b(1) by (intro agent_step.SettlesCancelled) (simp_all add: example_pipe_fixed ctx_alive_def, simp_all add: b_def)
    obtain res evs x where "c = (set_phase 0 (Returning evs res) b)\<lparr>ag_sys := x, ag_uploads := ag_uploads b @ uploads_of evs\<rparr>"
      unfolding c_def by (rule agent_settle_run_parts)
    with b have c: "ag_tasks c = [\<lparr>tk_msg = dump_request, tk_conn = ag_conn a0, tk_phase = Returning evs res\<rparr>]" "ag_sent c = []" by simp_all
    define d where "d = agent_report (script_world dump_script) (\<lambda>_. []) 2 0 res (agent_return_run 0 evs res c)"
    have "?step\<^sup>*\<^sup>* c d" unfolding d_def using c(1) by (intro example_reports) simp_all
    with s1 s2 have reach: "?step\<^sup>*\<^sup>* a d" by (meson rtranclp.rtrancl_into_rtrancl rtranclp_trans)
    have sent: "ag_sent d = [(0, report_envelope (\<lambda>_. []) 2 dump_request res)]" using c by (simp add: d_def agent_report_parts)
    have k: "0 < length (ag_tasks a)" "ag_link a = Down \<or> tk_conn (ag_tasks a ! 0) < ag_conn a \<or> ag_stopping a"
      "(0, report_envelope (\<lambda>_. []) 2 dump_request res) \<in> set (ag_sent d)"
      using a a0(3) sent by simp_all
    from lost_connection_cancels_backup [OF a(1) k(1,2) reach k(3)] a a0(3) sent show ?thesis
      by (intro exI [of _ a] exI [of _ d]) simp
  qed
  show "\<exists>(a :: (unit, ref_bucket Store) agent) (b :: (unit, ref_bucket Store) agent) evs bc e. ag_link a = Down
      \<and> tk_phase (ag_tasks a ! 0) = Returning evs (Inr bc) \<and> ag_sent b = [(0, e)] \<and> reports_success dump_request e"
  proof -
    obtain a0 bc evs where a0: "?step\<^sup>*\<^sup>* (example_agent dump_script example_store) a0" "linked a0"
      "ag_tasks a0 = [\<lparr>tk_msg = dump_request, tk_conn = ag_conn a0, tk_phase = Returning evs (Inr bc)\<rparr>]" "ag_sent a0 = []"
      using dump_settled by blast
    define a where "a = link_lost a0"
    have a: "?step\<^sup>*\<^sup>* (example_agent dump_script example_store) a" "ag_tasks a = ag_tasks a0" "ag_link a = Down" "ag_sent a = []"
      using lost [OF a0(1,2)] a0(4) by (simp_all add: a_def) (simp_all add: link_lost_def)
    define d where "d = agent_report (script_world dump_script) (\<lambda>_. []) 2 0 (Inr bc) (agent_return_run 0 evs (Inr bc) a)"
    have reach: "?step\<^sup>*\<^sup>* a d" unfolding d_def using a(2) a0(3) by (intro example_reports) simp_all
    have sent: "ag_sent d = [(0, report_envelope (\<lambda>_. []) 2 dump_request (Inr bc))]" using a a0(3) by (simp add: d_def agent_report_parts)
    have k: "0 < length (ag_tasks a)" "ag_link a = Down \<or> tk_conn (ag_tasks a ! 0) < ag_conn a \<or> ag_stopping a"
      "(0, report_envelope (\<lambda>_. []) 2 dump_request (Inr bc)) \<in> set (ag_sent d)"
      using a a0(3) sent by simp_all
    from lost_connection_cancels_backup [OF a(1) k(1,2) reach k(3), of _ _ "Inr bc"] a a0(3) sent show ?thesis
      by (intro exI [of _ a] exI [of _ d] exI [of _ evs] exI [of _ bc]) (simp add: run_result_def)
  qed
qed

text \<open>C31: A run uses configurations the agent has received: what a task looked its job up in shows the
  configuration received last at some moment after its request, and what it looked its target up
  in shows the one received last then or later; the configuration in memory always shows the one
  received last, each id looked up in that one alone, where the last entry with the id counts.\<close>

theorem runs_use_received_config:
  assumes "(agent_step w url_parse os' uploader err_text z sha)\<^sup>*\<^sup>* (agent_init w cfg vars m0 st x) a"
    and "k < length (ag_tasks a)" "tk_phase (ag_tasks a ! k) = Resolved sj st'" "cbs = cl_calls (ag_client a)"
  shows "(\<exists>n m. n \<le> m \<and> m \<le> length cbs \<and> k < length (run_requests (take n cbs))
      \<and> shows_config sj (received_last (take n cbs)) \<and> shows_config st' (received_last (take m cbs)))
    \<and> shows_config (ag_snap a) (received_last cbs)"
proof -
  have inv: "lookups_inv a" by (rule lookups_inv_reach [OF assms(1)])
  then have "looked_up (cl_calls (ag_client a)) k (tk_phase (ag_tasks a ! k))" using assms(2) by (simp add: lookups_inv_def)
  then have "looked_up cbs k (Resolved sj st')" unfolding assms(3,4) .
  then obtain n m where "n \<le> m" "m \<le> length cbs" "k < length (run_requests (take n cbs))"
    "sj = latest_config (take n cbs)" "st' = latest_config (take m cbs)" by auto
  moreover have "ag_snap a = latest_config cbs" using inv assms(4) by (simp add: lookups_inv_def)
  ultimately show ?thesis using latest_config_shows by metis
qed

text \<open>In the example a second configuration, without jobs, comes in after the job was looked up.\<close>

theorem runs_use_received_config_witness:
  "\<exists>(a :: (unit, ref_bucket Store) agent) sj st. tk_phase (ag_tasks a ! 0) = Resolved sj st
    \<and> configSnapshot_Job sj ''j'' = Some (example_job [] []) \<and> configSnapshot_Job sj ''x'' = None \<and> configSnapshot_Job (ag_snap a) ''j'' = None"
proof -
  let ?step = "example_step dump_script dump_os confirming"
  obtain a where a: "?step\<^sup>*\<^sup>* (example_agent dump_script example_store) a" "linked a"
    "ag_tasks a = [\<lparr>tk_msg = dump_request, tk_conn = ag_conn a, tk_phase = Spawned\<rparr>]"
    "cl_calls (ag_client a) = [CbConfigUpdate (Some \<lparr>cu_Config = Some dump_config\<rparr>), CbRunBackup (Some dump_request)]"
    using dump_requested [of dump_os confirming] by (auto simp: new_tasks_def)
  define b where "b = set_phase 0 (Resolved (ag_snap a) (ag_snap a)) a"
  have "?step\<^sup>*\<^sup>* a b" unfolding b_def using a(3) by (intro example_lookups) simp_all
  with a(1) have reach_b: "?step\<^sup>*\<^sup>* (example_agent dump_script example_store) b" by (rule rtranclp_trans)
  have b: "0 < length (ag_tasks b)" "tk_phase (ag_tasks b ! 0) = Resolved (ag_snap a) (ag_snap a)" "linked b"
    "cl_calls (ag_client b) = [CbConfigUpdate (Some \<lparr>cu_Config = Some dump_config\<rparr>), CbRunBackup (Some dump_request)]"
    using a(2-4) by (simp_all add: b_def linked_def)
  from runs_use_received_config [OF reach_b b(1,2) refl] obtain n m where nm: "n \<le> m" "m \<le> length (cl_calls (ag_client b))"
    "0 < length (run_requests (take n (cl_calls (ag_client b))))" "shows_config (ag_snap a) (received_last (take n (cl_calls (ag_client b))))"
    by blast
  have n: "n \<le> 2" "0 < length (run_requests (take n (cl_calls (ag_client b))))"
    "shows_config (ag_snap a) (received_last (take n (cl_calls (ag_client b))))"
    using nm b(4) by simp_all
  have "n = 2"
  proof (rule ccontr)
    assume "n \<noteq> 2"
    with n(1) have "n = 0 \<or> n = 1" by auto
    with n(2) b(4) show False by auto
  qed
  with n(3) b(4) have "shows_config (ag_snap a) (Some dump_config)"
    by (simp add: received_last_def configs_in_def List.map_filter_def)
  then have sj: "configSnapshot_Job (ag_snap a) ''j'' = Some (example_job [] [])" "configSnapshot_Job (ag_snap a) ''x'' = None"
    by (simp_all add: shows_config_def dump_config_def example_job_def)
  have script: "dump_script [3] = Some (PConfigUpdate (Some \<lparr>cu_Config = Some no_jobs\<rparr>))" by (simp add: dump_script_def)
  obtain c where c: "?step b c" "cl_calls (ag_client c) = cl_calls (ag_client b) @ [CbConfigUpdate (Some \<lparr>cu_Config = Some no_jobs\<rparr>)]"
    "ag_tasks c = ag_tasks b"
    using example_receives [where f = dump_script and d = "[3]" and cb = "CbConfigUpdate (Some \<lparr>cu_Config = Some no_jobs\<rparr>)"
        and os' = dump_os and up = confirming, OF b(3) script] by (auto simp: new_tasks_def)
  from reach_b c(1) have reach_c: "?step\<^sup>*\<^sup>* (example_agent dump_script example_store) c" by (rule rtranclp.rtrancl_into_rtrancl)
  have "shows_config (ag_snap c) (Some no_jobs)"
    using runs_use_received_config [OF reach_c b(1,2) [folded c(3)] refl] c(2) by (simp add: received_last_def)
  then have "configSnapshot_Job (ag_snap c) ''j'' = None" by (simp add: shows_config_def no_jobs_def)
  with sj b(2) c(3) show ?thesis by (intro exI [of _ c]) auto
qed

text \<open>C32: A run can mix two configurations: the job and the target are looked up one after the other, so that an
  update that arrives in between pairs the job of the old configuration with the targets of the
  new one, and fails the run if the target of that job is no longer there.\<close>

theorem config_can_change_between_lookups:
  assumes "k < length (ag_tasks a)" "tk_phase (ag_tasks a ! k) = Spawned" "ag_link a = Up"
    and "live_step w ev (ag_client a) = (None, c)" "cl_calls c = cl_calls (ag_client a) @ [CbConfigUpdate (Some \<lparr>cu_Config = Some new\<rparr>)]"
    and "configSnapshot_Job (ag_snap a) (rb_JobId (tk_msg (ag_tasks a ! k))) = Some job"
    and "bj_TargetId job \<notin> tg_Id ` set (ac_Targets new)"
  shows "\<exists>b. (agent_step w url_parse os' uploader err_text z sha)\<^sup>*\<^sup>* a b
    \<and> tk_phase (ag_tasks b ! k) = Resolved (ag_snap a) (configSnapshot_Set (ag_snap a) new)
    \<and> resolve (agent_runner os' uploader (ag_snap a) (configSnapshot_Set (ag_snap a) new)) (tk_msg (ag_tasks a ! k))
        = Inl (UnknownTarget (rb_JobId (tk_msg (ag_tasks a ! k))))"
proof -
  let ?step = "agent_step w url_parse os' uploader err_text z sha"
  let ?a1 = "set_phase k (JobRead (ag_snap a)) a" and ?cb = "CbConfigUpdate (Some \<lparr>cu_Config = Some new\<rparr>)"
  have s1: "?step a ?a1" by (rule agent_step.LooksUpJob [OF assms(1,2)])
  define a2 where "a2 = ?a1\<lparr>ag_client := c, ag_snap := configSnapshot_Set (ag_snap a) new\<rparr>"
  have "agent_deliver c ?a1 = Some a2" using assms(5) by (simp add: agent_deliver_def agent_callback_def a2_def)
  with assms(3,4) have s2: "?step ?a1 a2" by (intro agent_step.Live) simp_all
  have k: "k < length (ag_tasks a2)" "tk_phase (ag_tasks a2 ! k) = JobRead (ag_snap a)" using assms(1) by (simp_all add: a2_def)
  from s1 s2 agent_step.LooksUpTarget [OF k]
  have "?step\<^sup>*\<^sup>* a (set_phase k (Resolved (ag_snap a) (ag_snap a2)) a2)" by (meson converse_rtranclp_into_rtranclp r_into_rtranclp)
  moreover have "ag_snap a2 = configSnapshot_Set (ag_snap a) new" by (simp add: a2_def)
  moreover have "configSnapshot_Target (configSnapshot_Set (ag_snap a) new) (bj_TargetId job) = None"
    using assms(7) by (auto simp: configSnapshot_Target_def configSnapshot_Set_def foldl_upd_map_of map_of_eq_None_iff)
  then have "resolve (agent_runner os' uploader (ag_snap a) (configSnapshot_Set (ag_snap a) new)) (tk_msg (ag_tasks a ! k))
      = Inl (UnknownTarget (rb_JobId (tk_msg (ag_tasks a ! k))))"
    using assms(6) by (simp add: resolve_def agent_runner_def NewRunner_def WithTargetLookup_def WithJobLookup_def)
  ultimately show ?thesis using k(1) by (intro exI [of _ "set_phase k (Resolved (ag_snap a) (ag_snap a2)) a2"]) simp
qed

theorem config_can_change_between_lookups_witness:
  "\<exists>(a :: (unit, ref_bucket Store) agent) (b :: (unit, ref_bucket Store) agent). tk_phase (ag_tasks a ! 0) = Spawned
    \<and> tk_phase (ag_tasks b ! 0) = Resolved (ag_snap a) (configSnapshot_Set (ag_snap a) no_jobs)"
proof -
  obtain a where a: "linked a" "ag_tasks a = [\<lparr>tk_msg = dump_request, tk_conn = ag_conn a, tk_phase = Spawned\<rparr>]"
    "ag_snap a = configSnapshot_Set newConfigSnapshot dump_config"
    using dump_requested [of dump_os confirming] by (auto simp: new_tasks_def)
  obtain c where c: "live_step (script_world dump_script) (EvFrame 1 (Some (True, [3]))) (ag_client a) = (None, c)"
    "cl_calls c = cl_calls (ag_client a) @ [CbConfigUpdate (Some \<lparr>cu_Config = Some no_jobs\<rparr>)]"
    by (simp add: read_step_def script_codec_def dump_script_def dispatch_def agent_handlers_def cb_err_def call_def)
  have "\<exists>b. (example_step dump_script dump_os confirming)\<^sup>*\<^sup>* a b
    \<and> tk_phase (ag_tasks b ! 0) = Resolved (ag_snap a) (configSnapshot_Set (ag_snap a) no_jobs)
    \<and> resolve (agent_runner dump_os confirming (ag_snap a) (configSnapshot_Set (ag_snap a) no_jobs)) (tk_msg (ag_tasks a ! 0))
        = Inl (UnknownTarget (rb_JobId (tk_msg (ag_tasks a ! 0))))"
    by (rule config_can_change_between_lookups [OF _ _ _ c, where job = "example_job [] []"])
       (use a in \<open>simp_all add: linked_def no_jobs_def configSnapshot_Job_def configSnapshot_Set_def dump_config_def example_job_def example_request_def\<close>)
  then obtain b :: "(unit, ref_bucket Store) agent" where "tk_phase (ag_tasks b ! 0) = Resolved (ag_snap a) (configSnapshot_Set (ag_snap a) no_jobs)" by blast
  moreover have "tk_phase (ag_tasks a ! 0) = Spawned" using a(2) by simp
  ultimately show ?thesis by blast
qed

text \<open>C33: The metrics tell the truth: in every reachable state exactly one of the three gauges of the connection
  state is 1, it is the one of \<open>connected\<close> exactly when the handshake of the current connection has
  succeeded, the reconnect counter is that of the client, and the counters of a job count its
  finished runs, by outcome, of all requests that came with upload credentials.\<close>

theorem metrics_tell_the_truth:
  assumes "(agent_step w url_parse os' uploader err_text z sha)\<^sup>*\<^sup>* (agent_init w cfg vars fresh_metrics st x) a"
  shows "(\<exists>s \<in> set wss_states. gauge_is s (ag_metrics a) \<and> (s = ''connected'' \<longleftrightarrow> ag_link a \<noteq> Down))
    \<and> of_nat (mt_WSSReconnects (ag_metrics a)) = ReconnectCount (ag_client a)
    \<and> mt_RunsTotal (ag_metrics a) (j, ''success'') = length (filter (counted j True) (ag_tasks a))
    \<and> mt_RunsTotal (ag_metrics a) (j, ''failure'') = length (filter (counted j False) (ag_tasks a))"
  using metrics_reach [OF assms]
  by (auto simp: link_shown_def runs_counted_def ReconnectCount_def wss_states_def split: if_splits)

theorem metrics_tell_the_truth_witness:
  "\<exists>a :: (unit, ref_bucket Store) agent. mt_RunsTotal (ag_metrics a) (''j'', ''success'') = 1 \<and> mt_RunsTotal (ag_metrics a) (''j'', ''failure'') = 0"
proof -
  obtain a bc where a: "(example_step dump_script dump_os confirming)\<^sup>*\<^sup>* (example_agent dump_script example_store) a"
    "tk_phase (ag_tasks a ! 0) = Reported (buildBackupCompleted 2 bc)" "length (ag_tasks a) = 1" "tk_msg (ag_tasks a ! 0) = dump_request"
    using dump_reported by blast
  from a(3) obtain t where t: "ag_tasks a = [t]" by (auto simp: length_Suc_conv)
  with a(2,4) have c: "counted ''j'' True t" "\<not> counted ''j'' False t"
    by (simp_all add: counted_def outcome_def buildBackupCompleted_def has_creds_def example_request_def)
  from metrics_tell_the_truth [OF a(1), of "''j''"] t c show ?thesis by (intro exI [of _ a]) simp
qed

text \<open>C6: A backup gets all the way to the server: when a connected agent whose channel is empty holds a request
  and nothing on the way fails (the job resolves, hooks, programs, pipes and object store work,
  messages can be marshalled and written), then a run of the agent ends with the completed backup,
  with the ids of the request, written to the connection.\<close>

theorem backup_reaches_server:
  assumes "k < length (ag_tasks a)" "tk_phase (ag_tasks a ! k) = Spawned" "ctx_alive a (ag_tasks a ! k)" "cl_out (ag_client a) = Some []"
    and "rq = tk_msg (ag_tasks a ! k)" "resolve (agent_runner os' uploader (ag_snap a) (ag_snap a)) rq = Inr (job, t)"
    and "agent_drivers os' (dbTypeKey (tg_Type t)) = Some d" "rb_UploadCreds rq = Some creds" "up_PresignedPutUrl creds \<noteq> []"
    and "rb_EncryptedDek rq = [] \<or> length (rb_EncryptedDek rq) = 32" "working_pipe pe" "pre_hooks_pass pe job"
    and "\<And>tmo pr. \<exists>st. uploader tmo pr = PutResponse st (length (pr_body pr)) \<and> st div 100 = 2"
    and "drv_Validate d (ag_sys a) (Some t) = (None, x1)" "drv_Dump d x1 (Some t) (pipe_writer None) = (Inr info, dump, x2)"
    and "smokeValidatedReader (reader_of (wr_data dump)) (drv_Name d) = None" "\<And>e. marshal_env (w_codec w) e \<noteq> None"
  shows "\<exists>b e bc. (agent_step w url_parse os' uploader err_text (pe_zstd pe) (pe_sha256 pe))\<^sup>*\<^sup>* a b
    \<and> cl_wire (ag_client b) = cl_wire (ag_client a) @ [e] \<and> env_Payload e = Some (PBackupCompleted (Some bc))
    \<and> bc_JobId bc = rb_JobId rq \<and> bc_RunId bc = rb_RunId rq"
proof -
  let ?step = "agent_step w url_parse os' uploader err_text (pe_zstd pe) (pe_sha256 pe)" and ?s = "ag_snap a"
  let ?a1 = "set_phase k (JobRead ?s) a"
  have s1: "?step a ?a1" by (rule agent_step.LooksUpJob [OF assms(1,2)])
  define a2 where "a2 = set_phase k (Resolved ?s ?s) ?a1"
  have s2: "?step ?a1 a2" unfolding a2_def using agent_step.LooksUpTarget [of k ?a1 ?s] assms(1) by simp
  have a2: "k < length (ag_tasks a2)" "tk_phase (ag_tasks a2 ! k) = Resolved ?s ?s" "tk_msg (ag_tasks a2 ! k) = rq"
    "ag_sys a2 = ag_sys a" "ctx_alive a2 (ag_tasks a2 ! k)"
    using assms(1,3,5) by (simp_all add: a2_def ctx_alive_def)
  have r: "rn_drivers (agent_runner os' uploader ?s ?s) = agent_drivers os'" "rn_dekResolver (agent_runner os' uploader ?s ?s) = passthroughDEK"
    by (simp_all add: agent_runner_def NewRunner_def WithTargetLookup_def WithJobLookup_def)
  have "\<exists>bc evs. Runner_Run (agent_runner os' uploader ?s ?s) pe (ag_sys a) (Some rq) = (Inr bc, evs, x2) \<and> bc_JobId bc = rb_JobId rq \<and> bc_RunId bc = rb_RunId rq"
    by (rule run_works [OF assms(6) _ assms(8,9) uploader_agent_runner r(2) assms(10-16)]) (simp add: r(1) assms(7))
  then obtain bc evs where run: "Runner_Run (agent_runner os' uploader ?s ?s) pe (ag_sys a2) (Some (tk_msg (ag_tasks a2 ! k))) = (Inr bc, evs, x2)"
    "bc_JobId bc = rb_JobId rq" "bc_RunId bc = rb_RunId rq"
    unfolding a2(3,4) by blast
  define a2' where "a2' = agent_settle_run os' uploader pe k ?s ?s a2"
  have s3: "?step a2 a2'" unfolding a2'_def using a2 by (intro agent_step.Settles) simp_all
  have a2': "k < length (ag_tasks a2')" "tk_phase (ag_tasks a2' ! k) = Returning evs (Inr bc)" "ag_client a2' = ag_client a" "ag_link a2' = Up"
    using run(1) a2(1) assms(3) by (simp_all add: a2'_def agent_settle_run_def ctx_alive_def) (simp_all add: a2_def)
  define a3 where "a3 = agent_return_run k evs (Inr bc) a2'"
  have s3': "?step a2' a3" unfolding a3_def by (rule agent_step.Returns [OF a2'(1,2)])
  have a3: "k < length (ag_tasks a3)" "tk_phase (ag_tasks a3 ! k) = RunDone (Inr bc)" "ag_client a3 = ag_client a" "ag_link a3 = Up"
    using a2' by (simp_all add: a3_def)
  define a4 where "a4 = agent_report w err_text 0 k (Inr bc) a3"
  have s4: "?step a3 a4" unfolding a4_def by (rule agent_step.Reports [OF a3(1,2)])
  obtain e1 c1 where st: "stamp 0 (ag_client a) (buildBackupCompleted 0 bc) = (e1, c1)" by fastforce
  have pay: "env_Payload (buildBackupCompleted 0 bc) = Some (PBackupCompleted (Some bc))" by (simp add: buildBackupCompleted_def)
  have e1: "env_Payload e1 = Some (PBackupCompleted (Some bc))" "cl_out c1 = Some []" "cl_wire c1 = cl_wire (ag_client a)"
    using stamp_body(2) [of 0 "ag_client a" "buildBackupCompleted 0 bc"] stamp_id [of 0 "ag_client a" "buildBackupCompleted 0 bc"] st assms(4)
    by (simp_all add: pay)
  have a4: "ag_client a4 = c1\<lparr>cl_out := Some [e1]\<rparr>" "ag_link a4 = Up"
    using a3(3,4) st e1(2) by (simp_all add: a4_def agent_report_def report_envelope_def Client_Send_def outCap_def Let_def)
  obtain e2 c2 where st2: "stamp 0 (c1\<lparr>cl_out := Some []\<rparr>) e1 = (e2, c2)" by fastforce
  have e2: "env_Payload e2 = Some (PBackupCompleted (Some bc))" "cl_wire c2 = cl_wire (ag_client a)" "cl_calls c2 = cl_calls c1"
    using stamp_body(2) [of 0 "c1\<lparr>cl_out := Some []\<rparr>" e1] stamp_id [of 0 "c1\<lparr>cl_out := Some []\<rparr>" e1] calls_stamp [of 0 "c1\<lparr>cl_out := Some []\<rparr>" e1]
      st2 e1 by simp_all
  obtain raw where "marshal_env (w_codec w) e2 = Some raw" using assms(17) [of e2] by blast
  then have w: "live_step w (EvWrite 0 True) (ag_client a4) = (None, c2\<lparr>cl_wire := cl_wire c2 @ [e2]\<rparr>)"
    using st2 by (simp add: a4(1) write_step_def)
  have "agent_deliver (c2\<lparr>cl_wire := cl_wire c2 @ [e2]\<rparr>) a4 = Some (a4\<lparr>ag_client := c2\<lparr>cl_wire := cl_wire c2 @ [e2]\<rparr>\<rparr>)"
    by (simp add: agent_deliver_def a4(1) e2(3))
  then have s5: "?step a4 (a4\<lparr>ag_client := c2\<lparr>cl_wire := cl_wire c2 @ [e2]\<rparr>\<rparr>)" by (rule agent_step.Live [OF a4(2) w])
  from s1 s2 s3 s3' s4 s5 have "?step\<^sup>*\<^sup>* a (a4\<lparr>ag_client := c2\<lparr>cl_wire := cl_wire c2 @ [e2]\<rparr>\<rparr>)"
    by (meson converse_rtranclp_into_rtranclp r_into_rtranclp)
  with e2(1,2) run(2,3) show ?thesis by (intro exI [of _ "a4\<lparr>ag_client := c2\<lparr>cl_wire := cl_wire c2 @ [e2]\<rparr>\<rparr>"] exI [of _ e2] exI [of _ bc]) simp
qed

theorem backup_reaches_server_witness:
  "\<exists>(a :: (unit, ref_bucket Store) agent) (b :: (unit, ref_bucket Store) agent) e bc. tk_phase (ag_tasks a ! 0) = Spawned
    \<and> cl_wire (ag_client b) = cl_wire (ag_client a) @ [e] \<and> env_Payload e = Some (PBackupCompleted (Some bc)) \<and> bc_JobId bc = ''j''"
proof -
  obtain a where a: "linked a" "ag_tasks a = [\<lparr>tk_msg = dump_request, tk_conn = ag_conn a, tk_phase = Spawned\<rparr>]"
    "ag_snap a = configSnapshot_Set newConfigSnapshot dump_config"
    using dump_requested [of dump_os confirming] by (auto simp: new_tasks_def)
  obtain info where works: "drv_Validate (NewPgDump dump_os) () (Some example_pg_target) = (None, ())"
    "drv_Dump (NewPgDump dump_os) () (Some example_pg_target) (pipe_writer None) =
      (Inr info, wr_append (pipe_writer None) (bytes_of_string ''PGDMP pg_dump''), ())"
    "smokeValidatedReader (reader_of (wr_data (wr_append (pipe_writer None) (bytes_of_string ''PGDMP pg_dump''))))
      (drv_Name (NewPgDump dump_os)) = None"
    "agent_drivers dump_os (dbTypeKey (tg_Type example_pg_target)) = Some (NewPgDump dump_os)"
    by (rule dump_driver_works)
  have snap: "resolve (agent_runner dump_os confirming (ag_snap a) (ag_snap a)) dump_request = Inr (Some (example_job [] []), example_pg_target)"
    unfolding a(3) by (rule dump_snapshot)
  have first: "0 < length (ag_tasks a)" "tk_phase (ag_tasks a ! 0) = Spawned" "ctx_alive a (ag_tasks a ! 0)" "cl_out (ag_client a) = Some []"
    "dump_request = tk_msg (ag_tasks a ! 0)"
    using a(1,2) by (simp_all add: ctx_alive_def linked_def)
  have "\<exists>b e bc. (agent_step (script_world dump_script) (ho_url example_host) dump_os confirming (\<lambda>_. []) (pe_zstd example_pipe) (pe_sha256 example_pipe))\<^sup>*\<^sup>* a b
    \<and> cl_wire (ag_client b) = cl_wire (ag_client a) @ [e] \<and> env_Payload e = Some (PBackupCompleted (Some bc))
    \<and> bc_JobId bc = rb_JobId dump_request \<and> bc_RunId bc = rb_RunId dump_request"
    by (rule backup_reaches_server [OF first snap works(4) _ _ _ example_pipe_works _ _ _ works(3)])
       (use works in \<open>simp_all add: confirming_def script_codec_def\<close>, simp_all)
  then obtain b :: "(unit, ref_bucket Store) agent" and e bc where "cl_wire (ag_client b) = cl_wire (ag_client a) @ [e]"
    "env_Payload e = Some (PBackupCompleted (Some bc))" "bc_JobId bc = rb_JobId dump_request" by blast
  moreover from this(3) have "bc_JobId bc = ''j''" by (simp add: example_request_def)
  ultimately show ?thesis using first(2) by blast
qed

text \<open>C34: A restarted agent forgets its configuration but not its version: it registers with the version of
  the stored configuration, so the server can tell that no update is needed, while until a
  configuration arrives every backup it is asked for is reported as failed.\<close>

theorem restarted_agent_forgets_config:
  assumes "LoadConfig B st = Inr (v, raw)"
    and "(agent_step (agent_world P B hn goos goarch) url_parse os' uploader err_text z sha)\<^sup>*\<^sup>*
           (agent_init (agent_world P B hn goos goarch) cfg vars m st x) a"
    and "no_config (cl_calls (ag_client a))"
  shows "(\<exists>rg. env_Payload (register_env now (ag_client (agent_init (agent_world P B hn goos goarch) cfg vars m st x))) =
      Some (PRegister (Some rg)) \<and> rg_LastKnownConfigVersion rg = v)
    \<and> (\<forall>(k, e) \<in> set (ag_sent a). reports_failure (tk_msg (ag_tasks a ! k)) e)"
proof -
  have inv: "unconfigured_inv a" by (rule unconfigured_inv_reach [OF assms(2)])
  have "reports_failure (tk_msg (ag_tasks a ! k)) e" if "(k, e) \<in> set (ag_sent a)" for k e
  proof -
    have "k < length (ag_tasks a)" "tk_phase (ag_tasks a ! k) = Reported e"
      using inv that by (auto simp: unconfigured_inv_def lookups_inv_def tasks_inv_def)
    moreover from this have "failing (ag_tasks a ! k)" using inv assms(3) by (simp add: unconfigured_inv_def)
    ultimately show ?thesis by (simp add: failing_def)
  qed
  moreover have "\<exists>rg. env_Payload (register_env now (ag_client (agent_init (agent_world P B hn goos goarch) cfg vars m st x))) =
      Some (PRegister (Some rg)) \<and> rg_LastKnownConfigVersion rg = v"
    using assms(1) by (simp add: register_env_def agent_init_def NewClient_def agent_world_def store_ops_def Let_def)
  ultimately show ?thesis by blast
qed

theorem restarted_agent_forgets_config_witness:
  "\<exists>st (a :: (unit, ref_bucket Store) agent) rg e. LoadConfig ref_bolt st = Inr (7, [1, 2])
    \<and> env_Payload (register_env 5 (ag_client (example_agent [[0] \<mapsto> PRegisterAck (Some hello), [2] \<mapsto> PRunBackup (Some dump_request)] st))) = Some (PRegister (Some rg))
    \<and> rg_LastKnownConfigVersion rg = 7 \<and> ag_sent a = [(0, e)] \<and> reports_failure dump_request e"
proof -
  let ?f = "[[0] \<mapsto> PRegisterAck (Some hello), [2] \<mapsto> PRunBackup (Some dump_request)] :: bytes \<rightharpoonup> payload"
  let ?step = "example_step ?f dump_os confirming"
  obtain st where saved: "SaveConfig ref_bolt example_store 7 [1, 2] = (Inr (), st)" using example_SaveConfig by blast
  with ref_bolt.config_saved [OF example_store_ok] have st: "LoadConfig ref_bolt st = Inr (7, [1, 2])" by blast
  have queue: "queue_inv ref_bolt ref_ok st \<and> pending_jobs ref_bolt st = []"
  proof -
    have ok: "buckets_ok ref_ok (st_db example_store)" "aead_laws (st_aead example_store)" using example_store_ok by (simp_all add: store_ok_def)
    have ch: "changes_bucket bktConfig example_store (\<lambda>b x b'. ref_ok b') (Inr (), st)"
      by (rule changes_bucket_mono [OF ref_bolt.SaveConfig_changes [OF ok, of "[1, 2]" 7, unfolded saved]]) blast
    have same: "st_db st bktQueue = st_db example_store bktQueue" "st_aead st = st_aead example_store"
      using changes_other_bucket [OF ch, of bktQueue] ch by (simp_all add: bktConfig_def bktQueue_def changes_bucket_def)
    have "store_ok ref_ok st" by (rule changes_store_ok [OF ch example_store_ok]) simp_all
    with same example_queue_inv show ?thesis
      by (simp add: queue_inv_def pending_jobs_def cong: option.case_cong) (simp add: ref_bolt_def)
  qed
  obtain a0 where a0: "?step\<^sup>*\<^sup>* (example_agent ?f st) a0" "linked a0" "ag_tasks a0 = []" "ag_sent a0 = []" "cl_calls (ag_client a0) = []"
    "ag_snap a0 = newConfigSnapshot"
    using example_connects [of ?f st dump_os confirming] queue by auto
  obtain a1 where a1: "?step a0 a1" "linked a1" "ag_tasks a1 = [\<lparr>tk_msg = dump_request, tk_conn = ag_conn a1, tk_phase = Spawned\<rparr>]"
    "ag_sent a1 = []" "cl_calls (ag_client a1) = [CbRunBackup (Some dump_request)]"
    using example_receives [where f = ?f and d = "[2]" and cb = "CbRunBackup (Some dump_request)" and os' = dump_os and up = confirming
        and p = "PRunBackup (Some dump_request)", OF a0(2)] a0(3-6) by (auto simp: new_tasks_def)
  define b where "b = set_phase 0 (Resolved (ag_snap a1) (ag_snap a1)) a1"
  have s1: "?step\<^sup>*\<^sup>* a1 b" unfolding b_def using a1(3) by (intro example_lookups) simp_all
  have b: "ag_tasks b = [\<lparr>tk_msg = dump_request, tk_conn = ag_conn a1, tk_phase = Resolved (ag_snap a1) (ag_snap a1)\<rparr>]" "ag_sent b = []"
    "ctx_alive b (ag_tasks b ! 0)" "cl_calls (ag_client b) = [CbRunBackup (Some dump_request)]"
    using a1 by (simp_all add: b_def ctx_alive_def linked_def)
  define c where "c = agent_settle_run dump_os confirming example_pipe 0 (ag_snap a1) (ag_snap a1) b"
  have s2: "?step b c" unfolding c_def using b by (intro agent_step.Settles) (simp_all add: example_pipe_fixed)
  obtain res evs x where "c = (set_phase 0 (Returning evs res) b)\<lparr>ag_sys := x, ag_uploads := ag_uploads b @ uploads_of evs\<rparr>"
    unfolding c_def by (rule agent_settle_run_parts)
  with b have c: "ag_tasks c = [\<lparr>tk_msg = dump_request, tk_conn = ag_conn a1, tk_phase = Returning evs res\<rparr>]" "ag_sent c = []"
    "cl_calls (ag_client c) = [CbRunBackup (Some dump_request)]" by simp_all
  define d where "d = agent_report (script_world ?f) (\<lambda>_. []) 2 0 res (agent_return_run 0 evs res c)"
  have s3: "?step\<^sup>*\<^sup>* c d" unfolding d_def using c(1) by (intro example_reports) simp_all
  from a0(1) a1(1) s1 s2 s3 have reach: "?step\<^sup>*\<^sup>* (example_agent ?f st) d" by (meson rtranclp.rtrancl_into_rtrancl rtranclp_trans)
  have d: "no_config (cl_calls (ag_client d))" "ag_sent d = [(0, report_envelope (\<lambda>_. []) 2 dump_request res)]" "tk_msg (ag_tasks d ! 0) = dump_request"
    using c by (simp_all add: d_def agent_report_parts no_config_def)
  from restarted_agent_forgets_config [OF st reach [unfolded script_world_def] d(1), of 5] st d(2,3) show ?thesis
    by (fastforce simp: script_world_def)
qed

text \<open>C36: A report can be lost for good: if the connection has room on its channel when a task reports and breaks
  before the writer gets there, the report is neither on the wire nor on the channel nor in the
  state file, and the task is over.\<close>

theorem report_lost_with_connection:
  assumes "k < length (ag_tasks a)" "tk_phase (ag_tasks a ! k) = RunDone res" "ag_link a = Up" "\<not> ag_stopping a"
    and "cl_out (ag_client a) = Some out" "length out < 64"
    and b_def: "b = link_lost (agent_report w err_text now k res a)"
  shows "(agent_step w url_parse os' uploader err_text z sha)\<^sup>*\<^sup>* a b
    \<and> (\<exists>e. ag_sent b = ag_sent a @ [(k, e)] \<and> tk_phase (ag_tasks b ! k) = Reported e) \<and> cl_wire (ag_client b) = cl_wire (ag_client a)
    \<and> cl_out (ag_client b) = None \<and> cl_disk (ag_client b) = cl_disk (ag_client a)"
proof -
  let ?step = "agent_step w url_parse os' uploader err_text z sha" and ?r = "agent_report w err_text now k res a"
  have send: "cl_wire (snd (Client_Send w now (ag_client a) (Some e))) = cl_wire (ag_client a)
      \<and> cl_disk (snd (Client_Send w now (ag_client a) (Some e))) = cl_disk (ag_client a)" for e
  proof -
    obtain e1 c1 where st: "stamp now (ag_client a) e = (e1, c1)" by fastforce
    with stamp_id [of now "ag_client a" e] assms(5,6) show ?thesis by (simp add: Client_Send_def outCap_def)
  qed
  have s1: "?step a ?r" by (rule agent_step.Reports [OF assms(1,2)])
  have "live_step w (EvFrame now None) (ag_client ?r) = (Some ReadFailed, ag_client ?r)" by (simp add: read_step_def)
  from agent_step.Lost [OF _ this] assms(3,4) have "?step ?r (link_lost (?r\<lparr>ag_client := ag_client ?r\<rparr>))" by (simp add: agent_report_parts)
  then have s2: "?step ?r b" by (simp add: b_def)
  have client: "ag_client ?r = snd (Client_Send w now (ag_client a) (Some (report_envelope err_text now (tk_msg (ag_tasks a ! k)) res)))"
    by (simp add: agent_report_def Let_def)
  have b: "ag_sent b = ag_sent ?r" "ag_tasks b = ag_tasks ?r" "cl_wire (ag_client b) = cl_wire (ag_client ?r)" "cl_out (ag_client b) = None"
    "cl_disk (ag_client b) = cl_disk (ag_client ?r)"
    by (simp_all add: b_def link_lost_def disconnect_def)
  from s1 s2 have "?step\<^sup>*\<^sup>* a b" by (meson converse_rtranclp_into_rtranclp r_into_rtranclp)
  then show ?thesis using b assms(1) send by (simp add: client agent_report_parts)
qed

theorem report_lost_with_connection_witness:
  "\<exists>(a :: (unit, ref_bucket Store) agent) (b :: (unit, ref_bucket Store) agent). tk_phase (ag_tasks a ! 0) = RunDone (Inl UnwrapDEK) \<and> cl_out (ag_client a) = Some []
    \<and> length (ag_sent b) = 1 \<and> cl_wire (ag_client b) = cl_wire (ag_client a) \<and> cl_out (ag_client b) = None
    \<and> cl_disk (ag_client b) = cl_disk (ag_client a)"
proof -
  obtain a0 where a0: "linked a0" "ag_tasks a0 = [\<lparr>tk_msg = dump_request, tk_conn = ag_conn a0, tk_phase = Spawned\<rparr>]" "ag_sent a0 = []"
    using dump_requested [of dump_os confirming] by (auto simp: new_tasks_def)
  define a where "a = set_phase 0 (RunDone (Inl UnwrapDEK)) a0"
  have a: "0 < length (ag_tasks a)" "tk_phase (ag_tasks a ! 0) = RunDone (Inl UnwrapDEK)" "ag_link a = Up" "\<not> ag_stopping a"
    "cl_out (ag_client a) = Some []" "length ([] :: Envelope list) < 64" "ag_sent a = []"
    using a0 by (simp_all add: a_def linked_def)
  define b where "b = link_lost (agent_report (script_world dump_script) (\<lambda>_. []) 2 0 (Inl UnwrapDEK) a)"
  from report_lost_with_connection [OF a(1-6) b_def, of "\<lambda>_. None" dump_os confirming plain_zstd id]
  obtain e where "ag_sent b = ag_sent a @ [(0, e)]" "cl_wire (ag_client b) = cl_wire (ag_client a)" "cl_out (ag_client b) = None"
    "cl_disk (ag_client b) = cl_disk (ag_client a)" by blast
  moreover from this(1) a(7) have "length (ag_sent b) = 1" by simp
  ultimately show ?thesis using a(2,5) by blast
qed

end
