(* ===== verification/Command_Props.thy ===== *)
theory Command_Props
  imports Agent_Example
begin

text \<open>
  Properties of the commands: the address a validated configuration leads to, the health check
  beside a running agent, and what a dump of the state hides.
\<close>

section \<open>Two processes on one state file\<close>

text \<open>
  What a second process finds (\<open>opener\<close>, where the file alone would give \<open>alone\<close>) while the first holds
  the file for another \<open>held\<close> nanoseconds. bbolt takes an exclusive lock on the file, and its \<open>Timeout\<close>
  is the time to wait for it: an \<open>Open\<close> whose time-out is over before gives up, one whose time-out is
  longer by more than the interval at which bbolt tries again (fifty milliseconds; a hundred are
  allowed for) gets the file, as does one without a time-out, which waits for as long as it takes.
\<close>

definition file_held :: "string \<Rightarrow> int \<Rightarrow> (string \<Rightarrow> int \<Rightarrow> 'b db option) \<Rightarrow> (string \<Rightarrow> int \<Rightarrow> 'b db option) \<Rightarrow> bool" where
  "file_held path held opener alone \<longleftrightarrow>
     (\<forall>timeout. 0 < timeout \<and> timeout \<le> held \<longrightarrow> opener path timeout = None)
     \<and> (\<forall>timeout. timeout = 0 \<or> held + 100000000 \<le> timeout \<longrightarrow> opener path timeout = alone path timeout)"

lemma Store_Open_parts:
  assumes "Store_Open B hkdf bolt_open rand disk path timeout agentKey = Inr s"
  shows "opener (st_path s) (if timeout = 0 then 5 * 1000000000 else timeout) = None
      \<Longrightarrow> Store_Open B hkdf opener rand disk path timeout agentKey = Inl OpenBolt"
    and "opener (st_path s) (if timeout = 0 then 5 * 1000000000 else timeout) = bolt_open (st_path s) (if timeout = 0 then 5 * 1000000000 else timeout)
      \<Longrightarrow> Store_Open B hkdf opener rand disk path timeout agentKey = Inr s"
  using assms by (auto simp: Store_Open_def ensureBuckets_def db_update_def Let_def split: sum.splits option.splits if_splits)

section \<open>Properties\<close>

text \<open>The address an accepted configuration leads to: after a successful \<open>Load\<close> the client never fails to
  build its URL, the host is set, the path ends in the endpoint, and the connection is encrypted
  unless the development flag is set.\<close>

theorem validated_agent_dials_wss:
  assumes "Config_Load env url_parse fs = Inr cfg"
  shows "\<exists>u. buildWSURL url_parse (wc_ServerURL (agent_wss_config cfg vars)) (wc_AllowInsecure (agent_wss_config cfg vars)) = Inr u
    \<and> u_Host u \<noteq> [] \<and> HasSuffix (u_Path u) endpoint
    \<and> (u_Scheme u = ''wss'' \<or> u_Scheme u = ''ws'' \<and> cf_DevAllowInsecure cfg)"
proof -
  from assms obtain u where "url_parse (cf_ServerURL cfg) = Some u" "u_Host u \<noteq> []"
    "u_Scheme u = ''https'' \<or> u_Scheme u = ''http'' \<and> cf_DevAllowInsecure cfg"
    by (auto simp: Config_Load_Inr_iff Config_Validate_None validateServerURL_None)
  then show ?thesis
    by (auto simp: buildWSURL_def agent_wss_config_def HasSuffix_iff)
qed

theorem validated_agent_dials_wss_witness:
  "\<exists>u. buildWSURL (\<lambda>_. Some \<lparr>u_Scheme = ''https'', u_Host = ''api'', u_Path = ''/'', u_rest = []\<rparr>) ''https://api'' False = Inr u
    \<and> u_Scheme u = ''wss'' \<and> u_Path u = ''/v1/agents/connect''"
proof -
  let ?url = "\<lambda>_ :: string. Some \<lparr>u_Scheme = ''https'', u_Host = ''api'', u_Path = ''/'', u_rest = []\<rparr>"
  have "Config_Load (Some example_config) ?url \<lparr>MkdirAll = \<lambda>_. True, CreateTemp = \<lambda>_. True\<rparr> = Inr example_config"
    by (simp add: Config_Load_Inr_iff Config_Validate_None validateServerURL_None agentKeyPattern_def example_config_def
        validateStateDirWritable_def is_lower_hex_def char_code_def list_all_iff Let_def)
  from validated_agent_dials_wss [OF this, of unstamped] show ?thesis
    by (auto simp: agent_wss_config_def example_config_def buildWSURL_def endpoint_def HasSuffix_def TrimRight_def split: if_splits)
qed

text \<open>C35: The health check cannot pass beside a running agent: if the agent keeps its state file open for five
  seconds more, the probe started on the same host waits for the file lock, gives up and exits with
  1; only if the agent closes the file in time (with a margin of a tenth of a second) it exits with 0.\<close>

theorem health_check_beside_agent:
  assumes "load_and_open B ho = Inr (cfg, s)" "file_held (Store_Path s) held opener (ho_bolt_open ho)"
  shows "(5000000000 \<le> held \<longrightarrow> health_check B (ho\<lparr>ho_bolt_open := opener\<rparr>) = 1)
    \<and> (held \<le> 4900000000 \<longrightarrow> health_check B (ho\<lparr>ho_bolt_open := opener\<rparr>) = 0)"
proof -
  from assms(1) have load: "Config_Load (ho_env ho) (ho_url ho) (ho_fs ho) = Inr cfg"
    "Store_Open B (ho_hkdf ho) (ho_bolt_open ho) (ho_rand ho) (ho_disk ho) (StateDBPath cfg) 0 (cf_AgentKey cfg) = Inr s"
    by (auto simp: load_and_open_def split: sum.splits)
  have "Store_Open B (ho_hkdf ho) opener (ho_rand ho) (ho_disk ho) (StateDBPath cfg) 0 (cf_AgentKey cfg) = Inl OpenBolt" if "5000000000 \<le> held"
    using Store_Open_parts(1) [OF load(2), of opener] assms(2) that by (simp add: file_held_def Store_Path_def)
  moreover have "Store_Open B (ho_hkdf ho) opener (ho_rand ho) (ho_disk ho) (StateDBPath cfg) 0 (cf_AgentKey cfg) = Inr s" if "held \<le> 4900000000"
    using Store_Open_parts(2) [OF load(2), of opener] assms(2) that by (simp add: file_held_def Store_Path_def)
  ultimately show ?thesis using load by (simp add: health_check_def load_and_open_def)
qed

theorem health_check_beside_agent_witness:
  "\<exists>s. load_and_open ref_bolt example_host = Inr (example_config, s) \<and> Store_Path s = ''/d/state.db''
    \<and> health_check ref_bolt (example_host\<lparr>ho_bolt_open := (\<lambda>p t. if 0 < t \<and> t \<le> 3600000000000 then None else ho_bolt_open example_host p t)\<rparr>) = 1
    \<and> health_check ref_bolt example_host = 0"
proof -
  have "Config_Load (ho_env example_host) (ho_url example_host) (ho_fs example_host) = Inr example_config"
    by (simp add: Config_Load_Inr_iff Config_Validate_None validateServerURL_None agentKeyPattern_def example_config_def
        example_host_def validateStateDirWritable_def is_lower_hex_def char_code_def list_all_iff Let_def)
  moreover have "StateDBPath example_config = ''/d/state.db''" by code_simp
  moreover have "\<exists>s. Store_Open ref_bolt (ho_hkdf example_host) (ho_bolt_open example_host) (ho_rand example_host) (ho_disk example_host)
      ''/d/state.db'' 0 (cf_AgentKey example_config) = Inr s \<and> Store_Path s = ''/d/state.db''"
    by (simp add: Store_Open_def example_host_def example_config_def deriveStateKey_def newGCM_def aes_new_gcm_def stateKeyLen_def
        ensureBuckets_def db_update_def Ext_def Store_Path_def Let_def)
  ultimately obtain s where l: "load_and_open ref_bolt example_host = Inr (example_config, s)" "Store_Path s = ''/d/state.db''"
    by (auto simp: load_and_open_def)
  have "file_held (Store_Path s) 3600000000000 (\<lambda>p t. if 0 < t \<and> t \<le> 3600000000000 then None else ho_bolt_open example_host p t) (ho_bolt_open example_host)"
    "file_held (Store_Path s) 0 (ho_bolt_open example_host) (ho_bolt_open example_host)"
    by (auto simp: file_held_def)
  from health_check_beside_agent [OF l(1) this(1)] health_check_beside_agent [OF l(1) this(2)] l show ?thesis by simp
qed

text \<open>A dump of the state without \<open>--allow-secrets\<close> does not depend on the configuration: whatever
  configuration was saved under a version, \<open>dump-state\<close> prints the same.\<close>

theorem dump_hides_config:
  assumes "bolt_laws B ok" "store_ok ok s" "SaveConfig B s v raw1 = (Inr (), s1)" "SaveConfig B s v raw2 = (Inr (), s2)"
  shows "dump_store B False path s1 = dump_store B False path s2"
proof -
  have saved: "LoadConfig B s1 = Inr (v, raw1)" "LoadConfig B s2 = Inr (v, raw2)"
    using bolt_laws.config_saved [OF assms(1,2)] assms(3,4) by blast+
  have same: "LoadSession B s' = LoadSession B s \<and> LastHeartbeat B s' = LastHeartbeat B s \<and> QueueDepth B s' = QueueDepth B s"
    if "SaveConfig B s v raw = (Inr (), s')" for raw s'
  proof -
    have "changes_bucket bktConfig s (\<lambda>_ _ _. True) (Inr (), s')"
      using bolt_laws.SaveConfig_changes [OF assms(1), of s raw v] assms(2) that
      by (auto simp: store_ok_def elim: changes_bucket_mono)
    then have "st_db s' bktRegistry = st_db s bktRegistry" "st_db s' bktQueue = st_db s bktQueue" "st_open s' = st_open s"
      "st_aead s' = st_aead s"
      by (auto simp: changes_bucket_def)
    then show ?thesis by (simp add: LoadSession_def LastHeartbeat_def QueueDepth_def db_view_def in_bucket_def cong: option.case_cong)
  qed
  from same [OF assms(3)] same [OF assms(4)] saved show ?thesis by (simp add: dump_store_def)
qed

theorem dump_hides_config_witness:
  "\<exists>s1 s2. SaveConfig ref_bolt example_store 7 [1, 2] = (Inr (), s1) \<and> SaveConfig ref_bolt example_store 7 [3] = (Inr (), s2)
    \<and> sd_ConfigVersion (dump_store ref_bolt False [] s1) = sd_ConfigVersion (dump_store ref_bolt False [] s2)"
proof -
  obtain s1 where s1: "SaveConfig ref_bolt example_store 7 [1, 2] = (Inr (), s1)" using example_SaveConfig by blast
  obtain s2 where s2: "SaveConfig ref_bolt example_store 7 [3] = (Inr (), s2)"
    using ref_bolt.SaveConfig_works [OF example_store_ok example_works, of "[3]" 7]
    by (cases "SaveConfig ref_bolt example_store 7 [3]") simp
  from dump_hides_config [OF ref_bolt.bolt_laws_axioms example_store_ok s1 s2, of "[]"] s1 s2 show ?thesis by auto
qed

end
