(* ===== verification/Spec2Isabelle.thy ===== *)
theory Spec2Isabelle
  imports Backup_Restore Cli_Output Hooks State_Props Wss_Props Discovery Driver_Props Runner_Props Pipe_Props
    Agent_Store Agent_Props Command_Props
begin

text \<open>
  \<^bold>\<open>A verification development for the Backupy agent and its restore tool.\<close>

  \<^bold>\<open>The program.\<close> \<open>apps/agent\<close> runs on a customer's host. It dumps databases, compresses, encrypts
  and uploads the dumps to presigned URLs, and takes its orders from a control plane over a
  WebSocket. \<open>apps/backupy-decrypt\<close> turns an uploaded file back into a dump, given a recovery token
  with the key. The state passes through these parts: the control plane sends a configuration and
  \<open>RunBackup\<close> messages; the connection (\<open>wss\<close>) saves the configuration in the state file (\<open>state\<close>),
  and hands both to callbacks (\<open>cmd/agent\<close>); a goroutine per request runs the pipeline
  (\<open>pipeline\<close>): driver, compression, encryption, upload, with hooks around it; its report goes back
  through the connection, or through the persistent queue (\<open>queue\<close>) while there is none.

  \<^bold>\<open>Which theory models what.\<close> Paths are relative to \<open>src/apps/agent/internal\<close> unless given.
  \<^item> \<open>Prelude\<close>, \<open>Go_Strings\<close>, \<open>Go_Float\<close>: bytes, words and big-endian numbers; the functions of
    \<open>strings\<close>, \<open>strconv\<close>, \<open>encoding/hex\<close>, \<open>encoding/base64\<close>, \<open>path\<close> and \<open>net/url\<close> the code calls;
    \<open>float64\<close> rounded to 53 bits.
  \<^item> \<open>Go_IO\<close>: readers and writers with every error a call can see. \<open>Aead\<close>: AES-256 and GCM, written
    out from the standards, as an instance of the locale \<open>aead_laws\<close>.
  \<^item> \<open>Frame_Format\<close>, \<open>Encrypt\<close>: \<open>pipeline/encrypt.go\<close>. \<open>decode_stream\<close> is the specification of the file
    format that both decoders are proved to refine.
  \<^item> \<open>Jwt\<close>, \<open>Decrypt_Cli\<close>: \<open>src/apps/backupy-decrypt\<close> (\<open>jwt.go\<close>, \<open>decrypt.go\<close>, \<open>main.go\<close>).
    \<open>Cli_Output\<close>: what the tool prints. \<open>Backup_Restore\<close>: the agent's encryption against the tool.
  \<^item> \<open>Tail_Buffers\<close>, \<open>Hooks\<close>: the two ring buffers and \<open>pipeline/hooks.go\<close>.
  \<^item> \<open>Bolt\<close>, \<open>State_Crypto\<close>, \<open>Store\<close>, \<open>Store_Laws\<close>, \<open>Job_Queue\<close>, \<open>State_Props\<close>: \<open>state/crypto.go\<close>,
    \<open>state/state.go\<close> and \<open>queue/queue.go\<close>. \<open>bolt_laws\<close> and \<open>job_queue\<close> are the locales between them.
  \<^item> \<open>Proto_Types\<close>, \<open>Backoff\<close>, \<open>Wss\<close>, \<open>Wss_Props\<close>: the messages (\<open>proto/proto.go\<close>) and \<open>wss\<close>. A
    client is one record; the three goroutines of a connection are interleaved steps (\<open>live_step\<close>).
  \<^item> \<open>Config\<close>: \<open>config/config.go\<close>. \<open>Discovery\<close>: \<open>discovery\<close>. \<open>Telemetry\<close>: \<open>version\<close>, \<open>logging\<close>, and the
    values that \<open>metrics\<close> writes. \<open>Metrics_Server\<close>: \<open>metrics/server.go\<close>, \<open>ListenAndServe\<close> and its
    goroutine as steps.
  \<^item> \<open>Drivers\<close>, \<open>Snapshot_Drivers\<close>, \<open>Driver_Props\<close>: \<open>pipeline/pg_dump.go\<close>, \<open>mysqldump.go\<close>, \<open>mongodump.go\<close>,
    \<open>redis.go\<close>, \<open>sqlite.go\<close> and the command runners. \<open>driver\<close> is the locale of the interface in
    \<open>pipeline.go\<close>, interpreted on all five.
  \<^item> \<open>Runner\<close>, \<open>Runner_Props\<close>: \<open>pipeline/runner.go\<close>, \<open>compress.go\<close>, \<open>upload.go\<close>: one run, end to end.
    \<open>Pipes\<close>, \<open>Pipe_Invariants\<close>, \<open>Pipe_Progress\<close>, \<open>Pipe_Props\<close>: its four goroutines over three pipes,
    every read, write and close a step of \<open>pipes_step\<close>.
  \<^item> \<open>Agent\<close>, \<open>Agent_System\<close>: \<open>src/apps/agent/cmd/agent/run.go\<close>. \<open>agent_step\<close> is the transition relation
    of the running agent, composed of the connection's steps, the phases of the runs (lookups,
    result, return after the post-hooks, report), the discovery scans and the signal. \<open>Agent_Invariants\<close>, \<open>Agent_Metrics\<close>, \<open>Agent_Store\<close>, \<open>Agent_Props\<close>:
    what holds in its reachable states. \<open>Agent_Example\<close>: the concrete agent of the witnesses.
  \<^item> \<open>Commands\<close>, \<open>Command_Props\<close>: the sub-commands beside \<open>run\<close>, and the root command
    (\<open>main.go\<close>, \<open>dumpstate.go\<close>, \<open>healthcheck.go\<close>, \<open>version.go\<close>).

  Definitions have the names of the Go functions, a type's methods prefixed with the type where names
  clash (\<open>Encryptor_Stream\<close>, \<open>Client_Send\<close>). Loops and stages of long Go functions are definitions of
  their own. Errors are values: the wrapped texts of \<open>fmt.Errorf\<close> become constructors. What the code
  gets from packages outside the repository is an argument of the definitions that use it.

  \<^bold>\<open>What is proved.\<close> Round trips: what the agent reports as backed up is restored by the tool bit for
  bit, end to end from \<open>Runner.Run\<close> to \<open>decrypt.Run\<close>; the state file and the queue return what was
  saved. Safety: truncated, failed or incomplete streams are refused or never uploaded, only
  authenticated bytes are written, secrets do not leave through discovery, argument lists or logs.
  Refinement: both decoders against the format, the queue against a map, the tail buffers against
  suffixes, the whole agent against a ledger driven by the requests that come in and the reports
  that go out. Invariants of reachable states:
  the store never panics and stays readable (\<open>agent_store_well_typed\<close>), the connection is first-in
  first-out, every backup request is answered exactly once, what is reported as completed can be
  restored, runs use configurations that were received, the metrics agree with what happened.
  Concurrency: the goroutines of a run never block each other for good (\<open>pipes_never_stuck\<close>), end
  after a bounded number of steps (\<open>pipes_end\<close>), and succeed exactly with the result of the stages
  in order, failing only when a stage does (\<open>pipes_run_as_in_order\<close>). Bounds,
  termination and liveness: the time-outs hooks are granted, reconnect delays, the \<open>LASTSAVE\<close> poll,
  that a run whose parts all work succeeds, and that a backup reaches the server. Some theorems
  state what the code does where its comments or documents say otherwise, for example
  \<open>rearranged_frames_accepted\<close>, \<open>report_lost_with_connection\<close>,
  \<open>replay_blocks_and_loses\<close>, \<open>lost_connection_cancels_backup\<close>,
  \<open>config_can_change_between_lookups\<close>, \<open>restarted_agent_forgets_config\<close>
  and \<open>health_check_beside_agent\<close>.

  \<^bold>\<open>Bounds and termination.\<close> No function takes fuel. \<open>stream_loop\<close>, \<open>decrypt_loop\<close>, \<open>decryptStream\<close> and
  \<open>decode_stream\<close> recurse on the unread input, which every iteration shortens. \<open>wait_loop\<close> is a
  \<open>partial_function (option)\<close> and proved to return on a clock that advances. Integers are \<open>word\<close>s of
  the Go width where they can wrap (frame sizes, sequence numbers, versions, ports). The measure of
  \<open>pipes_end\<close> counts the bytes that can still pass through the pipes and the calls left to do.

  \<^bold>\<open>Concurrency.\<close> \<open>Runner\<close> composes the stages of a run in order, since each reads only what the one
  before wrote; what their interleaving leaves open (after how many bytes a pipe was closed, which
  error came first) are arguments of the run, so theorems hold for every choice. \<open>Pipes\<close> executes the
  same stages as interleaved goroutines, in pieces of any size. The loops of a connection and the
  goroutines of the agent interleave as steps; one step is what a goroutine does between two
  points at which others can see it. Two steps are coarser than that: a run up to its result (it
  shares nothing with the rest but its context, which is taken as it is when the result is
  settled), and \<open>Send\<close>, which looks at the channel under the lock and pushes after it.

  \<^bold>\<open>Not modelled.\<close> The generated protobuf code and the protobuf runtime (a codec with a round-trip
  law), bbolt (the locale \<open>bolt_laws\<close> with a reference instance), HKDF, zstd, gzip, SHA-256, TLS,
  HTTP, WebSocket, JSON, database/sql, cobra, the environment parser and Prometheus: third-party or
  standard packages the code only calls. The calls that write log lines: what the handler lets
  through is modelled (\<open>log_record\<close>), where it is called is not. Time-outs appear as the failures
  they cause.
\<close>

end
